theory Spec2Isabelle
  imports Main "HOL-Library.Word"
begin

section \<open>Data model of the storage console (storage\_cli.c)\<close>

text \<open>
  The handlers of \<^verbatim>\<open>storage_cli.c\<close> are sequences of calls into three collaborators:
  the console (\<^verbatim>\<open>printf\<close>, \<^verbatim>\<open>putchar\<close>, \<^verbatim>\<open>cli_getc\<close>, \<^verbatim>\<open>cli_read\<close>),
  the storage service and the record registry. The embedding threads a \<open>World\<close> through
  every handler: the pending console input, the stored files, and the ordered trace of
  every call the handler made. A handler that waits for console input which never
  arrives does not return: it yields \<open>None\<close>.
\<close>

type_synonym byte = "8 word"

text \<open>
  Modelled from the spec: the flat enumeration of filesystem failure reasons
  (\<^verbatim>\<open>FS_Error\<close>, declared in the storage headers, which are not part of the sources at
  hand). The source itself names \<^verbatim>\<open>FSE_OK\<close> and \<^verbatim>\<open>FSE_NOT_IMPLEMENTED\<close>.
\<close>

datatype FS_Error =
    FSE_OK
  | FSE_NOT_EXIST
  | FSE_EXIST
  | FSE_INVALID_NAME
  | FSE_DENIED
  | FSE_NOT_IMPLEMENTED
  | FSE_INTERNAL

datatype FS_AccessMode = FSAM_READ | FSAM_WRITE

datatype FS_OpenMode = FSOM_OPEN_EXISTING | FSOM_OPEN_APPEND

text \<open>The two fields of \<^verbatim>\<open>FileInfo\<close> the handlers look at (\<^verbatim>\<open>file_info_is_dir\<close>, \<^verbatim>\<open>size\<close>).\<close>

record FileInfo =
  is_dir :: bool
  size :: "64 word"

text \<open>The fields of \<^verbatim>\<open>SDInfo\<close> printed by \<^verbatim>\<open>storage_cli_info\<close>.\<close>

record SDInfo =
  label :: string
  fs_type :: nat
  kb_total :: "32 word"
  kb_free :: "32 word"
  manufacturer_id :: "8 word"
  oem_id :: string
  product_name :: string
  product_revision_major :: "8 word"
  product_revision_minor :: "8 word"
  product_serial_number :: "32 word"
  manufacturing_month :: "8 word"
  manufacturing_year :: "16 word"

text \<open>An argument of a \<^verbatim>\<open>printf\<close> call, after the cast written in the source.\<close>

datatype arg =
    ArgStr string
  | ArgChar byte
  | ArgU8 "8 word"
  | ArgU16 "16 word"
  | ArgU32 "32 word"
  | ArgU64 "64 word"

text \<open>Every call a handler makes to a collaborator, in the order it makes them.\<close>

datatype event =
    Printf string "arg list"
  | Putchar byte
  | Fflush
  | Getc byte
  | CliRead nat "byte list"
  | RecordOpen
  | RecordClose
  | FileAlloc
  | FileFree
  | FileOpen string FS_AccessMode FS_OpenMode bool
  | FileClose
  | FileSize
  | FileRead nat "byte list"
  | FileWrite "byte list" nat
  | DirOpen string bool
  | DirRead bool
  | DirClose
  | DirWalkAlloc
  | DirWalkOpen string bool
  | DirWalkRead bool
  | DirWalkFree
  | Md5Calc string bool
  | CommonFsInfo string
  | SdInfo
  | SdFormat
  | CommonStat string
  | CommonTimestamp string
  | CommonCopy string string
  | CommonRemove string
  | CommonRename string string
  | CommonMigrate string string
  | CommonMkdir string
  | RtcSetFlagFactoryReset
  | PowerReboot

record World =
  cin :: "byte list"
  files :: "string \<Rightarrow> byte list option"
  room :: nat
  trace :: "event list"

text \<open>
  What the collaborators answer. None of them is part of the sources at hand, so every
  answer is a parameter: the C library's \<^verbatim>\<open>sscanf\<close> with the format \<^verbatim>\<open>%lu\<close>
  (\<open>None\<close> when the parsed count is not 1), the two token readers of the toolbox (the
  token read and the remaining argument text, \<open>None\<close> when they return false), the
  description of an error code, and the result of each storage query.
\<close>

record Env =
  sscanf_lu :: "string \<Rightarrow> 32 word option"
  args_read_string_and_trim :: "string \<Rightarrow> (string \<times> string) option"
  args_read_probably_quoted_string_and_trim :: "string \<Rightarrow> (string \<times> string) option"
  storage_error_get_desc :: "FS_Error \<Rightarrow> string"
  furi_hal_version_get_name_ptr :: "string option"
  sd_api_get_fs_type_text :: "nat \<Rightarrow> string"
  open_fault :: "string \<Rightarrow> FS_Error"
  short_write_error :: FS_Error
  resp_fs_info :: "string \<Rightarrow> FS_Error \<times> 64 word \<times> 64 word"
  resp_sd_info :: "FS_Error \<times> SDInfo"
  resp_sd_format :: FS_Error
  resp_dir :: "string \<Rightarrow> FS_Error + (string \<times> FileInfo) list"
  resp_dir_walk :: "string \<Rightarrow> FS_Error + (string \<times> FileInfo) list"
  resp_stat :: "string \<Rightarrow> FS_Error \<times> FileInfo"
  resp_timestamp :: "string \<Rightarrow> FS_Error \<times> 32 word"
  resp_copy :: "string \<Rightarrow> string \<Rightarrow> FS_Error"
  resp_remove :: "string \<Rightarrow> FS_Error"
  resp_rename :: "string \<Rightarrow> string \<Rightarrow> FS_Error"
  resp_migrate :: "string \<Rightarrow> string \<Rightarrow> FS_Error"
  resp_mkdir :: "string \<Rightarrow> FS_Error"
  resp_md5 :: "string \<Rightarrow> FS_Error + string"

text \<open>
  Modelled from the spec: the volume prefixes and the cancel symbol are macros of headers
  that are not part of the sources at hand. The usage text of the source names
  \<^verbatim>\<open>/int\<close> and \<^verbatim>\<open>/ext\<close>, its root listing names \<^verbatim>\<open>any\<close>, and the cancel symbol
  is ASCII end of text.
\<close>

definition STORAGE_INT_PATH_PREFIX :: string where
  "STORAGE_INT_PATH_PREFIX = ''/int''"

definition STORAGE_EXT_PATH_PREFIX :: string where
  "STORAGE_EXT_PATH_PREFIX = ''/ext''"

definition STORAGE_ANY_PATH_PREFIX :: string where
  "STORAGE_ANY_PATH_PREFIX = ''/any''"

definition CliSymbolAsciiETX :: byte where
  "CliSymbolAsciiETX = 0x03"

abbreviation (input) CRLF :: string where
  "CRLF \<equiv> [CHR 0x0D, CHR 0x0A]"

abbreviation (input) TAB :: string where
  "TAB \<equiv> [CHR 0x09]"

section \<open>Console primitives\<close>

definition emit :: "event \<Rightarrow> World \<Rightarrow> World" where
  "emit e w = w\<lparr>trace := trace w @ [e]\<rparr>"

definition printf :: "string \<Rightarrow> arg list \<Rightarrow> World \<Rightarrow> World" where
  "printf fmt as w = emit (Printf fmt as) w"

text \<open>\<^verbatim>\<open>cli_getc\<close> blocks until the console delivers one byte.\<close>

definition cli_getc :: "World \<Rightarrow> (byte \<times> World) option" where
  "cli_getc w =
     (case cin w of
        [] \<Rightarrow> None
      | c # cs \<Rightarrow> Some (c, emit (Getc c) (w\<lparr>cin := cs\<rparr>)))"

text \<open>
  Modelled from the spec: \<^verbatim>\<open>cli_read\<close> is a blocking bounded raw-byte read returning
  the actual count; it may return fewer bytes than requested. It delivers what the
  console holds, up to the requested size, and blocks while the console holds nothing.
\<close>

definition cli_read :: "nat \<Rightarrow> World \<Rightarrow> (byte list \<times> World) option" where
  "cli_read n w =
     (case cin w of
        [] \<Rightarrow> None
      | c # cs \<Rightarrow> Some (take n (cin w), emit (CliRead n (take n (cin w))) (w\<lparr>cin := drop n (cin w)\<rparr>)))"

definition usage_lines :: "string list" where
  "usage_lines =
    [ ''Usage:'' @ CRLF,
      ''storage <cmd> <path> <args>'' @ CRLF,
      ''The path must start with /int or /ext'' @ CRLF,
      ''Cmd list:'' @ CRLF,
      TAB @ ''info'' @ TAB @ '' - get FS info'' @ CRLF,
      TAB @ ''format'' @ TAB @ '' - format filesystem'' @ CRLF,
      TAB @ ''list'' @ TAB @ '' - list files and dirs'' @ CRLF,
      TAB @ ''tree'' @ TAB @ '' - list files and dirs, recursive'' @ CRLF,
      TAB @ ''remove'' @ TAB @ '' - delete the file or directory'' @ CRLF,
      TAB @ ''read'' @ TAB @ '' - read text from file and print file size and content to cli'' @ CRLF,
      TAB @ ''read_chunks'' @ TAB @ '' - read data from file and print file size and content to cli, <args> should contain how many bytes you want to read in block'' @ CRLF,
      TAB @ ''write'' @ TAB @ '' - read text from cli and append it to file, stops by ctrl+c'' @ CRLF,
      TAB @ ''write_chunk'' @ TAB @ '' - read data from cli and append it to file, <args> should contain how many bytes you want to write'' @ CRLF,
      TAB @ ''copy'' @ TAB @ '' - copy file to new file, <args> must contain new path'' @ CRLF,
      TAB @ ''rename'' @ TAB @ '' - move file to new file, <args> must contain new path'' @ CRLF,
      TAB @ ''migrate'' @ TAB @ '' - move folder to new path, renaming already present files by adding numbers to the end'' @ CRLF,
      TAB @ ''mkdir'' @ TAB @ '' - creates a new directory'' @ CRLF,
      TAB @ ''md5'' @ TAB @ '' - md5 hash of the file'' @ CRLF,
      TAB @ ''stat'' @ TAB @ '' - info about file or dir'' @ CRLF,
      TAB @ ''timestamp'' @ TAB @ '' - last modification timestamp'' @ CRLF ]"

definition usage_events :: "event list" where
  "usage_events = map (\<lambda>s. Printf s []) usage_lines"

definition storage_cli_print_usage :: "World \<Rightarrow> World" where
  "storage_cli_print_usage w = w\<lparr>trace := trace w @ usage_events\<rparr>"

definition storage_cli_print_error :: "Env \<Rightarrow> FS_Error \<Rightarrow> World \<Rightarrow> World" where
  "storage_cli_print_error env error w =
     printf (''Storage error: %s'' @ CRLF) [ArgStr (storage_error_get_desc env error)] w"

section \<open>Storage primitives\<close>

text \<open>
  Modelled from the spec: the storage service is an external collaborator (open and close
  handles by path with an access mode and an open disposition; read and write byte buffers
  returning the actual transferred count; query the file size). A handle remembers its
  path, its read position and the error code of its last operation. Opening fails with
  the fault the service holds for the path, or with \<^verbatim>\<open>FSE_NOT_EXIST\<close> when an
  existing file is asked for and there is none; opening for append creates a missing
  file and positions the handle at the end. A read returns the bytes from the read position
  up to the requested count. A write through a handle opened for append (the only kind
  the handlers write through) appends as many of the bytes as the volume has room for.
\<close>

record File =
  fpath :: string
  fpos :: nat
  is_open :: bool
  error_id :: FS_Error

definition content_of :: "World \<Rightarrow> string \<Rightarrow> byte list" where
  "content_of w path = (case files w path of None \<Rightarrow> [] | Some c \<Rightarrow> c)"

definition storage_file_alloc :: "World \<Rightarrow> File \<times> World" where
  "storage_file_alloc w =
     (\<lparr>fpath = [], fpos = 0, is_open = False, error_id = FSE_OK\<rparr>, emit FileAlloc w)"

definition storage_file_open ::
  "Env \<Rightarrow> File \<Rightarrow> string \<Rightarrow> FS_AccessMode \<Rightarrow> FS_OpenMode \<Rightarrow> World \<Rightarrow> bool \<times> File \<times> World" where
  "storage_file_open env file path am om w =
     (if open_fault env path \<noteq> FSE_OK then
        (False, file\<lparr>error_id := open_fault env path\<rparr>, emit (FileOpen path am om False) w)
      else if om = FSOM_OPEN_EXISTING \<and> files w path = None then
        (False, file\<lparr>error_id := FSE_NOT_EXIST\<rparr>, emit (FileOpen path am om False) w)
      else
        (True,
         file\<lparr>fpath := path,
              fpos := (if om = FSOM_OPEN_APPEND then length (content_of w path) else 0),
              is_open := True, error_id := FSE_OK\<rparr>,
         emit (FileOpen path am om True) (w\<lparr>files := (files w)(path \<mapsto> content_of w path)\<rparr>)))"

definition storage_file_get_error :: "File \<Rightarrow> FS_Error" where
  "storage_file_get_error file = error_id file"

definition storage_file_size :: "File \<Rightarrow> World \<Rightarrow> 64 word \<times> World" where
  "storage_file_size file w = (of_nat (length (content_of w (fpath file))), emit FileSize w)"

definition storage_file_read :: "File \<Rightarrow> nat \<Rightarrow> World \<Rightarrow> byte list \<times> File \<times> World" where
  "storage_file_read file n w =
     (let data = take n (drop (fpos file) (content_of w (fpath file)))
      in (data, file\<lparr>fpos := fpos file + length data\<rparr>, emit (FileRead n data) w))"

definition storage_file_write :: "Env \<Rightarrow> File \<Rightarrow> byte list \<Rightarrow> World \<Rightarrow> nat \<times> File \<times> World" where
  "storage_file_write env file data w =
     (let n = min (length data) (room w)
      in (n,
          file\<lparr>error_id := (if n = length data then FSE_OK else short_write_error env)\<rparr>,
          emit (FileWrite data n)
            (w\<lparr>files := (files w)(fpath file \<mapsto> content_of w (fpath file) @ take n data),
               room := room w - n\<rparr>)))"

definition storage_file_close :: "World \<Rightarrow> World" where
  "storage_file_close w = emit FileClose w"

definition storage_file_free :: "World \<Rightarrow> World" where
  "storage_file_free w = emit FileFree w"

definition furi_record_open :: "World \<Rightarrow> World" where
  "furi_record_open w = emit RecordOpen w"

definition furi_record_close :: "World \<Rightarrow> World" where
  "furi_record_close w = emit RecordClose w"

section \<open>Handlers\<close>

definition storage_cli_info :: "Env \<Rightarrow> string \<Rightarrow> World \<Rightarrow> World" where
  "storage_cli_info env path w =
     (let w1 = furi_record_open w;
          w2 =
            (if path = STORAGE_INT_PATH_PREFIX then
               (case resp_fs_info env STORAGE_INT_PATH_PREFIX of
                  (error, total_space, free_space) \<Rightarrow>
                    (let w' = emit (CommonFsInfo STORAGE_INT_PATH_PREFIX) w1
                     in if error \<noteq> FSE_OK then storage_cli_print_error env error w'
                        else printf
                          (''Label: %s'' @ CRLF @ ''Type: LittleFS'' @ CRLF @
                           ''%luKiB total'' @ CRLF @ ''%luKiB free'' @ CRLF)
                          [ArgStr (case furi_hal_version_get_name_ptr env of
                                     Some name \<Rightarrow> name | None \<Rightarrow> ''Unknown''),
                           ArgU32 (ucast (total_space div 1024)),
                           ArgU32 (ucast (free_space div 1024))] w'))
             else if path = STORAGE_EXT_PATH_PREFIX then
               (case resp_sd_info env of
                  (error, sd_info) \<Rightarrow>
                    (let w' = emit SdInfo w1
                     in if error \<noteq> FSE_OK then storage_cli_print_error env error w'
                        else printf
                          (''Label: %s'' @ CRLF @ ''Type: %s'' @ CRLF @
                           ''%luKiB total'' @ CRLF @ ''%luKiB free'' @ CRLF @
                           ''%02x%s %s v%i.%i'' @ CRLF @ ''SN:%04lx %02i/%i'' @ CRLF)
                          [ArgStr (label sd_info),
                           ArgStr (sd_api_get_fs_type_text env (fs_type sd_info)),
                           ArgU32 (kb_total sd_info),
                           ArgU32 (kb_free sd_info),
                           ArgU8 (manufacturer_id sd_info),
                           ArgStr (oem_id sd_info),
                           ArgStr (product_name sd_info),
                           ArgU8 (product_revision_major sd_info),
                           ArgU8 (product_revision_minor sd_info),
                           ArgU32 (product_serial_number sd_info),
                           ArgU8 (manufacturing_month sd_info),
                           ArgU16 (manufacturing_year sd_info)] w'))
             else storage_cli_print_usage w1)
      in furi_record_close w2)"

definition storage_cli_format :: "Env \<Rightarrow> string \<Rightarrow> World \<Rightarrow> World option" where
  "storage_cli_format env path w =
     (if path = STORAGE_INT_PATH_PREFIX then
        Some (storage_cli_print_error env FSE_NOT_IMPLEMENTED w)
      else if path = STORAGE_EXT_PATH_PREFIX then
        (case cli_getc
                (printf (''Formatting SD card, All data will be lost! Are you sure (y/n)?'' @ CRLF) [] w) of
           None \<Rightarrow> None
         | Some (answer, w1) \<Rightarrow>
             if answer = of_char (CHR ''y'') \<or> answer = of_char (CHR ''Y'') then
               (let w2 = furi_record_open w1;
                    w3 = printf (''Formatting, please wait...'' @ CRLF) [] w2;
                    error = resp_sd_format env;
                    w4 = emit SdFormat w3;
                    w5 = (if error \<noteq> FSE_OK then storage_cli_print_error env error w4
                          else printf (''SD card was successfully formatted.'' @ CRLF) [] w4)
                in Some (furi_record_close w5))
             else Some (printf (''Cancelled.'' @ CRLF) [] w1))
      else Some (storage_cli_print_usage w))"

definition print_entry :: "string \<Rightarrow> FileInfo \<Rightarrow> World \<Rightarrow> World" where
  "print_entry name fileinfo w =
     (if is_dir fileinfo then printf (TAB @ ''[D] %s'' @ CRLF) [ArgStr name] w
      else printf (TAB @ ''[F] %s %lub'' @ CRLF) [ArgStr name, ArgU32 (ucast (size fileinfo))] w)"

text \<open>
  The loop over \<^verbatim>\<open>storage_dir_read\<close>: one successful read per entry the service
  yields, then the read that returns false.
\<close>

fun list_loop :: "(string \<times> FileInfo) list \<Rightarrow> World \<Rightarrow> World" where
  "list_loop [] w = emit (DirRead False) w"
| "list_loop ((name, fileinfo) # es) w =
     list_loop es (print_entry name fileinfo (emit (DirRead True) w))"

definition storage_cli_list :: "Env \<Rightarrow> string \<Rightarrow> World \<Rightarrow> World" where
  "storage_cli_list env path w =
     (if path = ''/'' then
        printf (TAB @ ''[D] any'' @ CRLF) []
          (printf (TAB @ ''[D] ext'' @ CRLF) []
            (printf (TAB @ ''[D] int'' @ CRLF) [] w))
      else
        (let w1 = furi_record_open w;
             (file, w2) = storage_file_alloc w1;
             w3 =
               (case resp_dir env path of
                  Inr entries \<Rightarrow>
                    (let w' = list_loop entries (emit (DirOpen path True) w2)
                     in if entries = [] then printf (TAB @ ''Empty'' @ CRLF) [] w' else w')
                | Inl e \<Rightarrow>
                    storage_cli_print_error env (storage_file_get_error (file\<lparr>error_id := e\<rparr>))
                      (emit (DirOpen path False) w2))
         in furi_record_close (storage_file_free (emit DirClose w3))))"

text \<open>The loop over \<^verbatim>\<open>dir_walk_read\<close>: it runs while the walker answers \<^verbatim>\<open>DirWalkOK\<close>.\<close>

fun tree_loop :: "(string \<times> FileInfo) list \<Rightarrow> World \<Rightarrow> World" where
  "tree_loop [] w = emit (DirWalkRead False) w"
| "tree_loop ((name, fileinfo) # es) w =
     tree_loop es (print_entry name fileinfo (emit (DirWalkRead True) w))"

function storage_cli_tree :: "Env \<Rightarrow> string \<Rightarrow> World \<Rightarrow> World" where
  "storage_cli_tree env path w =
     (if path = ''/'' then
        storage_cli_tree env STORAGE_EXT_PATH_PREFIX
          (storage_cli_tree env STORAGE_INT_PATH_PREFIX w)
      else
        (let w1 = furi_record_open w;
             w2 = emit DirWalkAlloc w1;
             w3 =
               (case resp_dir_walk env path of
                  Inr entries \<Rightarrow>
                    (let w' = tree_loop entries (emit (DirWalkOpen path True) w2)
                     in if entries = [] then printf (TAB @ ''Empty'' @ CRLF) [] w' else w')
                | Inl e \<Rightarrow> storage_cli_print_error env e (emit (DirWalkOpen path False) w2))
         in furi_record_close (emit DirWalkFree w3)))"
  by pat_completeness auto
termination
  by (relation "measure (\<lambda>(env, path, w). if path = ''/'' then 1 else 0)")
     (auto simp: STORAGE_INT_PATH_PREFIX_def STORAGE_EXT_PATH_PREFIX_def)

declare storage_cli_tree.simps [simp del]

text \<open>
  The two inner loops that emit the bytes just read, one call per byte:
  \<^verbatim>\<open>printf("%c", data[i])\<close> in \<open>read\<close> and \<^verbatim>\<open>putchar(data[i])\<close> in \<open>read_chunks\<close>.
\<close>

definition print_bytes :: "byte list \<Rightarrow> World \<Rightarrow> World" where
  "print_bytes data w = w\<lparr>trace := trace w @ map (\<lambda>b. Printf ''%c'' [ArgChar b]) data\<rparr>"

definition put_bytes :: "byte list \<Rightarrow> World \<Rightarrow> World" where
  "put_bytes data w = w\<lparr>trace := trace w @ map Putchar data\<rparr>"

function read_loop :: "File \<Rightarrow> World \<Rightarrow> World" where
  "read_loop file w =
     (case storage_file_read file 128 w of
        (data, file', w1) \<Rightarrow>
          (let w2 = print_bytes data w1
           in if length data > 0 then read_loop file' w2 else w2))"
  by pat_completeness auto
termination
  by (relation "measure (\<lambda>(file, w). length (content_of w (fpath file)) - fpos file)")
     (auto simp: storage_file_read_def print_bytes_def content_of_def emit_def Let_def)

declare read_loop.simps [simp del]

definition storage_cli_read :: "Env \<Rightarrow> string \<Rightarrow> World \<Rightarrow> World" where
  "storage_cli_read env path w =
     (let w1 = furi_record_open w;
          (file, w2) = storage_file_alloc w1;
          (ok, file1, w3) = storage_file_open env file path FSAM_READ FSOM_OPEN_EXISTING w2;
          w4 =
            (if ok then
               (let (file_size, w') = storage_file_size file1 w3;
                    w'' = printf (''Size: %lu'' @ CRLF) [ArgU32 (ucast file_size)] w'
                in printf CRLF [] (read_loop file1 w''))
             else storage_cli_print_error env (storage_file_get_error file1) w3)
      in furi_record_close (storage_file_free (storage_file_close w4)))"

text \<open>
  The loop of \<^verbatim>\<open>storage_cli_write\<close>. The buffer holds 512 bytes and \<^verbatim>\<open>read_index\<close>
  is a \<^verbatim>\<open>uint32_t\<close>. The two nested tests of the source (the symbol is the cancel
  symbol; the pending size is positive) guard the only \<^verbatim>\<open>break\<close> of the cancel branch,
  so the branch is taken when both hold and the iteration goes on otherwise.
\<close>

function write_loop :: "Env \<Rightarrow> byte list \<Rightarrow> 32 word \<Rightarrow> File \<Rightarrow> World \<Rightarrow> World option" where
  "write_loop env buffer read_index file w =
     (case cli_getc w of
        None \<Rightarrow> None
      | Some (symbol, w1) \<Rightarrow>
          if symbol = CliSymbolAsciiETX \<and> unat read_index mod 512 > 0 then
            (case storage_file_write env file (take (unat read_index mod 512) buffer) w1 of
               (written_size, file', w2) \<Rightarrow>
                 Some (if written_size \<noteq> unat read_index mod 512
                       then storage_cli_print_error env (storage_file_get_error file') w2
                       else w2))
          else
            (let buffer' = buffer[unat read_index mod 512 := symbol];
                 w2 = emit Fflush
                        (printf ''%c'' [ArgChar (buffer' ! (unat read_index mod 512))] w1);
                 read_index' = read_index + 1
             in if unat read_index' mod 512 = 0 then
                  (case storage_file_write env file (take 512 buffer') w2 of
                     (written_size, file', w3) \<Rightarrow>
                       if written_size \<noteq> 512
                       then Some (storage_cli_print_error env (storage_file_get_error file') w3)
                       else write_loop env buffer' read_index' file' w3)
                else write_loop env buffer' read_index' file w2))"
  by pat_completeness auto
termination
  by (relation "measure (\<lambda>(env, buffer, read_index, file, w). length (cin w))")
     (auto simp: cli_getc_def storage_file_write_def printf_def emit_def Let_def
           split: list.splits)

declare write_loop.simps [simp del]

text \<open>
  The buffer comes from \<^verbatim>\<open>malloc\<close>; its initial bytes are never read before they are
  written, and are taken as zero here.
\<close>

definition storage_cli_write :: "Env \<Rightarrow> string \<Rightarrow> World \<Rightarrow> World option" where
  "storage_cli_write env path w =
     (let w1 = furi_record_open w;
          (file, w2) = storage_file_alloc w1;
          buffer = replicate 512 (0 :: byte);
          (ok, file1, w3) = storage_file_open env file path FSAM_WRITE FSOM_OPEN_APPEND w2
      in map_option (\<lambda>w4. furi_record_close (storage_file_free (storage_file_close w4)))
           (if ok then
              map_option (printf CRLF [])
                (write_loop env buffer 0 file1
                   (printf (''Just write your text data. New line by Ctrl+Enter, exit by Ctrl+C.'' @ CRLF)
                      [] w3))
            else Some (storage_cli_print_error env (storage_file_get_error file1) w3)))"

text \<open>
  The loop of \<^verbatim>\<open>storage_cli_read_chunks\<close>: \<^verbatim>\<open>file_size\<close> is a \<^verbatim>\<open>uint64_t\<close>, and each
  round waits for one console byte before it reads.
\<close>

function read_chunks_loop :: "32 word \<Rightarrow> 64 word \<Rightarrow> File \<Rightarrow> World \<Rightarrow> World option" where
  "read_chunks_loop buffer_size file_size file w =
     (if file_size > 0 then
        (case cli_getc (printf (CRLF @ ''Ready?'' @ CRLF) [] w) of
           None \<Rightarrow> None
         | Some (c, w1) \<Rightarrow>
             (case storage_file_read file (unat buffer_size) w1 of
                (data, file', w2) \<Rightarrow>
                  read_chunks_loop buffer_size (file_size - of_nat (length data)) file'
                    (put_bytes data w2)))
      else Some w)"
  by pat_completeness auto
termination
  by (relation "measure (\<lambda>(buffer_size, file_size, file, w). length (cin w))")
     (auto simp: cli_getc_def storage_file_read_def printf_def put_bytes_def emit_def Let_def
           split: list.splits)

declare read_chunks_loop.simps [simp del]

definition storage_cli_read_chunks :: "Env \<Rightarrow> string \<Rightarrow> string \<Rightarrow> World \<Rightarrow> World option" where
  "storage_cli_read_chunks env path args w =
     (let w1 = furi_record_open w;
          (file, w2) = storage_file_alloc w1
      in map_option (\<lambda>w'. furi_record_close (storage_file_free (storage_file_close w')))
           (case sscanf_lu env args of
              None \<Rightarrow> Some (storage_cli_print_usage w2)
            | Some buffer_size \<Rightarrow>
                (case storage_file_open env file path FSAM_READ FSOM_OPEN_EXISTING w2 of
                   (ok, file1, w3) \<Rightarrow>
                     if ok then
                       (let (file_size, w4) = storage_file_size file1 w3;
                            w5 = printf (''Size: %llu'' @ CRLF) [ArgU64 file_size] w4
                        in map_option (printf CRLF [])
                             (if buffer_size \<noteq> 0
                              then read_chunks_loop buffer_size file_size file1 w5
                              else Some w5))
                     else Some (storage_cli_print_error env (storage_file_get_error file1) w3))))"

definition storage_cli_write_chunk :: "Env \<Rightarrow> string \<Rightarrow> string \<Rightarrow> World \<Rightarrow> World option" where
  "storage_cli_write_chunk env path args w =
     (let w1 = furi_record_open w;
          (file, w2) = storage_file_alloc w1
      in map_option (\<lambda>w'. furi_record_close (storage_file_free w'))
           (case sscanf_lu env args of
              None \<Rightarrow> Some (storage_cli_print_usage w2)
            | Some buffer_size \<Rightarrow>
                map_option storage_file_close
                  (case storage_file_open env file path FSAM_WRITE FSOM_OPEN_APPEND w2 of
                     (ok, file1, w3) \<Rightarrow>
                       if ok then
                         (let w4 = printf (''Ready'' @ CRLF) [] w3
                          in if buffer_size \<noteq> 0 then
                               (case cli_read (unat buffer_size) w4 of
                                  None \<Rightarrow> None
                                | Some (buffer, w5) \<Rightarrow>
                                    (case storage_file_write env file1 buffer w5 of
                                       (written_size, file2, w6) \<Rightarrow>
                                         Some (if written_size \<noteq> unat buffer_size
                                               then storage_cli_print_error env
                                                      (storage_file_get_error file2) w6
                                               else w6)))
                             else Some w4)
                       else Some (storage_cli_print_error env (storage_file_get_error file1) w3))))"

definition storage_cli_stat :: "Env \<Rightarrow> string \<Rightarrow> World \<Rightarrow> World" where
  "storage_cli_stat env path w =
     (let w1 = furi_record_open w;
          w2 =
            (if path = ''/'' then printf (''Storage'' @ CRLF) [] w1
             else if path = STORAGE_EXT_PATH_PREFIX \<or> path = STORAGE_INT_PATH_PREFIX \<or>
                     path = STORAGE_ANY_PATH_PREFIX then
               (case resp_fs_info env path of
                  (error, total_space, free_space) \<Rightarrow>
                    (let w' = emit (CommonFsInfo path) w1
                     in if error \<noteq> FSE_OK then storage_cli_print_error env error w'
                        else printf (''Storage, %luKiB total, %luKiB free'' @ CRLF)
                               [ArgU32 (ucast (total_space div 1024)),
                                ArgU32 (ucast (free_space div 1024))] w'))
             else
               (case resp_stat env path of
                  (error, fileinfo) \<Rightarrow>
                    (let w' = emit (CommonStat path) w1
                     in if error = FSE_OK then
                          (if is_dir fileinfo then printf (''Directory'' @ CRLF) [] w'
                           else printf (''File, size: %lub'' @ CRLF)
                                  [ArgU32 (ucast (size fileinfo))] w')
                        else storage_cli_print_error env error w')))
      in furi_record_close w2)"

definition storage_cli_timestamp :: "Env \<Rightarrow> string \<Rightarrow> World \<Rightarrow> World" where
  "storage_cli_timestamp env path w =
     (let w1 = furi_record_open w;
          (error, timestamp) = resp_timestamp env path;
          w2 = emit (CommonTimestamp path) w1;
          w3 = (if error \<noteq> FSE_OK then printf (''Invalid arguments'' @ CRLF) [] w2
                else printf (''Timestamp %lu'' @ CRLF) [ArgU32 timestamp] w2)
      in furi_record_close w3)"

definition storage_cli_copy :: "Env \<Rightarrow> string \<Rightarrow> string \<Rightarrow> World \<Rightarrow> World" where
  "storage_cli_copy env old_path args w =
     (let w1 = furi_record_open w;
          w2 =
            (case args_read_probably_quoted_string_and_trim env args of
               None \<Rightarrow> storage_cli_print_usage w1
             | Some (new_path, rest) \<Rightarrow>
                 (let error = resp_copy env old_path new_path;
                      w' = emit (CommonCopy old_path new_path) w1
                  in if error \<noteq> FSE_OK then storage_cli_print_error env error w' else w'))
      in furi_record_close w2)"

definition storage_cli_remove :: "Env \<Rightarrow> string \<Rightarrow> World \<Rightarrow> World" where
  "storage_cli_remove env path w =
     (let w1 = furi_record_open w;
          error = resp_remove env path;
          w2 = emit (CommonRemove path) w1;
          w3 = (if error \<noteq> FSE_OK then storage_cli_print_error env error w2 else w2)
      in furi_record_close w3)"

definition storage_cli_rename :: "Env \<Rightarrow> string \<Rightarrow> string \<Rightarrow> World \<Rightarrow> World" where
  "storage_cli_rename env old_path args w =
     (let w1 = furi_record_open w;
          w2 =
            (case args_read_probably_quoted_string_and_trim env args of
               None \<Rightarrow> storage_cli_print_usage w1
             | Some (new_path, rest) \<Rightarrow>
                 (let error = resp_rename env old_path new_path;
                      w' = emit (CommonRename old_path new_path) w1
                  in if error \<noteq> FSE_OK then storage_cli_print_error env error w' else w'))
      in furi_record_close w2)"

definition storage_cli_migrate :: "Env \<Rightarrow> string \<Rightarrow> string \<Rightarrow> World \<Rightarrow> World" where
  "storage_cli_migrate env old_path args w =
     (let w1 = furi_record_open w;
          w2 =
            (case args_read_probably_quoted_string_and_trim env args of
               None \<Rightarrow> storage_cli_print_usage w1
             | Some (new_path, rest) \<Rightarrow>
                 (let error = resp_migrate env old_path new_path;
                      w' = emit (CommonMigrate old_path new_path) w1
                  in if error \<noteq> FSE_OK then storage_cli_print_error env error w' else w'))
      in furi_record_close w2)"

definition storage_cli_mkdir :: "Env \<Rightarrow> string \<Rightarrow> World \<Rightarrow> World" where
  "storage_cli_mkdir env path w =
     (let w1 = furi_record_open w;
          error = resp_mkdir env path;
          w2 = emit (CommonMkdir path) w1;
          w3 = (if error \<noteq> FSE_OK then storage_cli_print_error env error w2 else w2)
      in furi_record_close w3)"

text \<open>
  \<^verbatim>\<open>md5_string_calc_file\<close> is handed the allocated handle and the path, and answers
  with the digest or with the error of the file.
\<close>

definition storage_cli_md5 :: "Env \<Rightarrow> string \<Rightarrow> World \<Rightarrow> World" where
  "storage_cli_md5 env path w =
     (let w1 = furi_record_open w;
          (file, w2) = storage_file_alloc w1;
          w3 =
            (case resp_md5 env path of
               Inr md5 \<Rightarrow> printf (''%s'' @ CRLF) [ArgStr md5] (emit (Md5Calc path True) w2)
             | Inl file_error \<Rightarrow>
                 storage_cli_print_error env file_error (emit (Md5Calc path False) w2))
      in furi_record_close (storage_file_free (storage_file_close w3)))"

section \<open>The dispatcher\<close>

definition storage_cli :: "Env \<Rightarrow> string \<Rightarrow> World \<Rightarrow> World option" where
  "storage_cli env args w =
     (case args_read_string_and_trim env args of
        None \<Rightarrow> Some (storage_cli_print_usage w)
      | Some (cmd, args1) \<Rightarrow>
          (case args_read_probably_quoted_string_and_trim env args1 of
             None \<Rightarrow> Some (storage_cli_print_usage w)
           | Some (path, args2) \<Rightarrow>
               if cmd = ''info'' then Some (storage_cli_info env path w)
               else if cmd = ''format'' then storage_cli_format env path w
               else if cmd = ''list'' then Some (storage_cli_list env path w)
               else if cmd = ''tree'' then Some (storage_cli_tree env path w)
               else if cmd = ''read'' then Some (storage_cli_read env path w)
               else if cmd = ''read_chunks'' then storage_cli_read_chunks env path args2 w
               else if cmd = ''write'' then storage_cli_write env path w
               else if cmd = ''write_chunk'' then storage_cli_write_chunk env path args2 w
               else if cmd = ''copy'' then Some (storage_cli_copy env path args2 w)
               else if cmd = ''remove'' then Some (storage_cli_remove env path w)
               else if cmd = ''rename'' then Some (storage_cli_rename env path args2 w)
               else if cmd = ''migrate'' then Some (storage_cli_migrate env path args2 w)
               else if cmd = ''mkdir'' then Some (storage_cli_mkdir env path w)
               else if cmd = ''md5'' then Some (storage_cli_md5 env path w)
               else if cmd = ''stat'' then Some (storage_cli_stat env path w)
               else if cmd = ''timestamp'' then Some (storage_cli_timestamp env path w)
               else Some (storage_cli_print_usage w)))"

text \<open>
  \<^verbatim>\<open>furi_hal_rtc_set_flag(FuriHalRtcFlagFactoryReset)\<close> and
  \<^verbatim>\<open>power_reboot(PowerBootModeNormal)\<close>, recorded as calls. The device restarts inside
  \<^verbatim>\<open>power_reboot\<close>; the handler has nothing left to do after it.
\<close>

definition furi_hal_rtc_set_flag_factory_reset :: "World \<Rightarrow> World" where
  "furi_hal_rtc_set_flag_factory_reset w = emit RtcSetFlagFactoryReset w"

definition power_reboot :: "World \<Rightarrow> World" where
  "power_reboot w = emit PowerReboot w"

definition storage_cli_factory_reset :: "World \<Rightarrow> World option" where
  "storage_cli_factory_reset w =
     (case cli_getc (printf (''All data will be lost! Are you sure (y/n)?'' @ CRLF) [] w) of
        None \<Rightarrow> None
      | Some (c, w1) \<Rightarrow>
          if c = of_char (CHR ''y'') \<or> c = of_char (CHR ''Y'') then
            Some (power_reboot
                   (furi_hal_rtc_set_flag_factory_reset
                     (printf (''Data will be wiped after reboot.'' @ CRLF) [] w1)))
          else Some (printf (''Safe choice.'' @ CRLF) [] w1))"

section \<open>Reference notions used by the claims\<close>

text \<open>
  The dispatch table as the specification words it: the recognised verbs in table order,
  each with the handler it stands for; the first entry whose verb matches wins.
\<close>

definition verb_table ::
  "(string \<times> (Env \<Rightarrow> string \<Rightarrow> string \<Rightarrow> World \<Rightarrow> World option)) list" where
  "verb_table =
    [ (''info'', \<lambda>env path args w. Some (storage_cli_info env path w)),
      (''format'', \<lambda>env path args w. storage_cli_format env path w),
      (''list'', \<lambda>env path args w. Some (storage_cli_list env path w)),
      (''tree'', \<lambda>env path args w. Some (storage_cli_tree env path w)),
      (''read'', \<lambda>env path args w. Some (storage_cli_read env path w)),
      (''read_chunks'', \<lambda>env path args w. storage_cli_read_chunks env path args w),
      (''write'', \<lambda>env path args w. storage_cli_write env path w),
      (''write_chunk'', \<lambda>env path args w. storage_cli_write_chunk env path args w),
      (''copy'', \<lambda>env path args w. Some (storage_cli_copy env path args w)),
      (''remove'', \<lambda>env path args w. Some (storage_cli_remove env path w)),
      (''rename'', \<lambda>env path args w. Some (storage_cli_rename env path args w)),
      (''migrate'', \<lambda>env path args w. Some (storage_cli_migrate env path args w)),
      (''mkdir'', \<lambda>env path args w. Some (storage_cli_mkdir env path w)),
      (''md5'', \<lambda>env path args w. Some (storage_cli_md5 env path w)),
      (''stat'', \<lambda>env path args w. Some (storage_cli_stat env path w)),
      (''timestamp'', \<lambda>env path args w. Some (storage_cli_timestamp env path w)) ]"

definition first_match ::
  "string \<Rightarrow> (Env \<Rightarrow> string \<Rightarrow> string \<Rightarrow> World \<Rightarrow> World option) option" where
  "first_match cmd = map_option snd (find (\<lambda>entry. cmd = fst entry) verb_table)"

text \<open>The line a handler prints for a storage error code.\<close>

definition error_line :: "Env \<Rightarrow> FS_Error \<Rightarrow> event" where
  "error_line env e = Printf (''Storage error: %s'' @ CRLF) [ArgStr (storage_error_get_desc env e)]"

text \<open>
  What a handler holds while it runs: the storage record, an allocated file handle, whether
  that handle is open, and an allocated directory walker. \<open>track\<close> follows one call and
  refuses (\<open>None\<close>) a call that breaks the discipline: a handle is allocated and a walker
  is allocated only under the open record; a handle is opened only when allocated and not
  already open (the digest helper is handed the handle and may leave it open); a handle
  is freed only when it is not open; the record is closed only when no handle and no
  walker is allocated. The walker has no close call of its own in the source:
  \<^verbatim>\<open>dir_walk_free\<close> is the one call that releases it.
\<close>

record handles =
  rec_open :: bool
  file_alloc :: bool
  file_opened :: bool
  walker_alloc :: bool

fun track :: "handles \<Rightarrow> event \<Rightarrow> handles option" where
  "track h RecordOpen = (if rec_open h then None else Some (h\<lparr>rec_open := True\<rparr>))"
| "track h RecordClose =
     (if rec_open h \<and> \<not> file_alloc h \<and> \<not> walker_alloc h
      then Some (h\<lparr>rec_open := False\<rparr>) else None)"
| "track h FileAlloc =
     (if rec_open h \<and> \<not> file_alloc h then Some (h\<lparr>file_alloc := True\<rparr>) else None)"
| "track h (FileOpen p am om ok) =
     (if file_alloc h \<and> \<not> file_opened h then Some (h\<lparr>file_opened := ok\<rparr>) else None)"
| "track h (DirOpen p ok) =
     (if file_alloc h \<and> \<not> file_opened h then Some (h\<lparr>file_opened := ok\<rparr>) else None)"
| "track h (Md5Calc p ok) =
     (if file_alloc h \<and> \<not> file_opened h then Some (h\<lparr>file_opened := True\<rparr>) else None)"
| "track h FileClose = (if file_alloc h then Some (h\<lparr>file_opened := False\<rparr>) else None)"
| "track h DirClose = (if file_alloc h then Some (h\<lparr>file_opened := False\<rparr>) else None)"
| "track h FileFree =
     (if file_alloc h \<and> \<not> file_opened h then Some (h\<lparr>file_alloc := False\<rparr>) else None)"
| "track h DirWalkAlloc =
     (if rec_open h \<and> \<not> walker_alloc h then Some (h\<lparr>walker_alloc := True\<rparr>) else None)"
| "track h DirWalkFree =
     (if walker_alloc h then Some (h\<lparr>walker_alloc := False\<rparr>) else None)"
| "track h e = Some h"

fun track_all :: "handles \<Rightarrow> event list \<Rightarrow> handles option" where
  "track_all h [] = Some h"
| "track_all h (e # es) = (case track h e of None \<Rightarrow> None | Some h' \<Rightarrow> track_all h' es)"

definition no_handles :: handles where
  "no_handles = \<lparr>rec_open = False, file_alloc = False, file_opened = False, walker_alloc = False\<rparr>"

text \<open>The calls of a handler respect the discipline and leave nothing held.\<close>

definition released :: "event list \<Rightarrow> bool" where
  "released es = (track_all no_handles es = Some no_handles)"

text \<open>The calls that neither acquire nor release anything.\<close>

fun quiet :: "event \<Rightarrow> bool" where
  "quiet (Printf fmt as) = True"
| "quiet (Putchar b) = True"
| "quiet Fflush = True"
| "quiet (Getc b) = True"
| "quiet (CliRead n bs) = True"
| "quiet FileSize = True"
| "quiet (FileRead n bs) = True"
| "quiet (FileWrite bs n) = True"
| "quiet (DirRead ok) = True"
| "quiet (DirWalkOpen p ok) = True"
| "quiet (DirWalkRead ok) = True"
| "quiet (CommonFsInfo p) = True"
| "quiet SdInfo = True"
| "quiet SdFormat = True"
| "quiet (CommonStat p) = True"
| "quiet (CommonTimestamp p) = True"
| "quiet (CommonCopy p q) = True"
| "quiet (CommonRemove p) = True"
| "quiet (CommonRename p q) = True"
| "quiet (CommonMigrate p q) = True"
| "quiet (CommonMkdir p) = True"
| "quiet RtcSetFlagFactoryReset = True"
| "quiet PowerReboot = True"
| "quiet e = False"

text \<open>
  The chunks of the specification: a content cut into pieces of the requested size, the
  last one shorter when the size does not divide the length; no piece for size zero.
\<close>

function chunks :: "nat \<Rightarrow> 'a list \<Rightarrow> 'a list list" where
  "chunks n xs = (if n = 0 \<or> xs = [] then [] else take n xs # chunks n (drop n xs))"
  by pat_completeness auto
termination
  by (relation "measure (\<lambda>(n, xs). length xs)") auto

declare chunks.simps [simp del]

text \<open>The calls of one handshake-gated read: the prompt, the byte consumed, the read, the bytes put.\<close>

definition chunk_events :: "nat \<Rightarrow> byte \<Rightarrow> byte list \<Rightarrow> event list" where
  "chunk_events n a c =
     [Printf (CRLF @ ''Ready?'' @ CRLF) [], Getc a, FileRead n c] @ map Putchar c"

text \<open>A concrete environment and world, for evaluating the handlers.\<close>

definition sample_token :: "string \<Rightarrow> (string \<times> string) option" where
  "sample_token s =
     (if takeWhile (\<lambda>c. c \<noteq> CHR '' '') s = [] then None
      else Some (takeWhile (\<lambda>c. c \<noteq> CHR '' '') s,
                 dropWhile (\<lambda>c. c = CHR '' '') (dropWhile (\<lambda>c. c \<noteq> CHR '' '') s)))"

definition sample_sd :: SDInfo where
  "sample_sd =
     \<lparr>label = ''CARD'', fs_type = 0, kb_total = 2048, kb_free = 1024, manufacturer_id = 1,
      oem_id = ''AB'', product_name = ''SD'', product_revision_major = 1,
      product_revision_minor = 0, product_serial_number = 7, manufacturing_month = 1,
      manufacturing_year = 2020\<rparr>"

definition sample_env :: Env where
  "sample_env =
     \<lparr>sscanf_lu = (\<lambda>s. if s = ''2'' then Some 2 else if s = ''4'' then Some 4
                        else if s = ''0'' then Some 0 else None),
      args_read_string_and_trim = sample_token,
      args_read_probably_quoted_string_and_trim = sample_token,
      storage_error_get_desc = (\<lambda>e. if e = FSE_OK then ''OK'' else ''failure''),
      furi_hal_version_get_name_ptr = None,
      sd_api_get_fs_type_text = (\<lambda>t. ''FAT32''),
      open_fault = (\<lambda>p. if p = ''/ext/denied'' then FSE_DENIED else FSE_OK),
      short_write_error = FSE_INTERNAL,
      resp_fs_info = (\<lambda>p. if p = ''/int'' then (FSE_INTERNAL, 0, 0) else (FSE_OK, 4096, 2048)),
      resp_sd_info = (FSE_INTERNAL, sample_sd),
      resp_sd_format = FSE_INTERNAL,
      resp_dir = (\<lambda>p. if p = ''/ext/empty'' then Inr [] else Inl FSE_NOT_EXIST),
      resp_dir_walk = (\<lambda>p. if p = ''/ext/empty'' then Inr []
                             else if p = ''/ext''
                               then Inr [(''a'', \<lparr>is_dir = False, size = 5\<rparr>),
                                         (''d'', \<lparr>is_dir = True, size = 0\<rparr>)]
                             else Inl FSE_NOT_EXIST),
      resp_stat = (\<lambda>p. (FSE_NOT_EXIST, \<lparr>is_dir = False, size = 0\<rparr>)),
      resp_timestamp = (\<lambda>p. (FSE_NOT_EXIST, 0)),
      resp_copy = (\<lambda>p q. FSE_NOT_EXIST),
      resp_remove = (\<lambda>p. FSE_NOT_EXIST),
      resp_rename = (\<lambda>p q. FSE_NOT_EXIST),
      resp_migrate = (\<lambda>p q. FSE_NOT_EXIST),
      resp_mkdir = (\<lambda>p. FSE_EXIST),
      resp_md5 = (\<lambda>p. Inl FSE_NOT_EXIST)\<rparr>"

definition sample_world :: "byte list \<Rightarrow> World" where
  "sample_world input =
     \<lparr>cin = input, files = [''/ext/a'' \<mapsto> [1, 2, 3, 4, 5]], room = 1024, trace = []\<rparr>"

text \<open>The calls a handler added to the trace of the world it started from.\<close>

definition new_events :: "World \<Rightarrow> World \<Rightarrow> event list" where
  "new_events w w' = drop (length (trace w)) (trace w')"

section \<open>Basic facts about the primitives\<close>

lemma emit_simps:
  "trace (emit e w) = trace w @ [e]"
  "cin (emit e w) = cin w"
  "files (emit e w) = files w"
  "room (emit e w) = room w"
  by (simp_all add: emit_def)

lemma printf_simps:
  "trace (printf fmt as w) = trace w @ [Printf fmt as]"
  "cin (printf fmt as w) = cin w"
  "files (printf fmt as w) = files w"
  "room (printf fmt as w) = room w"
  by (simp_all add: printf_def emit_def)

lemma print_error_simps:
  "trace (storage_cli_print_error env e w) =
     trace w @ [Printf (''Storage error: %s'' @ CRLF) [ArgStr (storage_error_get_desc env e)]]"
  "cin (storage_cli_print_error env e w) = cin w"
  "files (storage_cli_print_error env e w) = files w"
  "room (storage_cli_print_error env e w) = room w"
  by (simp_all add: storage_cli_print_error_def printf_simps)

lemma print_usage_simps:
  "trace (storage_cli_print_usage w) = trace w @ usage_events"
  "cin (storage_cli_print_usage w) = cin w"
  "files (storage_cli_print_usage w) = files w"
  "room (storage_cli_print_usage w) = room w"
  by (simp_all add: storage_cli_print_usage_def)

lemma cli_getc_Cons:
  "cin w = c # cs \<Longrightarrow> cli_getc w = Some (c, emit (Getc c) (w\<lparr>cin := cs\<rparr>))"
  by (simp add: cli_getc_def)

lemma cli_getc_Nil: "cin w = [] \<Longrightarrow> cli_getc w = None"
  by (simp add: cli_getc_def)

lemma cli_getc_Some:
  "cli_getc w = Some (c, w') \<Longrightarrow> cin w = c # cin w' \<and> w' = emit (Getc c) (w\<lparr>cin := cin w'\<rparr>)"
  by (auto simp: cli_getc_def emit_def split: list.splits)

lemma new_events_append: "trace w' = trace w @ xs \<Longrightarrow> new_events w w' = xs"
  by (simp add: new_events_def)

lemma record_simps:
  "trace (furi_record_open w) = trace w @ [RecordOpen]"
  "trace (furi_record_close w) = trace w @ [RecordClose]"
  "trace (storage_file_close w) = trace w @ [FileClose]"
  "trace (storage_file_free w) = trace w @ [FileFree]"
  by (simp_all add: furi_record_open_def furi_record_close_def storage_file_close_def
      storage_file_free_def emit_simps)

lemma usage_events_printf: "e \<in> set usage_events \<Longrightarrow> \<exists>s. e = Printf s []"
  by (auto simp: usage_events_def)

lemma alloc_simps:
  "storage_file_alloc w = (file, w') \<Longrightarrow> w' = emit FileAlloc w"
  by (auto simp: storage_file_alloc_def)

lemma first_match_none: "first_match cmd = None \<longleftrightarrow> cmd \<notin> set (map fst verb_table)"
  by (force simp: first_match_def find_None_iff)

lemma dispatch_eq:
  "args_read_string_and_trim env args = Some (cmd, args1) \<Longrightarrow>
   args_read_probably_quoted_string_and_trim env args1 = Some (path, args2) \<Longrightarrow>
   storage_cli env args w =
     (case first_match cmd of None \<Rightarrow> Some (storage_cli_print_usage w)
      | Some h \<Rightarrow> h env path args2 w)"
  by (simp add: storage_cli_def first_match_def verb_table_def)

lemma print_entry_trace:
  "\<exists>e. \<forall>w. trace (print_entry name fileinfo w) = trace w @ [e]"
  by (cases "is_dir fileinfo") (auto simp: print_entry_def printf_simps)

lemma tree_loop_trace:
  "\<exists>evs. \<forall>w. trace (tree_loop es w) = trace w @ evs"
proof (induction es)
  case Nil
  show ?case by (simp add: emit_simps)
next
  case (Cons x es)
  obtain name fileinfo where x: "x = (name, fileinfo)" by (cases x)
  from Cons obtain evs where evs: "\<forall>w. trace (tree_loop es w) = trace w @ evs" by blast
  obtain e where e: "\<forall>w. trace (print_entry name fileinfo w) = trace w @ [e]"
    using print_entry_trace by blast
  have "\<forall>w. trace (tree_loop (x # es) w) = trace w @ ([DirWalkRead True, e] @ evs)"
    by (simp add: x evs e emit_simps)
  then show ?case by blast
qed

lemma tree_unfold:
  "path \<noteq> ''/'' \<Longrightarrow>
   storage_cli_tree env path w =
     (let w1 = furi_record_open w;
          w2 = emit DirWalkAlloc w1;
          w3 =
            (case resp_dir_walk env path of
               Inr entries \<Rightarrow>
                 (let w' = tree_loop entries (emit (DirWalkOpen path True) w2)
                  in if entries = [] then printf (TAB @ ''Empty'' @ CRLF) [] w' else w')
             | Inl e \<Rightarrow> storage_cli_print_error env e (emit (DirWalkOpen path False) w2))
      in furi_record_close (emit DirWalkFree w3))"
  by (subst storage_cli_tree.simps) simp

lemma tree_root:
  "storage_cli_tree env ''/'' w =
     storage_cli_tree env STORAGE_EXT_PATH_PREFIX (storage_cli_tree env STORAGE_INT_PATH_PREFIX w)"
  by (subst storage_cli_tree.simps) simp

lemma tree_trace:
  assumes "path \<noteq> ''/''"
  shows "\<exists>evs. \<forall>w. trace (storage_cli_tree env path w) = trace w @ evs"
proof (cases "resp_dir_walk env path")
  case (Inl e)
  have "\<forall>w. trace (storage_cli_tree env path w) =
          trace w @ [RecordOpen, DirWalkAlloc, DirWalkOpen path False, error_line env e,
                     DirWalkFree, RecordClose]"
    using assms Inl
    by (simp add: tree_unfold record_simps emit_simps print_error_simps error_line_def)
  then show ?thesis by blast
next
  case (Inr entries)
  show ?thesis
  proof (cases "entries = []")
    case True
    have "\<forall>w. trace (storage_cli_tree env path w) =
          trace w @ [RecordOpen, DirWalkAlloc, DirWalkOpen path True, DirWalkRead False,
                     Printf (TAB @ ''Empty'' @ CRLF) [], DirWalkFree, RecordClose]"
      using assms Inr True
      by (simp add: tree_unfold record_simps emit_simps printf_simps Let_def)
    then show ?thesis by blast
  next
    case False
    obtain evs where evs: "\<forall>w. trace (tree_loop entries w) = trace w @ evs"
      using tree_loop_trace by blast
    have "\<forall>w. trace (storage_cli_tree env path w) =
          trace w @ ([RecordOpen, DirWalkAlloc, DirWalkOpen path True] @ evs
                     @ [DirWalkFree, RecordClose])"
      using assms Inr False
      by (simp add: tree_unfold record_simps emit_simps evs Let_def)
    then show ?thesis by blast
  qed
qed

section \<open>Error paths of the handlers\<close>

lemmas prim_traces = record_simps emit_simps printf_simps print_error_simps print_usage_simps

lemma open_fault_fails:
  "open_fault env path = e \<Longrightarrow> e \<noteq> FSE_OK \<Longrightarrow>
   storage_file_open env file path am om w =
     (False, file\<lparr>error_id := e\<rparr>, emit (FileOpen path am om False) w)"
  by (simp add: storage_file_open_def)

lemma info_int_error:
  "resp_fs_info env STORAGE_INT_PATH_PREFIX = (e, t, f) \<Longrightarrow> e \<noteq> FSE_OK \<Longrightarrow>
   new_events w (storage_cli_info env STORAGE_INT_PATH_PREFIX w) =
     [RecordOpen, CommonFsInfo STORAGE_INT_PATH_PREFIX, error_line env e, RecordClose]"
  by (intro new_events_append) (simp add: storage_cli_info_def prim_traces error_line_def)

lemma info_ext_error:
  "resp_sd_info env = (e, sd) \<Longrightarrow> e \<noteq> FSE_OK \<Longrightarrow>
   new_events w (storage_cli_info env STORAGE_EXT_PATH_PREFIX w) =
     [RecordOpen, SdInfo, error_line env e, RecordClose]"
  by (intro new_events_append)
     (simp add: storage_cli_info_def prim_traces error_line_def
        STORAGE_INT_PATH_PREFIX_def STORAGE_EXT_PATH_PREFIX_def)

lemma format_error:
  "cin w = c # cs \<Longrightarrow> c = of_char (CHR ''y'') \<or> c = of_char (CHR ''Y'') \<Longrightarrow>
   resp_sd_format env = e \<Longrightarrow> e \<noteq> FSE_OK \<Longrightarrow>
   \<exists>w'. storage_cli_format env STORAGE_EXT_PATH_PREFIX w = Some w' \<and>
     new_events w w' =
       [Printf (''Formatting SD card, All data will be lost! Are you sure (y/n)?'' @ CRLF) [],
        Getc c, RecordOpen, Printf (''Formatting, please wait...'' @ CRLF) [], SdFormat,
        error_line env e, RecordClose]"
  by (auto simp: storage_cli_format_def furi_record_open_def furi_record_close_def cli_getc_def new_events_def prim_traces error_line_def
        Let_def STORAGE_INT_PATH_PREFIX_def STORAGE_EXT_PATH_PREFIX_def)

lemma list_error:
  "path \<noteq> ''/'' \<Longrightarrow> resp_dir env path = Inl e \<Longrightarrow>
   new_events w (storage_cli_list env path w) =
     [RecordOpen, FileAlloc, DirOpen path False, error_line env e, DirClose, FileFree, RecordClose]"
  by (intro new_events_append)
     (simp add: storage_cli_list_def storage_file_alloc_def storage_file_get_error_def
        prim_traces error_line_def)

lemma tree_error:
  "path \<noteq> ''/'' \<Longrightarrow> resp_dir_walk env path = Inl e \<Longrightarrow>
   new_events w (storage_cli_tree env path w) =
     [RecordOpen, DirWalkAlloc, DirWalkOpen path False, error_line env e, DirWalkFree, RecordClose]"
  by (intro new_events_append) (simp add: tree_unfold prim_traces error_line_def)

lemma read_error:
  "open_fault env path = e \<Longrightarrow> e \<noteq> FSE_OK \<Longrightarrow>
   new_events w (storage_cli_read env path w) =
     [RecordOpen, FileAlloc, FileOpen path FSAM_READ FSOM_OPEN_EXISTING False, error_line env e,
      FileClose, FileFree, RecordClose]"
  by (intro new_events_append)
     (simp add: storage_cli_read_def storage_file_alloc_def open_fault_fails
        storage_file_get_error_def prim_traces error_line_def)

lemma write_error:
  "open_fault env path = e \<Longrightarrow> e \<noteq> FSE_OK \<Longrightarrow>
   \<exists>w'. storage_cli_write env path w = Some w' \<and>
     new_events w w' =
       [RecordOpen, FileAlloc, FileOpen path FSAM_WRITE FSOM_OPEN_APPEND False, error_line env e,
        FileClose, FileFree, RecordClose]"
  by (simp add: storage_cli_write_def storage_file_alloc_def open_fault_fails new_events_def
        storage_file_get_error_def prim_traces error_line_def)

lemma read_chunks_error:
  "sscanf_lu env args = Some n \<Longrightarrow> open_fault env path = e \<Longrightarrow> e \<noteq> FSE_OK \<Longrightarrow>
   \<exists>w'. storage_cli_read_chunks env path args w = Some w' \<and>
     new_events w w' =
       [RecordOpen, FileAlloc, FileOpen path FSAM_READ FSOM_OPEN_EXISTING False, error_line env e,
        FileClose, FileFree, RecordClose]"
  by (simp add: storage_cli_read_chunks_def storage_file_alloc_def open_fault_fails new_events_def
        storage_file_get_error_def prim_traces error_line_def)

lemma write_chunk_error:
  "sscanf_lu env args = Some n \<Longrightarrow> open_fault env path = e \<Longrightarrow> e \<noteq> FSE_OK \<Longrightarrow>
   \<exists>w'. storage_cli_write_chunk env path args w = Some w' \<and>
     new_events w w' =
       [RecordOpen, FileAlloc, FileOpen path FSAM_WRITE FSOM_OPEN_APPEND False, error_line env e,
        FileClose, FileFree, RecordClose]"
  by (simp add: storage_cli_write_chunk_def storage_file_alloc_def open_fault_fails new_events_def
        storage_file_get_error_def prim_traces error_line_def)

lemma stat_volume_error:
  "path = STORAGE_EXT_PATH_PREFIX \<or> path = STORAGE_INT_PATH_PREFIX \<or> path = STORAGE_ANY_PATH_PREFIX \<Longrightarrow>
   resp_fs_info env path = (e, t, f) \<Longrightarrow> e \<noteq> FSE_OK \<Longrightarrow>
   new_events w (storage_cli_stat env path w) =
     [RecordOpen, CommonFsInfo path, error_line env e, RecordClose]"
  by (intro new_events_append)
     (auto simp: storage_cli_stat_def prim_traces error_line_def
        STORAGE_INT_PATH_PREFIX_def STORAGE_EXT_PATH_PREFIX_def STORAGE_ANY_PATH_PREFIX_def)

lemma stat_path_error:
  "path \<noteq> ''/'' \<Longrightarrow> path \<noteq> STORAGE_EXT_PATH_PREFIX \<Longrightarrow> path \<noteq> STORAGE_INT_PATH_PREFIX \<Longrightarrow>
   path \<noteq> STORAGE_ANY_PATH_PREFIX \<Longrightarrow>
   resp_stat env path = (e, fileinfo) \<Longrightarrow> e \<noteq> FSE_OK \<Longrightarrow>
   new_events w (storage_cli_stat env path w) =
     [RecordOpen, CommonStat path, error_line env e, RecordClose]"
  by (intro new_events_append) (simp add: storage_cli_stat_def prim_traces error_line_def)

lemma copy_error:
  "args_read_probably_quoted_string_and_trim env args = Some (new_path, rest) \<Longrightarrow>
   resp_copy env old_path new_path = e \<Longrightarrow> e \<noteq> FSE_OK \<Longrightarrow>
   new_events w (storage_cli_copy env old_path args w) =
     [RecordOpen, CommonCopy old_path new_path, error_line env e, RecordClose]"
  by (intro new_events_append) (simp add: storage_cli_copy_def prim_traces error_line_def)

lemma rename_error:
  "args_read_probably_quoted_string_and_trim env args = Some (new_path, rest) \<Longrightarrow>
   resp_rename env old_path new_path = e \<Longrightarrow> e \<noteq> FSE_OK \<Longrightarrow>
   new_events w (storage_cli_rename env old_path args w) =
     [RecordOpen, CommonRename old_path new_path, error_line env e, RecordClose]"
  by (intro new_events_append) (simp add: storage_cli_rename_def prim_traces error_line_def)

lemma migrate_error:
  "args_read_probably_quoted_string_and_trim env args = Some (new_path, rest) \<Longrightarrow>
   resp_migrate env old_path new_path = e \<Longrightarrow> e \<noteq> FSE_OK \<Longrightarrow>
   new_events w (storage_cli_migrate env old_path args w) =
     [RecordOpen, CommonMigrate old_path new_path, error_line env e, RecordClose]"
  by (intro new_events_append) (simp add: storage_cli_migrate_def prim_traces error_line_def)

lemma remove_error:
  "resp_remove env path = e \<Longrightarrow> e \<noteq> FSE_OK \<Longrightarrow>
   new_events w (storage_cli_remove env path w) =
     [RecordOpen, CommonRemove path, error_line env e, RecordClose]"
  by (intro new_events_append) (simp add: storage_cli_remove_def prim_traces error_line_def)

lemma mkdir_error:
  "resp_mkdir env path = e \<Longrightarrow> e \<noteq> FSE_OK \<Longrightarrow>
   new_events w (storage_cli_mkdir env path w) =
     [RecordOpen, CommonMkdir path, error_line env e, RecordClose]"
  by (intro new_events_append) (simp add: storage_cli_mkdir_def prim_traces error_line_def)

lemma md5_error:
  "resp_md5 env path = Inl e \<Longrightarrow>
   new_events w (storage_cli_md5 env path w) =
     [RecordOpen, FileAlloc, Md5Calc path False, error_line env e, FileClose, FileFree, RecordClose]"
  by (intro new_events_append)
     (simp add: storage_cli_md5_def storage_file_alloc_def prim_traces error_line_def)

lemma timestamp_error:
  "resp_timestamp env path = (e, ts) \<Longrightarrow> e \<noteq> FSE_OK \<Longrightarrow>
   new_events w (storage_cli_timestamp env path w) =
     [RecordOpen, CommonTimestamp path, Printf (''Invalid arguments'' @ CRLF) [], RecordClose]"
  by (intro new_events_append) (simp add: storage_cli_timestamp_def prim_traces)

section \<open>The loop of read\_chunks\<close>

lemma chunks_zero: "chunks 0 xs = []"
  by (simp add: chunks.simps)

lemma chunks_Nil: "chunks n [] = []"
  by (simp add: chunks.simps)

lemma chunks_step:
  "0 < n \<Longrightarrow> xs \<noteq> [] \<Longrightarrow> chunks n xs = take n xs # chunks n (drop n xs)"
  by (subst chunks.simps) simp

lemma chunks_empty_iff: "0 < n \<Longrightarrow> chunks n xs = [] \<longleftrightarrow> xs = []"
  by (subst chunks.simps) simp

lemma chunks_concat: "0 < n \<Longrightarrow> concat (chunks n xs) = xs"
proof (induction n xs rule: chunks.induct)
  case (1 n xs)
  show ?case
  proof (cases "xs = []")
    case True
    then show ?thesis by (simp add: chunks_Nil)
  next
    case False
    with 1 show ?thesis by (simp add: chunks_step)
  qed
qed

lemma chunks_length: "0 < n \<Longrightarrow> length (chunks n xs) = (length xs + n - 1) div n"
proof (induction n xs rule: chunks.induct)
  case (1 n xs)
  show ?case
  proof (cases "xs = []")
    case True
    with 1(2) show ?thesis by (simp add: chunks_Nil)
  next
    case False
    with 1 have ih: "length (chunks n (drop n xs)) = (length xs - n + n - 1) div n"
      by simp
    have len: "0 < length xs" using False by simp
    show ?thesis
    proof (cases "length xs \<le> n")
      case True
      then have "drop n xs = []" by simp
      then have a: "length (chunks n xs) = 1"
        using False 1(2) by (simp add: chunks_step chunks_Nil)
      have b: "n * 1 \<le> length xs + n - 1" and c: "length xs + n - 1 < n * Suc 1"
        using True len by arith+
      have "(length xs + n - 1) div n = 1"
        by (rule div_nat_eqI [OF b c])
      with a show ?thesis by simp
    next
      case gt: False
      have e1: "length xs - n + n - 1 = length xs - 1" using gt by arith
      have e2: "length xs + n - 1 = (length xs - 1) + n" using len by arith
      have d: "(length xs + n - 1) div n = Suc ((length xs - 1) div n)"
        unfolding e2 using 1(2) by (simp add: div_add_self2)
      have l: "length (chunks n xs) = Suc (length (chunks n (drop n xs)))"
        using False 1(2) by (simp add: chunks_step)
      show ?thesis
        unfolding l d using ih [unfolded e1] by simp
    qed
  qed
qed


lemma put_bytes_simps:
  "trace (put_bytes data w) = trace w @ map Putchar data"
  "cin (put_bytes data w) = cin w"
  "files (put_bytes data w) = files w"
  "room (put_bytes data w) = room w"
  by (simp_all add: put_bytes_def)

lemma content_of_cong: "files w' = files w \<Longrightarrow> content_of w' p = content_of w p"
  by (simp add: content_of_def)

lemma word64_of_nat_pos:
  "0 < k \<Longrightarrow> k < 2 ^ 64 \<Longrightarrow> (0 :: 64 word) < of_nat k"
  by (simp add: word_gt_0 of_nat_neq_0)

lemma storage_file_read_eq:
  "drop (fpos file) (content_of w (fpath file)) = pend \<Longrightarrow>
   storage_file_read file n w =
     (take n pend, file\<lparr>fpos := fpos file + length (take n pend)\<rparr>,
      emit (FileRead n (take n pend)) w)"
  by (simp add: storage_file_read_def Let_def)

lemma read_chunks_loop_run:
  assumes n: "0 < unat n"
  shows "drop (fpos file) (content_of w (fpath file)) = pend \<Longrightarrow> length pend < 2 ^ 64 \<Longrightarrow>
     cin w = acks @ rest \<Longrightarrow> length acks = length (chunks (unat n) pend) \<Longrightarrow>
     \<exists>w'. read_chunks_loop n (of_nat (length pend)) file w = Some w'
       \<and> trace w' = trace w @ concat (map2 (chunk_events (unat n)) acks (chunks (unat n) pend))
       \<and> cin w' = rest \<and> files w' = files w \<and> room w' = room w"
proof (induction acks arbitrary: "file" w pend)
  case Nil
  then have "chunks (unat n) pend = []" by simp
  then have "pend = []" using n by (simp add: chunks_empty_iff)
  with Nil show ?case
    by (subst read_chunks_loop.simps) simp
next
  case (Cons a as)
  from Cons.prems(4) have ne: "chunks (unat n) pend \<noteq> []" by auto
  then have pne: "pend \<noteq> []" using n by (simp add: chunks_empty_iff)
  have ch: "chunks (unat n) pend = take (unat n) pend # chunks (unat n) (drop (unat n) pend)"
    using n pne by (rule chunks_step)
  let ?data = "take (unat n) pend"
  let ?w1 = "emit (Getc a) ((printf (CRLF @ ''Ready?'' @ CRLF) [] w)\<lparr>cin := as @ rest\<rparr>)"
  let ?file' = "file\<lparr>fpos := fpos file + length ?data\<rparr>"
  let ?w3 = "put_bytes ?data (emit (FileRead (unat n) ?data) ?w1)"
  have pos: "(0 :: 64 word) < of_nat (length pend)"
    using pne Cons.prems(2) by (intro word64_of_nat_pos) simp_all
  have g: "cli_getc (printf (CRLF @ ''Ready?'' @ CRLF) [] w) = Some (a, ?w1)"
    using Cons.prems(3) by (simp add: cli_getc_def printf_simps)
  have f1: "files ?w1 = files w"
    by (simp add: emit_simps printf_simps printf_def emit_def)
  have c1: "content_of ?w1 (fpath file) = content_of w (fpath file)"
    by (rule content_of_cong [OF f1])
  have rd: "storage_file_read file (unat n) ?w1 =
      (?data, ?file', emit (FileRead (unat n) ?data) ?w1)"
  proof -
    have "drop (fpos file) (content_of ?w1 (fpath file)) = pend"
      unfolding c1 by (rule Cons.prems(1))
    then show ?thesis by (rule storage_file_read_eq)
  qed
  have sub: "of_nat (length pend) - of_nat (length ?data) = (of_nat (length (drop (unat n) pend)) :: 64 word)"
  proof -
    have e: "(of_nat (length pend - length ?data) :: 64 word) =
        of_nat (length pend) - of_nat (length ?data)"
      by (rule of_nat_diff) simp
    have l: "length pend - length ?data = length (drop (unat n) pend)" by simp
    show ?thesis by (simp only: e [symmetric] l)
  qed
  have step: "read_chunks_loop n (of_nat (length pend)) file w =
      read_chunks_loop n (of_nat (length (drop (unat n) pend))) ?file' ?w3"
    by (subst read_chunks_loop.simps)
       (simp only: pos if_True g option.case prod.case rd sub)
  have f3: "files ?w3 = files w"
    by (simp add: put_bytes_simps emit_simps printf_simps)
  have d3: "drop (fpos ?file') (content_of ?w3 (fpath ?file')) = drop (unat n) pend"
  proof -
    have "content_of ?w3 (fpath ?file') = content_of w (fpath file)"
      using content_of_cong [OF f3] by simp
    then have "drop (fpos ?file') (content_of ?w3 (fpath ?file')) =
        drop (length ?data) (drop (fpos file) (content_of w (fpath file)))"
      by (simp add: add.commute)
    also have "\<dots> = drop (length ?data) pend" using Cons.prems(1) by simp
    also have "\<dots> = drop (unat n) pend"
      by (cases "unat n \<le> length pend") (simp_all add: min_def)
    finally show ?thesis .
  qed
  have l3: "length (drop (unat n) pend) < 2 ^ 64" using Cons.prems(2) by simp
  have c3: "cin ?w3 = as @ rest" by (simp add: put_bytes_simps emit_simps)
  have a3: "length as = length (chunks (unat n) (drop (unat n) pend))"
    using Cons.prems(4) ch by simp
  from Cons.IH [OF d3 l3 c3 a3] obtain w' where
    r: "read_chunks_loop n (of_nat (length (drop (unat n) pend))) ?file' ?w3 = Some w'"
    and t: "trace w' = trace ?w3 @ concat (map2 (chunk_events (unat n)) as
              (chunks (unat n) (drop (unat n) pend)))"
    and c: "cin w' = rest" and f: "files w' = files ?w3" and ro: "room w' = room ?w3"
    by blast
  have t3: "trace ?w3 = trace w @ chunk_events (unat n) a ?data"
    by (simp add: put_bytes_simps emit_simps printf_simps chunk_events_def)
  have "trace w' = trace w @ concat (map2 (chunk_events (unat n)) (a # as) (chunks (unat n) pend))"
    unfolding t t3 ch by simp
  moreover have "room w' = room w"
    unfolding ro by (simp add: put_bytes_simps emit_simps printf_simps)
  ultimately show ?case
    using step r c f f3 by simp
qed


lemma content_of_Some: "files w p = Some c \<Longrightarrow> content_of w p = c"
  by (simp add: content_of_def)

section \<open>Handle discipline of the handlers\<close>

lemma track_quiet: "quiet e \<Longrightarrow> track h e = Some h"
  by (cases e) simp_all

lemma track_all_quiet: "list_all quiet es \<Longrightarrow> track_all h es = Some h"
  by (induction es) (simp_all add: track_quiet)

lemma track_all_append:
  "track_all h (a @ b) = (case track_all h a of None \<Rightarrow> None | Some h' \<Rightarrow> track_all h' b)"
  by (induction a arbitrary: h) (simp_all split: option.splits)

lemma released_frame:
  "track_all no_handles pre = Some h \<Longrightarrow> list_all quiet mid \<Longrightarrow>
   track_all h post = Some no_handles \<Longrightarrow> released (pre @ mid @ post)"
  by (simp add: released_def track_all_append track_all_quiet)

lemma quiet_usage: "list_all quiet usage_events"
  by (simp add: usage_events_def list_all_iff)

lemma quiet_error_line: "quiet (error_line env e)"
  by (simp add: error_line_def)

lemmas release_simps =
  released_def new_events_def no_handles_def track_all_append track_all_quiet quiet_usage
  prim_traces

lemma released_info: "released (new_events w (storage_cli_info env path w))"
  by (simp add: storage_cli_info_def release_simps Let_def split: prod.splits)

lemma released_stat: "released (new_events w (storage_cli_stat env path w))"
  by (simp add: storage_cli_stat_def release_simps Let_def split: prod.splits)

lemma released_timestamp: "released (new_events w (storage_cli_timestamp env path w))"
  by (simp add: storage_cli_timestamp_def release_simps Let_def split: prod.splits)

lemma released_copy: "released (new_events w (storage_cli_copy env path args w))"
  by (cases "args_read_probably_quoted_string_and_trim env args")
     (auto simp: storage_cli_copy_def release_simps Let_def)

lemma released_rename: "released (new_events w (storage_cli_rename env path args w))"
  by (cases "args_read_probably_quoted_string_and_trim env args")
     (auto simp: storage_cli_rename_def release_simps Let_def)

lemma released_migrate: "released (new_events w (storage_cli_migrate env path args w))"
  by (cases "args_read_probably_quoted_string_and_trim env args")
     (auto simp: storage_cli_migrate_def release_simps Let_def)

lemma released_remove: "released (new_events w (storage_cli_remove env path w))"
  by (simp add: storage_cli_remove_def release_simps Let_def)

lemma released_mkdir: "released (new_events w (storage_cli_mkdir env path w))"
  by (simp add: storage_cli_mkdir_def release_simps Let_def)

lemma released_md5: "released (new_events w (storage_cli_md5 env path w))"
  by (simp add: storage_cli_md5_def storage_file_alloc_def release_simps Let_def
      split: sum.splits)

lemma released_format:
  "storage_cli_format env path w = Some w' \<Longrightarrow> released (new_events w w')"
  by (auto simp: storage_cli_format_def furi_record_open_def furi_record_close_def cli_getc_def release_simps Let_def
      split: if_splits list.splits)

lemma released_usage: "released (new_events w (storage_cli_print_usage w))"
  by (simp add: release_simps)


lemma print_entry_quiet:
  "\<exists>e. quiet e \<and> (\<forall>w. trace (print_entry name fileinfo w) = trace w @ [e])"
  by (cases "is_dir fileinfo") (auto simp: print_entry_def printf_simps)

lemma list_loop_quiet:
  "\<exists>evs. list_all quiet evs \<and> (\<forall>w. trace (list_loop es w) = trace w @ evs)"
proof (induction es)
  case Nil
  have "list_all quiet [DirRead False] \<and> (\<forall>w. trace (list_loop [] w) = trace w @ [DirRead False])"
    by (simp add: emit_simps)
  then show ?case by blast
next
  case (Cons x es)
  obtain name fileinfo where x: "x = (name, fileinfo)" by (cases x)
  from Cons obtain evs where q: "list_all quiet evs"
    and evs: "\<forall>w. trace (list_loop es w) = trace w @ evs" by blast
  obtain e where qe: "quiet e" and e: "\<forall>w. trace (print_entry name fileinfo w) = trace w @ [e]"
    using print_entry_quiet by blast
  have "list_all quiet ([DirRead True, e] @ evs)
      \<and> (\<forall>w. trace (list_loop (x # es) w) = trace w @ ([DirRead True, e] @ evs))"
    using q qe by (simp add: x evs e emit_simps)
  then show ?case by blast
qed

lemma tree_loop_quiet:
  "\<exists>evs. list_all quiet evs \<and> (\<forall>w. trace (tree_loop es w) = trace w @ evs)"
proof (induction es)
  case Nil
  have "list_all quiet [DirWalkRead False]
      \<and> (\<forall>w. trace (tree_loop [] w) = trace w @ [DirWalkRead False])"
    by (simp add: emit_simps)
  then show ?case by blast
next
  case (Cons x es)
  obtain name fileinfo where x: "x = (name, fileinfo)" by (cases x)
  from Cons obtain evs where q: "list_all quiet evs"
    and evs: "\<forall>w. trace (tree_loop es w) = trace w @ evs" by blast
  obtain e where qe: "quiet e" and e: "\<forall>w. trace (print_entry name fileinfo w) = trace w @ [e]"
    using print_entry_quiet by blast
  have "list_all quiet ([DirWalkRead True, e] @ evs)
      \<and> (\<forall>w. trace (tree_loop (x # es) w) = trace w @ ([DirWalkRead True, e] @ evs))"
    using q qe by (simp add: x evs e emit_simps)
  then show ?case by blast
qed

lemma trace_if_printf:
  "trace (if c then printf fmt as w else w) = trace w @ (if c then [Printf fmt as] else [])"
  by (simp add: printf_simps)

lemma released_list: "released (new_events w (storage_cli_list env path w))"
proof (cases "path = ''/''")
  case True
  then show ?thesis by (simp add: storage_cli_list_def release_simps)
next
  case False
  show ?thesis
  proof (cases "resp_dir env path")
    case (Inl e)
    with False show ?thesis
      by (simp add: storage_cli_list_def storage_file_alloc_def release_simps)
  next
    case (Inr entries)
    obtain evs where q: "list_all quiet evs"
      and evs: "\<forall>w. trace (list_loop entries w) = trace w @ evs"
      using list_loop_quiet by blast
    let ?mid = "DirOpen path True # evs @ (if entries = [] then [Printf (TAB @ ''Empty'' @ CRLF) []] else [])"
    have t: "trace (storage_cli_list env path w) =
        trace w @ ([RecordOpen, FileAlloc, DirOpen path True] @
          (evs @ (if entries = [] then [Printf (TAB @ ''Empty'' @ CRLF) []] else [])) @
          [DirClose, FileFree, RecordClose])"
      using False Inr
      by (simp add: storage_cli_list_def storage_file_alloc_def prim_traces evs Let_def
            trace_if_printf split del: if_split)
    have m: "list_all quiet (evs @ (if entries = [] then [Printf (TAB @ ''Empty'' @ CRLF) []] else []))"
      using q by simp
    have "released ([RecordOpen, FileAlloc, DirOpen path True] @
          (evs @ (if entries = [] then [Printf (TAB @ ''Empty'' @ CRLF) []] else [])) @
          [DirClose, FileFree, RecordClose])"
      by (rule released_frame
            [where h = "\<lparr>rec_open = True, file_alloc = True, file_opened = True, walker_alloc = False\<rparr>",
             OF _ m])
         (simp_all add: no_handles_def)
    then show ?thesis
      unfolding new_events_append [OF t] .
  qed
qed

lemma released_tree_path:
  assumes "path \<noteq> ''/''"
  shows "\<exists>evs. released evs \<and> (\<forall>w. trace (storage_cli_tree env path w) = trace w @ evs)"
proof (cases "resp_dir_walk env path")
  case (Inl e)
  have "released [RecordOpen, DirWalkAlloc, DirWalkOpen path False, error_line env e,
                     DirWalkFree, RecordClose]"
    by (simp add: released_def no_handles_def error_line_def)
  moreover have "\<forall>w. trace (storage_cli_tree env path w) =
          trace w @ [RecordOpen, DirWalkAlloc, DirWalkOpen path False, error_line env e,
                     DirWalkFree, RecordClose]"
    using assms Inl
    by (simp add: tree_unfold record_simps emit_simps print_error_simps error_line_def)
  ultimately show ?thesis by blast
next
  case (Inr entries)
  obtain evs where q: "list_all quiet evs"
    and evs: "\<forall>w. trace (tree_loop entries w) = trace w @ evs"
    using tree_loop_quiet by blast
  have t: "\<forall>w. trace (storage_cli_tree env path w) =
        trace w @ ([RecordOpen, DirWalkAlloc] @
          (DirWalkOpen path True # evs @ (if entries = [] then [Printf (TAB @ ''Empty'' @ CRLF) []] else [])) @
          [DirWalkFree, RecordClose])"
    using assms Inr
    by (simp add: tree_unfold prim_traces evs Let_def trace_if_printf split del: if_split)
  have m: "list_all quiet (DirWalkOpen path True # evs @ (if entries = [] then [Printf (TAB @ ''Empty'' @ CRLF) []] else []))"
    using q by simp
  have "released ([RecordOpen, DirWalkAlloc] @
          (DirWalkOpen path True # evs @ (if entries = [] then [Printf (TAB @ ''Empty'' @ CRLF) []] else [])) @
          [DirWalkFree, RecordClose])"
    by (rule released_frame
          [where h = "\<lparr>rec_open = True, file_alloc = False, file_opened = False, walker_alloc = True\<rparr>",
           OF _ m])
       (simp_all add: no_handles_def)
  with t show ?thesis by blast
qed

lemma released_append: "released a \<Longrightarrow> released b \<Longrightarrow> released (a @ b)"
  by (simp add: released_def track_all_append)

lemma released_tree: "released (new_events w (storage_cli_tree env path w))"
proof (cases "path = ''/''")
  case False
  then obtain evs where "released evs"
    and "\<forall>w. trace (storage_cli_tree env path w) = trace w @ evs"
    using released_tree_path by blast
  then show ?thesis by (simp add: new_events_def)
next
  case True
  have i: "STORAGE_INT_PATH_PREFIX \<noteq> ''/''" and x: "STORAGE_EXT_PATH_PREFIX \<noteq> ''/''"
    by (simp_all add: STORAGE_INT_PATH_PREFIX_def STORAGE_EXT_PATH_PREFIX_def)
  obtain a where ra: "released a"
    and a: "\<forall>w. trace (storage_cli_tree env STORAGE_INT_PATH_PREFIX w) = trace w @ a"
    using released_tree_path [OF i] by blast
  obtain b where rb: "released b"
    and b: "\<forall>w. trace (storage_cli_tree env STORAGE_EXT_PATH_PREFIX w) = trace w @ b"
    using released_tree_path [OF x] by blast
  have "new_events w (storage_cli_tree env path w) = a @ b"
    unfolding True by (simp add: tree_root new_events_def a b)
  with ra rb show ?thesis by (simp add: released_append)
qed


lemma open_trace:
  "storage_file_open env file path am om w = (ok, file1, w3) \<Longrightarrow>
   trace w3 = trace w @ [FileOpen path am om ok]"
  by (auto simp: storage_file_open_def emit_simps split: if_splits)

lemma write_trace:
  "storage_file_write env file data w = (k, file', w') \<Longrightarrow>
   trace w' = trace w @ [FileWrite data k] \<and> cin w' = cin w"
  by (auto simp: storage_file_write_def emit_simps Let_def)

lemma read_trace:
  "storage_file_read file k w = (data, file', w') \<Longrightarrow>
   trace w' = trace w @ [FileRead k data] \<and> cin w' = cin w"
  by (auto simp: storage_file_read_def emit_simps Let_def)

lemma print_bytes_simps:
  "trace (print_bytes data w) = trace w @ map (\<lambda>b. Printf ''%c'' [ArgChar b]) data"
  "cin (print_bytes data w) = cin w"
  "files (print_bytes data w) = files w"
  by (simp_all add: print_bytes_def)

lemma read_loop_quiet:
  "\<exists>evs. list_all quiet evs \<and> trace (read_loop file w) = trace w @ evs"
proof (induction "file" w rule: read_loop.induct)
  case (1 fl w)
  obtain data fl' w1 where rd: "storage_file_read fl 128 w = (data, fl', w1)"
    by (cases "storage_file_read fl 128 w") auto
  have t1: "trace w1 = trace w @ [FileRead 128 data]"
    using read_trace [OF rd] by simp
  let ?w2 = "print_bytes data w1"
  have t2: "trace ?w2 = trace w @ (FileRead 128 data # map (\<lambda>b. Printf ''%c'' [ArgChar b]) data)"
    by (simp add: print_bytes_simps t1)
  have q2: "list_all quiet (FileRead 128 data # map (\<lambda>b. Printf ''%c'' [ArgChar b]) data)"
    by (simp add: list_all_iff)
  show ?case
  proof (cases "0 < length data")
    case False
    then have "read_loop fl w = ?w2"
      by (subst read_loop.simps) (simp add: rd)
    with t2 q2 show ?thesis by metis
  next
    case True
    then have e: "read_loop fl w = read_loop fl' ?w2"
      by (subst read_loop.simps) (simp add: rd)
    from "1.IH" [OF rd [symmetric] refl refl True]
    obtain evs where q: "list_all quiet evs"
      and t: "trace (read_loop fl' ?w2) = trace ?w2 @ evs" by blast
    have "list_all quiet ((FileRead 128 data # map (\<lambda>b. Printf ''%c'' [ArgChar b]) data) @ evs)"
      using q q2 by simp
    moreover have "trace (read_loop fl w) =
        trace w @ ((FileRead 128 data # map (\<lambda>b. Printf ''%c'' [ArgChar b]) data) @ evs)"
      unfolding e t t2 by simp
    ultimately show ?thesis by blast
  qed
qed

lemma released_file_frame:
  "list_all quiet mid \<Longrightarrow>
   released ([RecordOpen, FileAlloc, FileOpen p am om ok] @ mid @ [FileClose, FileFree, RecordClose])"
  by (rule released_frame
        [where h = "\<lparr>rec_open = True, file_alloc = True, file_opened = ok, walker_alloc = False\<rparr>"])
     (simp_all add: no_handles_def)

lemma released_read: "released (new_events w (storage_cli_read env path w))"
proof -
  obtain ok file1 w3 where op:
    "storage_file_open env \<lparr>fpath = [], fpos = 0, is_open = False, error_id = FSE_OK\<rparr> path
       FSAM_READ FSOM_OPEN_EXISTING (emit FileAlloc (furi_record_open w)) = (ok, file1, w3)"
    by (metis prod_cases3)
  have t3: "trace w3 = trace w @ [RecordOpen, FileAlloc, FileOpen path FSAM_READ FSOM_OPEN_EXISTING ok]"
    using open_trace [OF op] by (simp add: prim_traces)
  have "\<exists>mid. list_all quiet mid \<and> trace (storage_cli_read env path w) =
      trace w @ ([RecordOpen, FileAlloc, FileOpen path FSAM_READ FSOM_OPEN_EXISTING ok] @ mid
                 @ [FileClose, FileFree, RecordClose])"
  proof (cases ok)
    case False
    have "list_all quiet [error_line env (storage_file_get_error file1)]"
      by (simp add: quiet_error_line)
    moreover have "trace (storage_cli_read env path w) =
      trace w @ ([RecordOpen, FileAlloc, FileOpen path FSAM_READ FSOM_OPEN_EXISTING ok]
                 @ [error_line env (storage_file_get_error file1)]
                 @ [FileClose, FileFree, RecordClose])"
      using False
      by (simp add: storage_cli_read_def storage_file_alloc_def op prim_traces t3 error_line_def)
    ultimately show ?thesis by blast
  next
    case True
    obtain sz w4 where s: "storage_file_size file1 w3 = (sz, w4)"
      by (cases "storage_file_size file1 w3") auto
    then have t4: "trace w4 = trace w3 @ [FileSize]"
      by (auto simp: storage_file_size_def emit_simps)
    define W5 where "W5 = printf (''Size: %lu'' @ CRLF) [ArgU32 (ucast sz)] w4"
    have t5: "trace W5 = trace w4 @ [Printf (''Size: %lu'' @ CRLF) [ArgU32 (ucast sz)]]"
      unfolding W5_def by (simp add: printf_simps)
    obtain evs where q: "list_all quiet evs"
      and t: "trace (read_loop file1 W5) = trace W5 @ evs"
      using read_loop_quiet by blast
    have e: "storage_cli_read env path w =
        furi_record_close (storage_file_free (storage_file_close (printf CRLF [] (read_loop file1 W5))))"
      unfolding W5_def using True
      by (simp only: storage_cli_read_def storage_file_alloc_def op s Let_def prod.case if_True)
    have "list_all quiet ([FileSize, Printf (''Size: %lu'' @ CRLF) [ArgU32 (ucast sz)]] @ evs @ [Printf CRLF []])"
      using q by simp
    moreover have "trace (storage_cli_read env path w) =
      trace w @ ([RecordOpen, FileAlloc, FileOpen path FSAM_READ FSOM_OPEN_EXISTING ok]
                 @ ([FileSize, Printf (''Size: %lu'' @ CRLF) [ArgU32 (ucast sz)]] @ evs @ [Printf CRLF []])
                 @ [FileClose, FileFree, RecordClose])"
      unfolding e by (simp add: prim_traces t t5 t4 t3)
    ultimately show ?thesis by blast
  qed
  then obtain mid where q: "list_all quiet mid"
    and t: "trace (storage_cli_read env path w) =
      trace w @ ([RecordOpen, FileAlloc, FileOpen path FSAM_READ FSOM_OPEN_EXISTING ok] @ mid
                 @ [FileClose, FileFree, RecordClose])"
    by blast
  show ?thesis
    unfolding new_events_append [OF t] using q by (rule released_file_frame)
qed


lemma write_loop_quiet:
  "write_loop env buffer idx fl w = Some w' \<Longrightarrow>
   \<exists>evs. list_all quiet evs \<and> trace w' = trace w @ evs"
proof (induction "cin w" arbitrary: w buffer idx fl)
  case Nil
  then have "cli_getc w = None" by (simp add: cli_getc_def)
  then have "write_loop env buffer idx fl w = None"
    by (subst write_loop.simps) simp
  with Nil.prems show ?case by simp
next
  case (Cons c cs)
  let ?w1 = "emit (Getc c) (w\<lparr>cin := cs\<rparr>)"
  have g: "cli_getc w = Some (c, ?w1)"
    using Cons.hyps(2) [symmetric] by (rule cli_getc_Cons)
  have t1: "trace ?w1 = trace w @ [Getc c]" and c1: "cin ?w1 = cs"
    by (simp_all add: emit_simps)
  show ?case
  proof (cases "c = CliSymbolAsciiETX \<and> 0 < unat idx mod 512")
    case True
    obtain k f' w2 where wr:
      "storage_file_write env fl (take (unat idx mod 512) buffer) ?w1 = (k, f', w2)"
      by (metis prod_cases3)
    have t2: "trace w2 = trace w @ [Getc c, FileWrite (take (unat idx mod 512) buffer) k]"
      using write_trace [OF wr] t1 by simp
    have "write_loop env buffer idx fl w =
        Some (if k \<noteq> unat idx mod 512
              then storage_cli_print_error env (storage_file_get_error f') w2 else w2)"
    proof -
      have cond: "(c = CliSymbolAsciiETX \<and> 0 < unat idx mod 512) = True" using True by simp
      show ?thesis
        by (subst write_loop.simps) (simp only: g option.case prod.case cond if_True wr)
    qed
    with Cons.prems have w': "w' = (if k \<noteq> unat idx mod 512
              then storage_cli_print_error env (storage_file_get_error f') w2 else w2)"
      by simp
    have "list_all quiet ([Getc c, FileWrite (take (unat idx mod 512) buffer) k]
            @ (if k \<noteq> unat idx mod 512 then [error_line env (storage_file_get_error f')] else []))"
      by (simp add: quiet_error_line)
    moreover have "trace w' = trace w @ ([Getc c, FileWrite (take (unat idx mod 512) buffer) k]
            @ (if k \<noteq> unat idx mod 512 then [error_line env (storage_file_get_error f')] else []))"
      unfolding w' by (simp add: print_error_simps t2 error_line_def)
    ultimately show ?thesis by blast
  next
    case False
    then have cond: "(c = CliSymbolAsciiETX \<and> 0 < unat idx mod 512) = False" by simp
    let ?b = "buffer[unat idx mod 512 := c]"
    let ?w2 = "emit Fflush (printf ''%c'' [ArgChar (?b ! (unat idx mod 512))] ?w1)"
    have t2: "trace ?w2 = trace w @ [Getc c, Printf ''%c'' [ArgChar (?b ! (unat idx mod 512))], Fflush]"
      and c2: "cin ?w2 = cs"
      by (simp_all add: emit_simps printf_simps)
    show ?thesis
    proof (cases "unat (idx + 1) mod 512 = 0")
      case nz: False
      have "write_loop env buffer idx fl w = write_loop env ?b (idx + 1) fl ?w2"
      proof -
        have cz: "(unat (idx + 1) mod 512 = 0) = False" using nz by simp
        show ?thesis
          by (subst write_loop.simps)
             (simp only: g option.case prod.case cond if_False Let_def cz)
      qed
      with Cons.prems have r: "write_loop env ?b (idx + 1) fl ?w2 = Some w'" by simp
      from Cons.hyps(1) [OF c2 [symmetric] r] obtain evs where q: "list_all quiet evs"
        and t: "trace w' = trace ?w2 @ evs" by blast
      have "list_all quiet ([Getc c, Printf ''%c'' [ArgChar (?b ! (unat idx mod 512))], Fflush] @ evs)"
        using q by simp
      moreover have "trace w' = trace w @
          ([Getc c, Printf ''%c'' [ArgChar (?b ! (unat idx mod 512))], Fflush] @ evs)"
        unfolding t t2 by simp
      ultimately show ?thesis by blast
    next
      case z: True
      obtain k f' w3 where wr: "storage_file_write env fl (take 512 ?b) ?w2 = (k, f', w3)"
        by (metis prod_cases3)
      have t3: "trace w3 = trace ?w2 @ [FileWrite (take 512 ?b) k]" and c3: "cin w3 = cs"
        using write_trace [OF wr] c2 by simp_all
      have e: "write_loop env buffer idx fl w =
          (if k \<noteq> 512 then Some (storage_cli_print_error env (storage_file_get_error f') w3)
           else write_loop env ?b (idx + 1) f' w3)"
      proof -
        have cz: "(unat (idx + 1) mod 512 = 0) = True" using z by simp
        show ?thesis
          by (subst write_loop.simps)
             (simp only: g option.case prod.case cond if_False if_True Let_def cz wr)
      qed
      show ?thesis
      proof (cases "k = 512")
        case False
        with e Cons.prems have w': "w' = storage_cli_print_error env (storage_file_get_error f') w3"
          by simp
        have "list_all quiet ([Getc c, Printf ''%c'' [ArgChar (?b ! (unat idx mod 512))], Fflush,
                FileWrite (take 512 ?b) k, error_line env (storage_file_get_error f')])"
          by (simp add: quiet_error_line)
        moreover have "trace w' = trace w @
            [Getc c, Printf ''%c'' [ArgChar (?b ! (unat idx mod 512))], Fflush,
             FileWrite (take 512 ?b) k, error_line env (storage_file_get_error f')]"
          unfolding w' by (simp add: print_error_simps t3 t2 error_line_def)
        ultimately show ?thesis by blast
      next
        case True
        with e Cons.prems have r: "write_loop env ?b (idx + 1) f' w3 = Some w'" by simp
        from Cons.hyps(1) [OF c3 [symmetric] r] obtain evs where q: "list_all quiet evs"
          and t: "trace w' = trace w3 @ evs" by blast
        have "list_all quiet ([Getc c, Printf ''%c'' [ArgChar (?b ! (unat idx mod 512))], Fflush,
                FileWrite (take 512 ?b) k] @ evs)"
          using q by simp
        moreover have "trace w' = trace w @
            ([Getc c, Printf ''%c'' [ArgChar (?b ! (unat idx mod 512))], Fflush,
              FileWrite (take 512 ?b) k] @ evs)"
          unfolding t t3 t2 by simp
        ultimately show ?thesis by blast
      qed
    qed
  qed
qed


lemma read_chunks_loop_quiet:
  "read_chunks_loop n fs fl w = Some w' \<Longrightarrow>
   \<exists>evs. list_all quiet evs \<and> trace w' = trace w @ evs"
proof (induction "cin w" arbitrary: w fs fl)
  case Nil
  show ?case
  proof (cases "0 < fs")
    case False
    then have "read_chunks_loop n fs fl w = Some w"
      by (subst read_chunks_loop.simps) simp
    with Nil.prems have "list_all quiet [] \<and> trace w' = trace w @ []" by simp
    then show ?thesis by blast
  next
    case True
    have "cli_getc (printf (CRLF @ ''Ready?'' @ CRLF) [] w) = None"
      using Nil.hyps by (simp add: cli_getc_def printf_simps)
    then have "read_chunks_loop n fs fl w = None"
      using True by (subst read_chunks_loop.simps) simp
    with Nil.prems show ?thesis by simp
  qed
next
  case (Cons c cs)
  show ?case
  proof (cases "0 < fs")
    case False
    then have "read_chunks_loop n fs fl w = Some w"
      by (subst read_chunks_loop.simps) simp
    with Cons.prems have "list_all quiet [] \<and> trace w' = trace w @ []" by simp
    then show ?thesis by blast
  next
    case True
    define W1 where "W1 = emit (Getc c) ((printf (CRLF @ ''Ready?'' @ CRLF) [] w)\<lparr>cin := cs\<rparr>)"
    have g: "cli_getc (printf (CRLF @ ''Ready?'' @ CRLF) [] w) = Some (c, W1)"
      unfolding W1_def using Cons.hyps(2) [symmetric] by (simp add: cli_getc_def printf_simps)
    have t1: "trace W1 = trace w @ [Printf (CRLF @ ''Ready?'' @ CRLF) [], Getc c]"
      and c1: "cin W1 = cs"
      unfolding W1_def by (simp_all add: emit_simps printf_simps)
    obtain data f' w2 where rd: "storage_file_read fl (unat n) W1 = (data, f', w2)"
      by (metis prod_cases3)
    have t2: "trace w2 = trace W1 @ [FileRead (unat n) data]" and c2: "cin w2 = cs"
      using read_trace [OF rd] c1 by simp_all
    have c3: "cin (put_bytes data w2) = cs" by (simp add: put_bytes_simps c2)
    have cond: "(0 < fs) = True" using True by simp
    have "read_chunks_loop n fs fl w =
        read_chunks_loop n (fs - of_nat (length data)) f' (put_bytes data w2)"
      by (subst read_chunks_loop.simps) (simp only: cond if_True g option.case prod.case rd)
    with Cons.prems have r:
      "read_chunks_loop n (fs - of_nat (length data)) f' (put_bytes data w2) = Some w'" by simp
    from Cons.hyps(1) [OF c3 [symmetric] r] obtain evs where q: "list_all quiet evs"
      and t: "trace w' = trace (put_bytes data w2) @ evs" by blast
    have "list_all quiet ([Printf (CRLF @ ''Ready?'' @ CRLF) [], Getc c, FileRead (unat n) data]
            @ map Putchar data @ evs)"
      using q by (auto simp: list_all_iff)
    moreover have "trace w' = trace w @
        ([Printf (CRLF @ ''Ready?'' @ CRLF) [], Getc c, FileRead (unat n) data]
            @ map Putchar data @ evs)"
      unfolding t by (simp add: put_bytes_simps t2 t1)
    ultimately show ?thesis by blast
  qed
qed

lemma released_write:
  assumes "storage_cli_write env path w = Some w'"
  shows "released (new_events w w')"
proof -
  obtain ok file1 w3 where op:
    "storage_file_open env \<lparr>fpath = [], fpos = 0, is_open = False, error_id = FSE_OK\<rparr> path
       FSAM_WRITE FSOM_OPEN_APPEND (emit FileAlloc (furi_record_open w)) = (ok, file1, w3)"
    by (metis prod_cases3)
  have t3: "trace w3 = trace w @ [RecordOpen, FileAlloc, FileOpen path FSAM_WRITE FSOM_OPEN_APPEND ok]"
    using open_trace [OF op] by (simp add: prim_traces)
  define W4 where "W4 =
    printf (''Just write your text data. New line by Ctrl+Enter, exit by Ctrl+C.'' @ CRLF) [] w3"
  have t4: "trace W4 = trace w3 @
      [Printf (''Just write your text data. New line by Ctrl+Enter, exit by Ctrl+C.'' @ CRLF) []]"
    unfolding W4_def by (simp add: printf_simps)
  have e: "storage_cli_write env path w =
      map_option (\<lambda>w4. furi_record_close (storage_file_free (storage_file_close w4)))
        (if ok then map_option (printf CRLF []) (write_loop env (replicate 512 0) 0 file1 W4)
         else Some (storage_cli_print_error env (storage_file_get_error file1) w3))"
    unfolding W4_def
    by (simp only: storage_cli_write_def storage_file_alloc_def op Let_def prod.case)
  have "\<exists>mid. list_all quiet mid \<and> trace w' =
      trace w @ ([RecordOpen, FileAlloc, FileOpen path FSAM_WRITE FSOM_OPEN_APPEND ok] @ mid
                 @ [FileClose, FileFree, RecordClose])"
  proof (cases ok)
    case False
    have w': "w' = furi_record_close (storage_file_free (storage_file_close
        (storage_cli_print_error env (storage_file_get_error file1) w3)))"
      using assms False unfolding e by simp
    have "list_all quiet [error_line env (storage_file_get_error file1)]"
      by (simp add: quiet_error_line)
    moreover have "trace w' =
      trace w @ ([RecordOpen, FileAlloc, FileOpen path FSAM_WRITE FSOM_OPEN_APPEND ok]
                 @ [error_line env (storage_file_get_error file1)]
                 @ [FileClose, FileFree, RecordClose])"
      unfolding w' by (simp add: prim_traces t3 error_line_def)
    ultimately show ?thesis by blast
  next
    case True
    have "map_option (\<lambda>w4. furi_record_close (storage_file_free (storage_file_close w4)))
        (map_option (printf CRLF []) (write_loop env (replicate 512 0) 0 file1 W4)) = Some w'"
      using assms True unfolding e by simp
    then obtain w6 where l: "write_loop env (replicate 512 0) 0 file1 W4 = Some w6"
      and w': "w' = furi_record_close (storage_file_free (storage_file_close (printf CRLF [] w6)))"
      by (auto simp: map_option_eq_Some)
    from write_loop_quiet [OF l] obtain evs where q: "list_all quiet evs"
      and t: "trace w6 = trace W4 @ evs" by blast
    have "list_all quiet
        ([Printf (''Just write your text data. New line by Ctrl+Enter, exit by Ctrl+C.'' @ CRLF) []]
         @ evs @ [Printf CRLF []])"
      using q by simp
    moreover have "trace w' =
      trace w @ ([RecordOpen, FileAlloc, FileOpen path FSAM_WRITE FSOM_OPEN_APPEND ok]
                 @ ([Printf (''Just write your text data. New line by Ctrl+Enter, exit by Ctrl+C.'' @ CRLF) []]
                    @ evs @ [Printf CRLF []])
                 @ [FileClose, FileFree, RecordClose])"
      unfolding w' by (simp add: prim_traces t t4 t3)
    ultimately show ?thesis by blast
  qed
  then obtain mid where q: "list_all quiet mid"
    and t: "trace w' =
      trace w @ ([RecordOpen, FileAlloc, FileOpen path FSAM_WRITE FSOM_OPEN_APPEND ok] @ mid
                 @ [FileClose, FileFree, RecordClose])"
    by blast
  show ?thesis
    unfolding new_events_append [OF t] using q by (rule released_file_frame)
qed


lemma released_alloc_frame:
  "list_all quiet mid \<Longrightarrow> released ([RecordOpen, FileAlloc] @ mid @ [FileClose, FileFree, RecordClose])"
  by (rule released_frame
        [where h = "\<lparr>rec_open = True, file_alloc = True, file_opened = False, walker_alloc = False\<rparr>"])
     (simp_all add: no_handles_def)

lemma released_alloc_frame':
  "list_all quiet mid \<Longrightarrow> released ([RecordOpen, FileAlloc] @ mid @ [FileFree, RecordClose])"
  by (rule released_frame
        [where h = "\<lparr>rec_open = True, file_alloc = True, file_opened = False, walker_alloc = False\<rparr>"])
     (simp_all add: no_handles_def)

lemma released_read_chunks:
  assumes "storage_cli_read_chunks env path args w = Some w'"
  shows "released (new_events w w')"
proof (cases "sscanf_lu env args")
  case None
  with assms have "trace w' = trace w @ ([RecordOpen, FileAlloc] @ usage_events
      @ [FileClose, FileFree, RecordClose])"
    by (auto simp: storage_cli_read_chunks_def storage_file_alloc_def prim_traces)
  then have "new_events w w' = [RecordOpen, FileAlloc] @ usage_events
      @ [FileClose, FileFree, RecordClose]"
    by (rule new_events_append)
  then show ?thesis
    using released_alloc_frame [OF quiet_usage] by simp
next
  case (Some n)
  obtain ok file1 w3 where op:
    "storage_file_open env \<lparr>fpath = [], fpos = 0, is_open = False, error_id = FSE_OK\<rparr> path
       FSAM_READ FSOM_OPEN_EXISTING (emit FileAlloc (furi_record_open w)) = (ok, file1, w3)"
    by (metis prod_cases3)
  have t3: "trace w3 = trace w @ [RecordOpen, FileAlloc, FileOpen path FSAM_READ FSOM_OPEN_EXISTING ok]"
    using open_trace [OF op] by (simp add: prim_traces)
  obtain sz w4 where s: "storage_file_size file1 w3 = (sz, w4)"
    by (cases "storage_file_size file1 w3") auto
  then have t4: "trace w4 = trace w3 @ [FileSize]"
    by (auto simp: storage_file_size_def emit_simps)
  define W5 where "W5 = printf (''Size: %llu'' @ CRLF) [ArgU64 sz] w4"
  have t5: "trace W5 = trace w4 @ [Printf (''Size: %llu'' @ CRLF) [ArgU64 sz]]"
    unfolding W5_def by (simp add: printf_simps)
  have e: "storage_cli_read_chunks env path args w =
      map_option (\<lambda>w'. furi_record_close (storage_file_free (storage_file_close w')))
        (if ok then map_option (printf CRLF [])
                     (if n \<noteq> 0 then read_chunks_loop n sz file1 W5 else Some W5)
         else Some (storage_cli_print_error env (storage_file_get_error file1) w3))"
    unfolding W5_def
    by (simp only: storage_cli_read_chunks_def storage_file_alloc_def Some option.case op s
        Let_def prod.case)
  have "\<exists>mid. list_all quiet mid \<and> trace w' =
      trace w @ ([RecordOpen, FileAlloc, FileOpen path FSAM_READ FSOM_OPEN_EXISTING ok] @ mid
                 @ [FileClose, FileFree, RecordClose])"
  proof (cases ok)
    case False
    have w': "w' = furi_record_close (storage_file_free (storage_file_close
        (storage_cli_print_error env (storage_file_get_error file1) w3)))"
      using assms False unfolding e by simp
    have "list_all quiet [error_line env (storage_file_get_error file1)]"
      by (simp add: quiet_error_line)
    moreover have "trace w' =
      trace w @ ([RecordOpen, FileAlloc, FileOpen path FSAM_READ FSOM_OPEN_EXISTING ok]
                 @ [error_line env (storage_file_get_error file1)]
                 @ [FileClose, FileFree, RecordClose])"
      unfolding w' by (simp add: prim_traces t3 error_line_def)
    ultimately show ?thesis by blast
  next
    case True
    have "map_option (\<lambda>w'. furi_record_close (storage_file_free (storage_file_close w')))
        (map_option (printf CRLF [])
           (if n \<noteq> 0 then read_chunks_loop n sz file1 W5 else Some W5)) = Some w'"
      using assms True unfolding e by simp
    then obtain w6 where l: "(if n \<noteq> 0 then read_chunks_loop n sz file1 W5 else Some W5) = Some w6"
      and w': "w' = furi_record_close (storage_file_free (storage_file_close (printf CRLF [] w6)))"
      by (auto simp: map_option_eq_Some)
    have "\<exists>evs. list_all quiet evs \<and> trace w6 = trace W5 @ evs"
    proof (cases "n = 0")
      case True
      with l have "list_all quiet [] \<and> trace w6 = trace W5 @ []" by simp
      then show ?thesis by blast
    next
      case False
      with l have "read_chunks_loop n sz file1 W5 = Some w6" by simp
      then show ?thesis by (rule read_chunks_loop_quiet)
    qed
    then obtain evs where q: "list_all quiet evs" and t: "trace w6 = trace W5 @ evs" by blast
    have "list_all quiet ([FileSize, Printf (''Size: %llu'' @ CRLF) [ArgU64 sz]] @ evs @ [Printf CRLF []])"
      using q by simp
    moreover have "trace w' =
      trace w @ ([RecordOpen, FileAlloc, FileOpen path FSAM_READ FSOM_OPEN_EXISTING ok]
                 @ ([FileSize, Printf (''Size: %llu'' @ CRLF) [ArgU64 sz]] @ evs @ [Printf CRLF []])
                 @ [FileClose, FileFree, RecordClose])"
      unfolding w' by (simp add: prim_traces t t5 t4 t3)
    ultimately show ?thesis by blast
  qed
  then obtain mid where q: "list_all quiet mid"
    and t: "trace w' =
      trace w @ ([RecordOpen, FileAlloc, FileOpen path FSAM_READ FSOM_OPEN_EXISTING ok] @ mid
                 @ [FileClose, FileFree, RecordClose])"
    by blast
  show ?thesis
    unfolding new_events_append [OF t] using q by (rule released_file_frame)
qed

lemma cli_read_trace:
  "cli_read k w = Some (data, w') \<Longrightarrow> trace w' = trace w @ [CliRead k data]"
  by (auto simp: cli_read_def emit_simps split: list.splits)

lemma released_write_chunk:
  assumes "storage_cli_write_chunk env path args w = Some w'"
  shows "released (new_events w w')"
proof (cases "sscanf_lu env args")
  case None
  with assms have "trace w' = trace w @ ([RecordOpen, FileAlloc] @ usage_events
      @ [FileFree, RecordClose])"
    by (auto simp: storage_cli_write_chunk_def storage_file_alloc_def prim_traces)
  then have "new_events w w' = [RecordOpen, FileAlloc] @ usage_events @ [FileFree, RecordClose]"
    by (rule new_events_append)
  then show ?thesis
    using released_alloc_frame' [OF quiet_usage] by simp
next
  case (Some n)
  obtain ok file1 w3 where op:
    "storage_file_open env \<lparr>fpath = [], fpos = 0, is_open = False, error_id = FSE_OK\<rparr> path
       FSAM_WRITE FSOM_OPEN_APPEND (emit FileAlloc (furi_record_open w)) = (ok, file1, w3)"
    by (metis prod_cases3)
  have t3: "trace w3 = trace w @ [RecordOpen, FileAlloc, FileOpen path FSAM_WRITE FSOM_OPEN_APPEND ok]"
    using open_trace [OF op] by (simp add: prim_traces)
  define W4 where "W4 = printf (''Ready'' @ CRLF) [] w3"
  have t4: "trace W4 = trace w3 @ [Printf (''Ready'' @ CRLF) []]"
    unfolding W4_def by (simp add: printf_simps)
  have e: "storage_cli_write_chunk env path args w =
      map_option (\<lambda>w'. furi_record_close (storage_file_free w'))
        (map_option storage_file_close
          (if ok then
             (if n \<noteq> 0 then
                (case cli_read (unat n) W4 of
                   None \<Rightarrow> None
                 | Some (buffer, w5) \<Rightarrow>
                     (case storage_file_write env file1 buffer w5 of
                        (written_size, file2, w6) \<Rightarrow>
                          Some (if written_size \<noteq> unat n
                                then storage_cli_print_error env (storage_file_get_error file2) w6
                                else w6)))
              else Some W4)
           else Some (storage_cli_print_error env (storage_file_get_error file1) w3)))"
    unfolding W4_def
    by (simp only: storage_cli_write_chunk_def storage_file_alloc_def Some option.case op
        Let_def prod.case)
  have "\<exists>mid. list_all quiet mid \<and> trace w' =
      trace w @ ([RecordOpen, FileAlloc, FileOpen path FSAM_WRITE FSOM_OPEN_APPEND ok] @ mid
                 @ [FileClose, FileFree, RecordClose])"
  proof (cases ok)
    case False
    have w': "w' = furi_record_close (storage_file_free (storage_file_close
        (storage_cli_print_error env (storage_file_get_error file1) w3)))"
      using assms False unfolding e by simp
    have "list_all quiet [error_line env (storage_file_get_error file1)]"
      by (simp add: quiet_error_line)
    moreover have "trace w' =
      trace w @ ([RecordOpen, FileAlloc, FileOpen path FSAM_WRITE FSOM_OPEN_APPEND ok]
                 @ [error_line env (storage_file_get_error file1)]
                 @ [FileClose, FileFree, RecordClose])"
      unfolding w' by (simp add: prim_traces t3 error_line_def)
    ultimately show ?thesis by blast
  next
    case True
    show ?thesis
    proof (cases "n = 0")
      case z: True
      have w': "w' = furi_record_close (storage_file_free (storage_file_close W4))"
        using assms True z unfolding e by simp
      have "list_all quiet [Printf (''Ready'' @ CRLF) []]" by simp
      moreover have "trace w' =
        trace w @ ([RecordOpen, FileAlloc, FileOpen path FSAM_WRITE FSOM_OPEN_APPEND ok]
                   @ [Printf (''Ready'' @ CRLF) []]
                   @ [FileClose, FileFree, RecordClose])"
        unfolding w' by (simp add: prim_traces t4 t3)
      ultimately show ?thesis by blast
    next
      case nz: False
      from assms True nz obtain buffer w5 where cr: "cli_read (unat n) W4 = Some (buffer, w5)"
        unfolding e by (cases "cli_read (unat n) W4") auto
      obtain k file2 w6 where wr: "storage_file_write env file1 buffer w5 = (k, file2, w6)"
        by (metis prod_cases3)
      have w': "w' = furi_record_close (storage_file_free (storage_file_close
          (if k \<noteq> unat n then storage_cli_print_error env (storage_file_get_error file2) w6
           else w6)))"
        using assms True nz unfolding e by (simp add: cr wr)
      have t5: "trace w5 = trace W4 @ [CliRead (unat n) buffer]"
        using cr by (rule cli_read_trace)
      have t6: "trace w6 = trace w5 @ [FileWrite buffer k]"
        using write_trace [OF wr] by simp
      have "list_all quiet ([Printf (''Ready'' @ CRLF) [], CliRead (unat n) buffer, FileWrite buffer k]
          @ (if k \<noteq> unat n then [error_line env (storage_file_get_error file2)] else []))"
        by (simp add: quiet_error_line)
      moreover have "trace w' =
        trace w @ ([RecordOpen, FileAlloc, FileOpen path FSAM_WRITE FSOM_OPEN_APPEND ok]
                   @ ([Printf (''Ready'' @ CRLF) [], CliRead (unat n) buffer, FileWrite buffer k]
                      @ (if k \<noteq> unat n then [error_line env (storage_file_get_error file2)] else []))
                   @ [FileClose, FileFree, RecordClose])"
        unfolding w' by (simp add: prim_traces t6 t5 t4 t3 error_line_def)
      ultimately show ?thesis by blast
    qed
  qed
  then obtain mid where q: "list_all quiet mid"
    and t: "trace w' =
      trace w @ ([RecordOpen, FileAlloc, FileOpen path FSAM_WRITE FSOM_OPEN_APPEND ok] @ mid
                 @ [FileClose, FileFree, RecordClose])"
    by blast
  show ?thesis
    unfolding new_events_append [OF t] using q by (rule released_file_frame)
qed


lemma find_Some_mem: "find P xs = Some x \<Longrightarrow> x \<in> set xs \<and> P x"
  by (induction xs) (auto split: if_splits)

lemma released_storage_cli:
  assumes "storage_cli env line w = Some w'"
  shows "released (new_events w w')"
proof (cases "args_read_string_and_trim env line")
  case None
  with assms show ?thesis by (auto simp: storage_cli_def released_usage)
next
  case (Some a)
  obtain cmd args1 where a: "a = (cmd, args1)" by (cases a)
  show ?thesis
  proof (cases "args_read_probably_quoted_string_and_trim env args1")
    case None
    with assms Some a show ?thesis by (auto simp: storage_cli_def released_usage)
  next
    case b: (Some b)
    obtain path args2 where b': "b = (path, args2)" by (cases b)
    from dispatch_eq [of env line cmd args1 path args2 w] Some a b b' assms
    have d: "(case first_match cmd of None \<Rightarrow> Some (storage_cli_print_usage w)
              | Some h \<Rightarrow> h env path args2 w) = Some w'"
      by simp
    show ?thesis
    proof (cases "first_match cmd")
      case None
      with d show ?thesis by (auto simp: released_usage)
    next
      case h: (Some h)
      then obtain entry where "find (\<lambda>entry. cmd = fst entry) verb_table = Some entry"
        and "snd entry = h"
        by (auto simp: first_match_def)
      then have "entry \<in> set verb_table" and "entry = (cmd, h)"
        by (auto dest: find_Some_mem)
      then have "(cmd, h) \<in> set verb_table" by simp
      then show ?thesis
        using d h
        by (auto simp: verb_table_def released_info released_list released_tree released_read
            released_copy released_remove released_rename released_migrate released_mkdir
            released_md5 released_stat released_timestamp
            intro: released_format released_write released_read_chunks released_write_chunk)
    qed
  qed
qed

lemma released_rejects_leak:
  "\<not> released [RecordOpen, FileAlloc, FileOpen p am om True, FileFree, RecordClose]"
  "\<not> released [RecordOpen, FileAlloc, FileOpen p am om True, FileClose, RecordClose]"
  "\<not> released [RecordOpen, FileAlloc, FileClose, FileFree]"
  by (simp_all add: released_def no_handles_def)

section \<open>The loop of write\<close>

lemma take_one_update: "0 < length xs \<Longrightarrow> take (Suc 0) (xs[0 := y]) = [y]"
  by (cases xs) simp_all

lemma unat_succ_mod_512:
  "unat (idx + 1 :: 32 word) mod 512 = (unat idx mod 512 + 1) mod 512"
proof -
  have "unat (idx + 1) = (unat idx + 1) mod 2 ^ 32"
    by (simp add: unat_word_ariths)
  moreover have "((unat idx + 1) mod 2 ^ 32) mod 512 = (unat idx + 1) mod 512"
    by (rule mod_mod_cancel) simp
  moreover have "(unat idx + 1) mod 512 = (unat idx mod 512 + 1) mod 512"
    by (rule mod_add_left_eq [symmetric])
  ultimately show ?thesis by (simp only:)
qed

lemma take_update_last:
  "p < length xs \<Longrightarrow> take (Suc p) (xs[p := c]) = take p xs @ [c]"
  by (simp add: take_Suc_conv_app_nth)

lemma write_step_data:
  assumes "cin w = c # cs" and "\<not> (c = CliSymbolAsciiETX \<and> 0 < unat idx mod 512)"
    and "(unat idx mod 512 + 1) mod 512 \<noteq> 0"
  shows "write_loop env buffer idx fl w =
           write_loop env (buffer[unat idx mod 512 := c]) (idx + 1) fl
             (emit Fflush (printf ''%c'' [ArgChar ((buffer[unat idx mod 512 := c]) ! (unat idx mod 512))]
                (emit (Getc c) (w\<lparr>cin := cs\<rparr>))))"
proof -
  have g: "cli_getc w = Some (c, emit (Getc c) (w\<lparr>cin := cs\<rparr>))"
    using assms(1) by (rule cli_getc_Cons)
  have cond: "(c = CliSymbolAsciiETX \<and> 0 < unat idx mod 512) = False" using assms(2) by simp
  have cz: "(unat (idx + 1) mod 512 = 0) = False"
    using assms(3) by (simp add: unat_succ_mod_512)
  show ?thesis
    by (subst write_loop.simps) (simp only: g option.case prod.case cond if_False Let_def cz)
qed

lemma write_step_flush:
  assumes "cin w = c # cs" and "\<not> (c = CliSymbolAsciiETX \<and> 0 < unat idx mod 512)"
    and "(unat idx mod 512 + 1) mod 512 = 0"
  shows "write_loop env buffer idx fl w =
           (case storage_file_write env fl (take 512 (buffer[unat idx mod 512 := c]))
                   (emit Fflush (printf ''%c'' [ArgChar ((buffer[unat idx mod 512 := c]) ! (unat idx mod 512))]
                      (emit (Getc c) (w\<lparr>cin := cs\<rparr>)))) of
              (written_size, file', w3) \<Rightarrow>
                if written_size \<noteq> 512
                then Some (storage_cli_print_error env (storage_file_get_error file') w3)
                else write_loop env (buffer[unat idx mod 512 := c]) (idx + 1) file' w3)"
proof -
  have g: "cli_getc w = Some (c, emit (Getc c) (w\<lparr>cin := cs\<rparr>))"
    using assms(1) by (rule cli_getc_Cons)
  have cond: "(c = CliSymbolAsciiETX \<and> 0 < unat idx mod 512) = False" using assms(2) by simp
  have cz: "(unat (idx + 1) mod 512 = 0) = True"
    using assms(3) by (simp add: unat_succ_mod_512)
  show ?thesis
    by (subst write_loop.simps) (simp only: g option.case prod.case cond if_False if_True Let_def cz)
qed

lemma write_step_cancel:
  assumes "cin w = CliSymbolAsciiETX # cs" and "0 < unat idx mod 512"
  shows "write_loop env buffer idx fl w =
           (case storage_file_write env fl (take (unat idx mod 512) buffer)
                   (emit (Getc CliSymbolAsciiETX) (w\<lparr>cin := cs\<rparr>)) of
              (written_size, file', w2) \<Rightarrow>
                Some (if written_size \<noteq> unat idx mod 512
                      then storage_cli_print_error env (storage_file_get_error file') w2
                      else w2))"
proof -
  have g: "cli_getc w = Some (CliSymbolAsciiETX, emit (Getc CliSymbolAsciiETX) (w\<lparr>cin := cs\<rparr>))"
    using assms(1) by (rule cli_getc_Cons)
  have cond: "(CliSymbolAsciiETX = CliSymbolAsciiETX \<and> 0 < unat idx mod 512) = True"
    using assms(2) by simp
  show ?thesis
    by (subst write_loop.simps) (simp only: g option.case prod.case cond if_True)
qed

lemma write_step_blocked:
  "cin w = [] \<Longrightarrow> write_loop env buffer idx fl w = None"
  by (subst write_loop.simps) (simp add: cli_getc_Nil)


lemma succ_mod_512: "p < 512 \<Longrightarrow> (p + 1) mod 512 = 0 \<longleftrightarrow> p = (511 :: nat)"
  by presburger

lemma write_full:
  "length data \<le> room w \<Longrightarrow>
   storage_file_write env fl data w =
     (length data, fl\<lparr>error_id := FSE_OK\<rparr>,
      emit (FileWrite data (length data))
        (w\<lparr>files := (files w)(fpath fl \<mapsto> content_of w (fpath fl) @ data),
           room := room w - length data\<rparr>))"
  by (simp add: storage_file_write_def Let_def min_def)

lemma content_of_emit: "content_of (emit e w) p = content_of w p"
  by (simp add: content_of_def emit_simps)

lemma content_of_printf: "content_of (printf fmt as w) p = content_of w p"
  by (simp add: content_of_def printf_simps)

lemma write_loop_data:
  assumes "CliSymbolAsciiETX \<notin> set s"
  shows "length buffer = 512 \<Longrightarrow> fpath fl = path \<Longrightarrow> cin w = s @ rest \<Longrightarrow>
    unat idx mod 512 + length s \<le> room w \<Longrightarrow>
    \<exists>buffer' idx' fl' w'.
       write_loop env buffer idx fl w = write_loop env buffer' idx' fl' w'
       \<and> length buffer' = 512 \<and> fpath fl' = path \<and> cin w' = rest
       \<and> unat idx' mod 512 = (unat idx mod 512 + length s) mod 512
       \<and> content_of w' path @ take (unat idx' mod 512) buffer'
           = content_of w path @ take (unat idx mod 512) buffer @ s
       \<and> room w' + unat idx mod 512 + length s = room w + unat idx' mod 512"
  using assms
proof (induction s arbitrary: buffer idx fl w)
  case Nil
  then show ?case by auto
next
  case (Cons c s)
  let ?p = "unat idx mod 512"
  have p: "?p < 512" by simp
  have c: "c \<noteq> CliSymbolAsciiETX" and s: "CliSymbolAsciiETX \<notin> set s"
    using Cons.prems(5) by auto
  have cin: "cin w = c # (s @ rest)" using Cons.prems(3) by simp
  have nc: "\<not> (c = CliSymbolAsciiETX \<and> 0 < ?p)" using c by simp
  define b' where "b' = buffer[?p := c]"
  have lb: "length b' = 512" using Cons.prems(1) by (simp add: b'_def)
  define w2 where "w2 = emit Fflush (printf ''%c'' [ArgChar (b' ! ?p)] (emit (Getc c) (w\<lparr>cin := s @ rest\<rparr>)))"
  have c2: "cin w2 = s @ rest" and r2: "room w2 = room w"
    and f2: "files w2 = files w"
    by (simp_all add: w2_def emit_simps printf_simps)
  have k2: "content_of w2 path = content_of w path"
    by (simp add: content_of_def f2)
  have tk: "take (Suc ?p) b' = take ?p buffer @ [c]"
    unfolding b'_def using p Cons.prems(1) by (intro take_update_last) simp
  show ?case
  proof (cases "(?p + 1) mod 512 = 0")
    case False
    then have "?p \<noteq> 511" using succ_mod_512 [OF p] by simp
    then have "?p + 1 < 512" using p by arith
    then have "(?p + 1) mod 512 = ?p + 1" by (rule mod_less)
    then have p1: "unat (idx + 1) mod 512 = ?p + 1"
      by (simp only: unat_succ_mod_512)
    have step: "write_loop env buffer idx fl w = write_loop env b' (idx + 1) fl w2"
      unfolding b'_def w2_def using cin nc False by (rule write_step_data)
    have rm: "unat (idx + 1) mod 512 + length s \<le> room w2"
      using Cons.prems(4) by (simp add: p1 r2)
    from Cons.IH [OF lb Cons.prems(2) c2 rm s]
    obtain buffer'' idx'' fl'' w'' where
      e: "write_loop env b' (idx + 1) fl w2 = write_loop env buffer'' idx'' fl'' w''"
      and l: "length buffer'' = 512" and fp: "fpath fl'' = path" and ci: "cin w'' = rest"
      and pp: "unat idx'' mod 512 = (unat (idx + 1) mod 512 + length s) mod 512"
      and co: "content_of w'' path @ take (unat idx'' mod 512) buffer''
           = content_of w2 path @ take (unat (idx + 1) mod 512) b' @ s"
      and ro: "room w'' + unat (idx + 1) mod 512 + length s = room w2 + unat idx'' mod 512"
      by blast
    have "write_loop env buffer idx fl w = write_loop env buffer'' idx'' fl'' w''"
      using step e by simp
    moreover have "unat idx'' mod 512 = (?p + length (c # s)) mod 512"
      using pp by (simp add: p1)
    moreover have "content_of w'' path @ take (unat idx'' mod 512) buffer''
           = content_of w path @ take ?p buffer @ c # s"
      using co by (simp add: p1 k2 tk)
    moreover have "room w'' + ?p + length (c # s) = room w + unat idx'' mod 512"
      using ro by (simp add: p1 r2)
    ultimately show ?thesis using l fp ci by blast
  next
    case True
    then have p511: "?p = 511" using succ_mod_512 [OF p] by simp
    have p1: "unat (idx + 1) mod 512 = 0"
      using True by (simp add: unat_succ_mod_512)
    have full: "take 512 b' = b'" using lb by simp
    have room: "length (take 512 b') \<le> room w2"
      using Cons.prems(4) lb by (simp add: p511 r2)
    define w3 where "w3 = emit (FileWrite b' 512)
        (w2\<lparr>files := (files w2)(fpath fl \<mapsto> content_of w2 (fpath fl) @ b'),
            room := room w2 - 512\<rparr>)"
    have wr: "storage_file_write env fl (take 512 b') w2 = (512, fl\<lparr>error_id := FSE_OK\<rparr>, w3)"
      using write_full [OF room] lb by (simp add: full w3_def)
    have step: "write_loop env buffer idx fl w =
        write_loop env b' (idx + 1) (fl\<lparr>error_id := FSE_OK\<rparr>) w3"
    proof -
      have "write_loop env buffer idx fl w =
           (case storage_file_write env fl (take 512 b') w2 of
              (written_size, file', w3) \<Rightarrow>
                if written_size \<noteq> 512
                then Some (storage_cli_print_error env (storage_file_get_error file') w3)
                else write_loop env b' (idx + 1) file' w3)"
        unfolding b'_def w2_def using cin nc True by (rule write_step_flush)
      then show ?thesis by (simp add: wr)
    qed
    have c3: "cin w3 = s @ rest" and r3: "room w3 = room w - 512"
      by (simp_all add: w3_def emit_simps c2 r2)
    have k3: "content_of w3 path = content_of w path @ b'"
      using Cons.prems(2) by (simp add: content_of_def w3_def emit_simps f2)
    have fp3: "fpath (fl\<lparr>error_id := FSE_OK\<rparr>) = path" using Cons.prems(2) by simp
    have rm: "unat (idx + 1) mod 512 + length s \<le> room w3"
      using Cons.prems(4) by (simp add: p1 r3 p511)
    from Cons.IH [OF lb fp3 c3 rm s]
    obtain buffer'' idx'' fl'' w'' where
      e: "write_loop env b' (idx + 1) (fl\<lparr>error_id := FSE_OK\<rparr>) w3
            = write_loop env buffer'' idx'' fl'' w''"
      and l: "length buffer'' = 512" and fp: "fpath fl'' = path" and ci: "cin w'' = rest"
      and pp: "unat idx'' mod 512 = (unat (idx + 1) mod 512 + length s) mod 512"
      and co: "content_of w'' path @ take (unat idx'' mod 512) buffer''
           = content_of w3 path @ take (unat (idx + 1) mod 512) b' @ s"
      and ro: "room w'' + unat (idx + 1) mod 512 + length s = room w3 + unat idx'' mod 512"
      by blast
    have b'eq: "b' = take ?p buffer @ [c]"
      using tk lb by (simp add: p511)
    have "write_loop env buffer idx fl w = write_loop env buffer'' idx'' fl'' w''"
      using step e by simp
    moreover have "unat idx'' mod 512 = (?p + length (c # s)) mod 512"
      using pp by (simp add: p1 p511 mod_Suc_eq mod_add_left_eq flip: add_Suc)
    moreover have "content_of w'' path @ take (unat idx'' mod 512) buffer''
           = content_of w path @ take ?p buffer @ c # s"
      using co b'eq by (simp add: p1 k3)
    moreover have "room w'' + ?p + length (c # s) = room w + unat idx'' mod 512"
      using ro Cons.prems(4) by (simp add: p1 r3 p511)
    ultimately show ?thesis using l fp ci by blast
  qed
qed


lemma write_loop_cancel_off_boundary:
  assumes "CliSymbolAsciiETX \<notin> set s" and "length buffer = 512" and "fpath fl = path"
    and "cin w = s @ CliSymbolAsciiETX # rest" and "unat idx mod 512 + length s \<le> room w"
    and "(unat idx mod 512 + length s) mod 512 \<noteq> 0"
  shows "\<exists>w'. write_loop env buffer idx fl w = Some w'
      \<and> content_of w' path = content_of w path @ take (unat idx mod 512) buffer @ s
      \<and> cin w' = rest"
proof -
  from write_loop_data [OF assms(1,2,3,4,5)]
  obtain buffer' idx' fl' w1 where
    e: "write_loop env buffer idx fl w = write_loop env buffer' idx' fl' w1"
    and l: "length buffer' = 512" and fp: "fpath fl' = path"
    and ci: "cin w1 = CliSymbolAsciiETX # rest"
    and pp: "unat idx' mod 512 = (unat idx mod 512 + length s) mod 512"
    and co: "content_of w1 path @ take (unat idx' mod 512) buffer'
           = content_of w path @ take (unat idx mod 512) buffer @ s"
    and ro: "room w1 + unat idx mod 512 + length s = room w + unat idx' mod 512"
    by blast
  let ?p = "unat idx' mod 512"
  have pos: "0 < ?p" using pp assms(6) by simp
  define w2 where "w2 = emit (Getc CliSymbolAsciiETX) (w1\<lparr>cin := rest\<rparr>)"
  have r2: "room w2 = room w1" and c2: "cin w2 = rest" and f2: "files w2 = files w1"
    by (simp_all add: w2_def emit_simps)
  have len: "length (take ?p buffer') = ?p" using l by simp
  have room: "length (take ?p buffer') \<le> room w2"
    using ro assms(5) by (simp add: len r2)
  define w3 where "w3 = emit (FileWrite (take ?p buffer') ?p)
      (w2\<lparr>files := (files w2)(fpath fl' \<mapsto> content_of w2 (fpath fl') @ take ?p buffer'),
          room := room w2 - ?p\<rparr>)"
  have wr: "storage_file_write env fl' (take ?p buffer') w2 = (?p, fl'\<lparr>error_id := FSE_OK\<rparr>, w3)"
    using write_full [OF room] by (simp only: len w3_def)
  have "write_loop env buffer' idx' fl' w1 =
           (case storage_file_write env fl' (take ?p buffer') w2 of
              (written_size, file', w2) \<Rightarrow>
                Some (if written_size \<noteq> ?p
                      then storage_cli_print_error env (storage_file_get_error file') w2
                      else w2))"
    unfolding w2_def using ci pos by (rule write_step_cancel)
  then have r: "write_loop env buffer idx fl w = Some w3"
    using e by (simp add: wr)
  have "content_of w3 path = content_of w1 path @ take ?p buffer'"
    using fp by (simp add: w3_def content_of_def emit_simps f2)
  then have "content_of w3 path = content_of w path @ take (unat idx mod 512) buffer @ s"
    using co by simp
  moreover have "cin w3 = rest" by (simp add: w3_def emit_simps c2)
  ultimately show ?thesis using r by blast
qed

lemma write_loop_cancel_at_boundary:
  assumes "CliSymbolAsciiETX \<notin> set s" and "length buffer = 512" and "fpath fl = path"
    and "cin w = s @ [CliSymbolAsciiETX]" and "unat idx mod 512 + length s \<le> room w"
    and "(unat idx mod 512 + length s) mod 512 = 0"
  shows "write_loop env buffer idx fl w = None"
proof -
  from write_loop_data [OF assms(1,2,3,4,5)]
  obtain buffer' idx' fl' w1 where
    e: "write_loop env buffer idx fl w = write_loop env buffer' idx' fl' w1"
    and ci: "cin w1 = [CliSymbolAsciiETX]"
    and pp: "unat idx' mod 512 = (unat idx mod 512 + length s) mod 512"
    by blast
  have z: "unat idx' mod 512 = 0" using pp assms(6) by simp
  have nc: "\<not> (CliSymbolAsciiETX = CliSymbolAsciiETX \<and> 0 < unat idx' mod 512)"
    by (simp add: z)
  have nf: "(unat idx' mod 512 + 1) mod 512 \<noteq> 0" by (simp add: z)
  have "write_loop env buffer' idx' fl' w1 =
      write_loop env (buffer'[unat idx' mod 512 := CliSymbolAsciiETX]) (idx' + 1) fl'
        (emit Fflush (printf ''%c''
            [ArgChar ((buffer'[unat idx' mod 512 := CliSymbolAsciiETX]) ! (unat idx' mod 512))]
            (emit (Getc CliSymbolAsciiETX) (w1\<lparr>cin := []\<rparr>))))"
    using ci nc nf by (rule write_step_data)
  also have "\<dots> = None"
    by (rule write_step_blocked) (simp add: emit_simps printf_simps)
  finally show ?thesis using e by simp
qed

lemma write_opened:
  assumes "open_fault env path = FSE_OK"
  shows "\<exists>fl W. storage_cli_write env path w =
            map_option (\<lambda>w4. furi_record_close (storage_file_free (storage_file_close w4)))
              (map_option (printf CRLF []) (write_loop env (replicate 512 0) 0 fl W))
          \<and> fpath fl = path \<and> cin W = cin w \<and> room W = room w
          \<and> content_of W path = content_of w path"
proof -
  define fl where "fl = \<lparr>fpath = path, fpos = length (content_of (emit FileAlloc (furi_record_open w)) path),
      is_open = True, error_id = FSE_OK\<rparr>"
  define W where "W =
    printf (''Just write your text data. New line by Ctrl+Enter, exit by Ctrl+C.'' @ CRLF) []
      (emit (FileOpen path FSAM_WRITE FSOM_OPEN_APPEND True)
        ((emit FileAlloc (furi_record_open w))
           \<lparr>files := (files (emit FileAlloc (furi_record_open w)))
                (path \<mapsto> content_of (emit FileAlloc (furi_record_open w)) path)\<rparr>))"
  have "storage_cli_write env path w =
            map_option (\<lambda>w4. furi_record_close (storage_file_free (storage_file_close w4)))
              (map_option (printf CRLF []) (write_loop env (replicate 512 0) 0 fl W))"
    unfolding fl_def W_def using assms
    by (simp add: storage_cli_write_def storage_file_alloc_def storage_file_open_def Let_def)
  moreover have "fpath fl = path" by (simp add: fl_def)
  moreover have "cin W = cin w" "room W = room w"
    by (simp_all add: W_def printf_simps emit_simps furi_record_open_def)
  moreover have "content_of W path = content_of w path"
    by (simp add: W_def content_of_def printf_simps emit_simps furi_record_open_def)
  ultimately show ?thesis by blast
qed

lemma close_simps:
  "content_of (furi_record_close (storage_file_free (storage_file_close (printf fmt as w)))) p
     = content_of w p"
  "cin (furi_record_close (storage_file_free (storage_file_close (printf fmt as w)))) = cin w"
  by (simp_all add: content_of_def furi_record_close_def storage_file_free_def
      storage_file_close_def emit_simps printf_simps)

lemma write_round_trip_off_boundary:
  assumes "open_fault env path = FSE_OK" and "CliSymbolAsciiETX \<notin> set s"
    and "cin w = s @ CliSymbolAsciiETX # rest" and "length s \<le> room w"
    and "length s mod 512 \<noteq> 0"
  shows "\<exists>w'. storage_cli_write env path w = Some w'
      \<and> content_of w' path = content_of w path @ s \<and> cin w' = rest"
proof -
  from write_opened [OF assms(1)] obtain fl W where
    e: "storage_cli_write env path w =
            map_option (\<lambda>w4. furi_record_close (storage_file_free (storage_file_close w4)))
              (map_option (printf CRLF []) (write_loop env (replicate 512 0) 0 fl W))"
    and fp: "fpath fl = path" and ci: "cin W = cin w" and ro: "room W = room w"
    and co: "content_of W path = content_of w path"
    by blast
  have a4: "cin W = s @ CliSymbolAsciiETX # rest" using ci assms(3) by simp
  have a5: "unat (0 :: 32 word) mod 512 + length s \<le> room W" using ro assms(4) by simp
  have a6: "(unat (0 :: 32 word) mod 512 + length s) mod 512 \<noteq> 0" using assms(5) by simp
  have lb: "length (replicate 512 (0 :: byte)) = 512" by simp
  from write_loop_cancel_off_boundary [OF assms(2) lb fp a4 a5 a6]
  obtain w6 where r: "write_loop env (replicate 512 0) 0 fl W = Some w6"
    and c6: "content_of w6 path = content_of W path @ s" and i6: "cin w6 = rest"
    by auto
  have "storage_cli_write env path w =
      Some (furi_record_close (storage_file_free (storage_file_close (printf CRLF [] w6))))"
    unfolding e r by simp
  then show ?thesis
    using c6 i6 co by (simp add: close_simps)
qed

lemma write_cancel_ignored_at_boundary:
  assumes "open_fault env path = FSE_OK" and "CliSymbolAsciiETX \<notin> set s"
    and "cin w = s @ [CliSymbolAsciiETX]" and "length s \<le> room w"
    and "length s mod 512 = 0"
  shows "storage_cli_write env path w = None"
proof -
  from write_opened [OF assms(1)] obtain fl W where
    e: "storage_cli_write env path w =
            map_option (\<lambda>w4. furi_record_close (storage_file_free (storage_file_close w4)))
              (map_option (printf CRLF []) (write_loop env (replicate 512 0) 0 fl W))"
    and fp: "fpath fl = path" and ci: "cin W = cin w" and ro: "room W = room w"
    by blast
  have a4: "cin W = s @ [CliSymbolAsciiETX]" using ci assms(3) by simp
  have a5: "unat (0 :: 32 word) mod 512 + length s \<le> room W" using ro assms(4) by simp
  have a6: "(unat (0 :: 32 word) mod 512 + length s) mod 512 = 0" using assms(5) by simp
  have lb: "length (replicate 512 (0 :: byte)) = 512" by simp
  have "write_loop env (replicate 512 0) 0 fl W = None"
    by (rule write_loop_cancel_at_boundary [OF assms(2) lb fp a4 a5 a6])
  then show ?thesis unfolding e by simp
qed

section \<open>Claims\<close>

text \<open>
  C1. Write until cancel. The claim asks that \<open>k\<close> symbols followed by the cancel symbol
  leave a file of exactly those symbols and end the session, for every \<open>k\<close>. Away from
  a buffer boundary the handler does so (\<open>write_round_trip_off_boundary\<close>). When \<open>k\<close> is
  a multiple of 512 it does not (\<open>write_cancel_ignored_at_boundary\<close>): the pending size is
  zero, the only \<^verbatim>\<open>break\<close> of the cancel branch is skipped, and the cancel symbol is
  stored and echoed like any other symbol. Evaluated for \<open>k = 0\<close>: after the cancel
  symbol alone the handler is still waiting for input, and a second cancel symbol ends
  the session with a file that holds the first one.
\<close>

theorem write_cancel_at_boundary:
  "storage_cli_write sample_env ''/ext/new'' (sample_world [CliSymbolAsciiETX]) = None
   \<and> (\<exists>w'. storage_cli_write sample_env ''/ext/new''
               (sample_world [CliSymbolAsciiETX, CliSymbolAsciiETX]) = Some w'
         \<and> files w' ''/ext/new'' = Some [CliSymbolAsciiETX] \<and> cin w' = [])"
proof (intro conjI)
  show "storage_cli_write sample_env ''/ext/new'' (sample_world [CliSymbolAsciiETX]) = None"
    by (simp add: storage_cli_write_def storage_file_alloc_def storage_file_open_def
        write_loop.simps cli_getc_def sample_env_def sample_world_def CliSymbolAsciiETX_def
        furi_record_open_def printf_def emit_def content_of_def Let_def)
next
  show "\<exists>w'. storage_cli_write sample_env ''/ext/new''
               (sample_world [CliSymbolAsciiETX, CliSymbolAsciiETX]) = Some w'
         \<and> files w' ''/ext/new'' = Some [CliSymbolAsciiETX] \<and> cin w' = []"
    by (simp add: storage_cli_write_def storage_file_alloc_def storage_file_open_def
        storage_file_write_def storage_file_close_def storage_file_free_def
        furi_record_close_def take_one_update
        write_loop.simps cli_getc_def sample_env_def sample_world_def CliSymbolAsciiETX_def
        furi_record_open_def printf_def emit_def content_of_def Let_def)
qed

text \<open>
  C2. Read in chunks. With a parsed chunk size \<open>n\<close>, a file of \<open>L\<close> bytes (\<open>L\<close> below
  \<open>2^64\<close>, the range of the size counter) that opens, and a console that delivers one
  acknowledgment byte per chunk, the handler returns; it prints the size, then for each
  chunk of the content in order prints the prompt, consumes one console byte, reads the
  chunk and puts its bytes, and finally prints the line end and releases the handle. For
  \<open>n > 0\<close> the chunks concatenate to the content and there are \<open>ceil(L/n)\<close> of them; for
  \<open>n = 0\<close> there is none, so only the size header and the line end are printed and no
  console byte is consumed.
\<close>

theorem read_in_chunks:
  assumes "sscanf_lu env args = Some n" and "open_fault env path = FSE_OK"
    and "files w path = Some content" and "length content < 2 ^ 64"
    and "cin w = acks @ rest" and "length acks = length (chunks (unat n) content)"
  shows "(\<exists>w'. storage_cli_read_chunks env path args w = Some w'
            \<and> new_events w w' =
                [RecordOpen, FileAlloc, FileOpen path FSAM_READ FSOM_OPEN_EXISTING True, FileSize,
                 Printf (''Size: %llu'' @ CRLF) [ArgU64 (of_nat (length content))]]
                @ concat (map2 (chunk_events (unat n)) acks (chunks (unat n) content))
                @ [Printf CRLF [], FileClose, FileFree, RecordClose]
            \<and> cin w' = rest \<and> files w' = files w)
       \<and> (n \<noteq> 0 \<longrightarrow> concat (chunks (unat n) content) = content
              \<and> length (chunks (unat n) content) = (length content + unat n - 1) div unat n)
       \<and> (n = 0 \<longrightarrow> chunks (unat n) content = [])"
proof (intro conjI impI)
  define F where "F = \<lparr>fpath = path, fpos = 0, is_open = True, error_id = FSE_OK\<rparr>"
  define W5 where "W5 =
    printf (''Size: %llu'' @ CRLF) [ArgU64 (of_nat (length content))]
      (emit FileSize
        (emit (FileOpen path FSAM_READ FSOM_OPEN_EXISTING True)
          ((emit FileAlloc (furi_record_open w))
             \<lparr>files := (files (emit FileAlloc (furi_record_open w)))(path \<mapsto> content)\<rparr>)))"
  have fw: "(files w)(path \<mapsto> content) = files w"
    using assms(3) by (rule map_upd_triv)
  have unf: "storage_cli_read_chunks env path args w =
      map_option (\<lambda>w'. furi_record_close (storage_file_free (storage_file_close w')))
        (map_option (printf CRLF [])
          (if n \<noteq> 0 then read_chunks_loop n (of_nat (length content)) F W5 else Some W5))"
    unfolding W5_def F_def using assms(1-3)
    by (simp add: storage_cli_read_chunks_def storage_file_alloc_def storage_file_open_def
        storage_file_size_def content_of_def furi_record_open_def emit_simps Let_def)
  have t5: "trace W5 = trace w @
      [RecordOpen, FileAlloc, FileOpen path FSAM_READ FSOM_OPEN_EXISTING True, FileSize,
       Printf (''Size: %llu'' @ CRLF) [ArgU64 (of_nat (length content))]]"
    unfolding W5_def by (simp add: printf_simps emit_simps record_simps)
  have c5: "cin W5 = cin w"
    unfolding W5_def by (simp add: printf_simps emit_simps furi_record_open_def)
  have f5: "files W5 = files w"
    unfolding W5_def by (simp add: printf_simps emit_simps furi_record_open_def fw)
  have "\<exists>w6. (if n \<noteq> 0 then read_chunks_loop n (of_nat (length content)) F W5 else Some W5) = Some w6
      \<and> trace w6 = trace W5 @ concat (map2 (chunk_events (unat n)) acks (chunks (unat n) content))
      \<and> cin w6 = rest \<and> files w6 = files W5"
  proof (cases "n = 0")
    case True
    then have "chunks (unat n) content = []" by (simp add: chunks_zero)
    with assms(5,6) True c5 show ?thesis by simp
  next
    case False
    then have n: "0 < unat n" by (simp add: unat_gt_0)
    have d: "drop (fpos F) (content_of W5 (fpath F)) = content"
      using assms(3) by (simp add: F_def content_of_def f5)
    have c: "cin W5 = acks @ rest" using c5 assms(5) by simp
    from read_chunks_loop_run [OF n d assms(4) c assms(6)] False
    show ?thesis by auto
  qed
  then obtain w6 where
    r: "(if n \<noteq> 0 then read_chunks_loop n (of_nat (length content)) F W5 else Some W5) = Some w6"
    and t6: "trace w6 = trace W5 @ concat (map2 (chunk_events (unat n)) acks (chunks (unat n) content))"
    and c6: "cin w6 = rest" and f6: "files w6 = files W5"
    by blast
  let ?w' = "furi_record_close (storage_file_free (storage_file_close (printf CRLF [] w6)))"
  have res: "storage_cli_read_chunks env path args w = Some ?w'"
    unfolding unf r by simp
  have tr: "trace ?w' = trace w @
      ([RecordOpen, FileAlloc, FileOpen path FSAM_READ FSOM_OPEN_EXISTING True, FileSize,
        Printf (''Size: %llu'' @ CRLF) [ArgU64 (of_nat (length content))]]
       @ concat (map2 (chunk_events (unat n)) acks (chunks (unat n) content))
       @ [Printf CRLF [], FileClose, FileFree, RecordClose])"
    by (simp add: record_simps printf_simps t6 t5)
  have ev: "new_events w ?w' =
      [RecordOpen, FileAlloc, FileOpen path FSAM_READ FSOM_OPEN_EXISTING True, FileSize,
        Printf (''Size: %llu'' @ CRLF) [ArgU64 (of_nat (length content))]]
       @ concat (map2 (chunk_events (unat n)) acks (chunks (unat n) content))
       @ [Printf CRLF [], FileClose, FileFree, RecordClose]"
    using tr by (rule new_events_append)
  have cw: "cin ?w' = rest"
    by (simp add: furi_record_close_def storage_file_free_def storage_file_close_def
        emit_simps printf_simps c6)
  have fl: "files ?w' = files w"
    by (simp add: furi_record_close_def storage_file_free_def storage_file_close_def
        emit_simps printf_simps f6 f5)
  from res ev cw fl
  show "\<exists>w'. storage_cli_read_chunks env path args w = Some w'
            \<and> new_events w w' =
                [RecordOpen, FileAlloc, FileOpen path FSAM_READ FSOM_OPEN_EXISTING True, FileSize,
                 Printf (''Size: %llu'' @ CRLF) [ArgU64 (of_nat (length content))]]
                @ concat (map2 (chunk_events (unat n)) acks (chunks (unat n) content))
                @ [Printf CRLF [], FileClose, FileFree, RecordClose]
            \<and> cin w' = rest \<and> files w' = files w"
    by blast
next
  assume "n \<noteq> 0"
  then have n: "0 < unat n" by (simp add: unat_gt_0)
  show "concat (chunks (unat n) content) = content"
    using n by (rule chunks_concat)
  show "length (chunks (unat n) content) = (length content + unat n - 1) div unat n"
    using n by (rule chunks_length)
next
  assume "n = 0"
  then show "chunks (unat n) content = []" by (simp add: chunks_zero)
qed


theorem read_in_chunks_witness:
  "\<exists>w'. storage_cli_read_chunks sample_env ''/ext/a'' ''2'' (sample_world [10, 11, 12, 13]) = Some w'
     \<and> new_events (sample_world [10, 11, 12, 13]) w' =
         [RecordOpen, FileAlloc, FileOpen ''/ext/a'' FSAM_READ FSOM_OPEN_EXISTING True, FileSize,
          Printf (''Size: %llu'' @ CRLF) [ArgU64 5],
          Printf (CRLF @ ''Ready?'' @ CRLF) [], Getc 10, FileRead 2 [1, 2], Putchar 1, Putchar 2,
          Printf (CRLF @ ''Ready?'' @ CRLF) [], Getc 11, FileRead 2 [3, 4], Putchar 3, Putchar 4,
          Printf (CRLF @ ''Ready?'' @ CRLF) [], Getc 12, FileRead 2 [5], Putchar 5,
          Printf CRLF [], FileClose, FileFree, RecordClose]
     \<and> cin w' = [13]"
proof -
  have u: "unat (2 :: 32 word) = 2" by simp
  have ch: "chunks 2 [1, 2, 3, 4, 5 :: byte] = [1, 2] # [3, 4] # [5] # []"
    by (simp add: chunks.simps)
  have h1: "sscanf_lu sample_env ''2'' = Some 2" by (simp add: sample_env_def)
  have h2: "open_fault sample_env ''/ext/a'' = FSE_OK" by (simp add: sample_env_def)
  have h3: "files (sample_world [10, 11, 12, 13]) ''/ext/a'' = Some [1, 2, 3, 4, 5]"
    by (simp add: sample_world_def)
  have h4: "length [1, 2, 3, 4, 5 :: byte] < 2 ^ 64" by simp
  have h5: "cin (sample_world [10, 11, 12, 13]) = [10, 11, 12] @ [13]"
    by (simp add: sample_world_def)
  have h6: "length [10, 11, 12 :: byte] = length (chunks (unat (2 :: 32 word)) [1, 2, 3, 4, 5 :: byte])"
    unfolding u ch by simp
  have l: "(of_nat (length [1, 2, 3, 4, 5 :: byte]) :: 64 word) = 5" by simp
  from read_in_chunks [OF h1 h2 h3 h4 h5 h6, THEN conjunct1]
  show ?thesis
    unfolding u ch l by (simp add: chunk_events_def) blast
qed

text \<open>
  C3. Command dispatch. When the verb token or the path token cannot be read, or the verb
  is none of the table, the dispatcher prints the usage text and returns: the usage text
  is nothing but \<open>printf\<close> calls and leaves the files, the free room and the console
  input as they were. Otherwise the dispatcher runs the handler of the first table entry
  whose verb equals the token, on the path and the remaining arguments; the verbs of the
  table are distinct, so that entry is the only one.
\<close>

theorem command_dispatch:
  "(args_read_string_and_trim env args = None \<longrightarrow>
      storage_cli env args w = Some (storage_cli_print_usage w))
   \<and> (args_read_string_and_trim env args = Some (cmd, args1)
        \<and> args_read_probably_quoted_string_and_trim env args1 = None \<longrightarrow>
      storage_cli env args w = Some (storage_cli_print_usage w))
   \<and> (args_read_string_and_trim env args = Some (cmd, args1)
        \<and> args_read_probably_quoted_string_and_trim env args1 = Some (path, args2)
        \<and> cmd \<notin> set (map fst verb_table) \<longrightarrow>
      storage_cli env args w = Some (storage_cli_print_usage w))
   \<and> (args_read_string_and_trim env args = Some (cmd, args1)
        \<and> args_read_probably_quoted_string_and_trim env args1 = Some (path, args2)
        \<and> cmd \<in> set (map fst verb_table) \<longrightarrow>
      (\<exists>h. first_match cmd = Some h \<and> storage_cli env args w = h env path args2 w))
   \<and> distinct (map fst verb_table)
   \<and> new_events w (storage_cli_print_usage w) = usage_events
   \<and> files (storage_cli_print_usage w) = files w
   \<and> room (storage_cli_print_usage w) = room w
   \<and> cin (storage_cli_print_usage w) = cin w
   \<and> (\<forall>e \<in> set usage_events. \<exists>s. e = Printf s [])"
proof (intro conjI impI)
  assume "args_read_string_and_trim env args = None"
  then show "storage_cli env args w = Some (storage_cli_print_usage w)"
    by (simp add: storage_cli_def)
next
  assume "args_read_string_and_trim env args = Some (cmd, args1)
        \<and> args_read_probably_quoted_string_and_trim env args1 = None"
  then show "storage_cli env args w = Some (storage_cli_print_usage w)"
    by (simp add: storage_cli_def)
next
  assume "args_read_string_and_trim env args = Some (cmd, args1)
        \<and> args_read_probably_quoted_string_and_trim env args1 = Some (path, args2)
        \<and> cmd \<notin> set (map fst verb_table)"
  then show "storage_cli env args w = Some (storage_cli_print_usage w)"
    using dispatch_eq [of env args cmd args1 path args2 w] first_match_none [of cmd]
    by simp
next
  assume a: "args_read_string_and_trim env args = Some (cmd, args1)
        \<and> args_read_probably_quoted_string_and_trim env args1 = Some (path, args2)
        \<and> cmd \<in> set (map fst verb_table)"
  then have "first_match cmd \<noteq> None"
    by (simp add: first_match_none)
  then obtain h where h: "first_match cmd = Some h" by blast
  with a dispatch_eq [of env args cmd args1 path args2 w]
  show "\<exists>h. first_match cmd = Some h \<and> storage_cli env args w = h env path args2 w"
    by simp
next
  show "distinct (map fst verb_table)"
    by (simp add: verb_table_def)
next
  show "new_events w (storage_cli_print_usage w) = usage_events"
    by (simp add: new_events_def print_usage_simps)
next
  show "\<forall>e \<in> set usage_events. \<exists>s. e = Printf s []"
    by (auto dest: usage_events_printf)
qed (simp_all add: print_usage_simps)

theorem command_dispatch_witness:
  "storage_cli sample_env [] (sample_world []) = Some (storage_cli_print_usage (sample_world []))
   \<and> storage_cli sample_env ''list'' (sample_world [])
        = Some (storage_cli_print_usage (sample_world []))
   \<and> storage_cli sample_env ''foobar /ext'' (sample_world [])
        = Some (storage_cli_print_usage (sample_world []))
   \<and> (\<exists>h. first_match ''stat'' = Some h
         \<and> storage_cli sample_env ''stat /'' (sample_world []) = h sample_env ''/'' [] (sample_world []))"
proof -
  have t0: "args_read_string_and_trim sample_env [] = None"
    by (simp add: sample_env_def sample_token_def)
  have t1: "args_read_string_and_trim sample_env ''list'' = Some (''list'', [])
      \<and> args_read_probably_quoted_string_and_trim sample_env [] = None"
    by (simp add: sample_env_def sample_token_def)
  have t2: "args_read_string_and_trim sample_env ''foobar /ext'' = Some (''foobar'', ''/ext'')
      \<and> args_read_probably_quoted_string_and_trim sample_env ''/ext'' = Some (''/ext'', [])
      \<and> ''foobar'' \<notin> set (map fst verb_table)"
    by (simp add: sample_env_def sample_token_def verb_table_def)
  have t3: "args_read_string_and_trim sample_env ''stat /'' = Some (''stat'', ''/'')
      \<and> args_read_probably_quoted_string_and_trim sample_env ''/'' = Some (''/'', [])
      \<and> ''stat'' \<in> set (map fst verb_table)"
    by (simp add: sample_env_def sample_token_def verb_table_def)
  from command_dispatch [of sample_env "[]" "sample_world []"] t0
  have a: "storage_cli sample_env [] (sample_world []) = Some (storage_cli_print_usage (sample_world []))"
    by blast
  from command_dispatch [of sample_env "''list''" "sample_world []" "''list''" "[]"] t1
  have b: "storage_cli sample_env ''list'' (sample_world [])
        = Some (storage_cli_print_usage (sample_world []))"
    by blast
  from command_dispatch [of sample_env "''foobar /ext''" "sample_world []" "''foobar''" "''/ext''" "''/ext''" "[]"] t2
  have c: "storage_cli sample_env ''foobar /ext'' (sample_world [])
        = Some (storage_cli_print_usage (sample_world []))"
    by blast
  from command_dispatch [of sample_env "''stat /''" "sample_world []" "''stat''" "''/''" "''/''" "[]"] t3
  have d: "\<exists>h. first_match ''stat'' = Some h
         \<and> storage_cli sample_env ''stat /'' (sample_world []) = h sample_env ''/'' [] (sample_world [])"
    by blast
  from a b c d show ?thesis by blast
qed

text \<open>
  C4. Destructive-operation gating. Formatting the external volume calls the storage
  format only when the confirmation character read from the console is \<open>y\<close> or \<open>Y\<close>, and
  the factory reset sets the reset flag and reboots only then. For any other character
  the stored files and the free room are left as they were, nothing but the prompt, the
  character read and the cancellation message enters the trace.
\<close>

theorem destructive_gating:
  "(\<forall>w'. storage_cli_format env path w = Some w' \<and> SdFormat \<in> set (new_events w w') \<longrightarrow>
        (\<exists>cs. cin w = of_char (CHR ''y'') # cs \<or> cin w = of_char (CHR ''Y'') # cs))
   \<and> (\<forall>w'. storage_cli_factory_reset w = Some w' \<and>
          (RtcSetFlagFactoryReset \<in> set (new_events w w') \<or> PowerReboot \<in> set (new_events w w')) \<longrightarrow>
        (\<exists>cs. cin w = of_char (CHR ''y'') # cs \<or> cin w = of_char (CHR ''Y'') # cs))
   \<and> (cin w = c # cs \<and> c \<noteq> of_char (CHR ''y'') \<and> c \<noteq> of_char (CHR ''Y'') \<longrightarrow>
        (\<exists>w'. storage_cli_format env STORAGE_EXT_PATH_PREFIX w = Some w'
            \<and> files w' = files w \<and> room w' = room w \<and> cin w' = cs
            \<and> new_events w w' =
                [Printf (''Formatting SD card, All data will be lost! Are you sure (y/n)?'' @ CRLF) [],
                 Getc c, Printf (''Cancelled.'' @ CRLF) []])
      \<and> (\<exists>w'. storage_cli_factory_reset w = Some w'
            \<and> files w' = files w \<and> room w' = room w \<and> cin w' = cs
            \<and> new_events w w' =
                [Printf (''All data will be lost! Are you sure (y/n)?'' @ CRLF) [],
                 Getc c, Printf (''Safe choice.'' @ CRLF) []]))"
proof (intro conjI allI impI)
  fix w'
  assume a: "storage_cli_format env path w = Some w' \<and> SdFormat \<in> set (new_events w w')"
  show "\<exists>cs. cin w = of_char (CHR ''y'') # cs \<or> cin w = of_char (CHR ''Y'') # cs"
  proof (cases "cin w")
    case Nil
    with a show ?thesis
      by (auto simp: storage_cli_format_def furi_record_open_def furi_record_close_def new_events_def cli_getc_def printf_simps
          print_error_simps print_usage_simps usage_events_def usage_lines_def
          split: if_splits)
  next
    case (Cons c cs)
    with a show ?thesis
      by (auto simp: storage_cli_format_def furi_record_open_def furi_record_close_def new_events_def cli_getc_def printf_simps emit_simps
          print_error_simps print_usage_simps usage_events_def usage_lines_def
          split: if_splits)
  qed
next
  fix w'
  assume a: "storage_cli_factory_reset w = Some w' \<and>
          (RtcSetFlagFactoryReset \<in> set (new_events w w') \<or> PowerReboot \<in> set (new_events w w'))"
  show "\<exists>cs. cin w = of_char (CHR ''y'') # cs \<or> cin w = of_char (CHR ''Y'') # cs"
  proof (cases "cin w")
    case Nil
    with a show ?thesis
      by (auto simp: storage_cli_factory_reset_def power_reboot_def
          furi_hal_rtc_set_flag_factory_reset_def cli_getc_def printf_simps)
  next
    case (Cons c cs)
    with a show ?thesis
      by (auto simp: storage_cli_factory_reset_def power_reboot_def
          furi_hal_rtc_set_flag_factory_reset_def new_events_def cli_getc_def printf_simps
          emit_simps split: if_splits)
  qed
next
  assume a: "cin w = c # cs \<and> c \<noteq> of_char (CHR ''y'') \<and> c \<noteq> of_char (CHR ''Y'')"
  then show "\<exists>w'. storage_cli_format env STORAGE_EXT_PATH_PREFIX w = Some w'
            \<and> files w' = files w \<and> room w' = room w \<and> cin w' = cs
            \<and> new_events w w' =
                [Printf (''Formatting SD card, All data will be lost! Are you sure (y/n)?'' @ CRLF) [],
                 Getc c, Printf (''Cancelled.'' @ CRLF) []]"
    by (simp add: storage_cli_format_def furi_record_open_def furi_record_close_def new_events_def cli_getc_def printf_simps emit_simps
        STORAGE_INT_PATH_PREFIX_def STORAGE_EXT_PATH_PREFIX_def)
next
  assume a: "cin w = c # cs \<and> c \<noteq> of_char (CHR ''y'') \<and> c \<noteq> of_char (CHR ''Y'')"
  then show "\<exists>w'. storage_cli_factory_reset w = Some w'
            \<and> files w' = files w \<and> room w' = room w \<and> cin w' = cs
            \<and> new_events w w' =
                [Printf (''All data will be lost! Are you sure (y/n)?'' @ CRLF) [],
                 Getc c, Printf (''Safe choice.'' @ CRLF) []]"
    by (simp add: storage_cli_factory_reset_def power_reboot_def
          furi_hal_rtc_set_flag_factory_reset_def new_events_def cli_getc_def printf_simps emit_simps)
qed

theorem destructive_gating_witness:
  "((\<exists>w'. storage_cli_format sample_env STORAGE_EXT_PATH_PREFIX (sample_world [0x6E]) = Some w'
        \<and> files w' = files (sample_world [0x6E]) \<and> room w' = room (sample_world [0x6E])
        \<and> cin w' = []
        \<and> new_events (sample_world [0x6E]) w' =
            [Printf (''Formatting SD card, All data will be lost! Are you sure (y/n)?'' @ CRLF) [],
             Getc 0x6E, Printf (''Cancelled.'' @ CRLF) []])
    \<and> (\<exists>w'. storage_cli_factory_reset (sample_world [0x6E]) = Some w'
        \<and> files w' = files (sample_world [0x6E]) \<and> room w' = room (sample_world [0x6E])
        \<and> cin w' = []
        \<and> new_events (sample_world [0x6E]) w' =
            [Printf (''All data will be lost! Are you sure (y/n)?'' @ CRLF) [],
             Getc 0x6E, Printf (''Safe choice.'' @ CRLF) []]))
   \<and> (\<exists>w'. storage_cli_format sample_env STORAGE_EXT_PATH_PREFIX (sample_world [0x79]) = Some w'
        \<and> SdFormat \<in> set (new_events (sample_world [0x79]) w')
        \<and> (\<exists>cs. cin (sample_world [0x79]) = of_char (CHR ''y'') # cs
               \<or> cin (sample_world [0x79]) = of_char (CHR ''Y'') # cs))"
proof (intro conjI)
  have h: "cin (sample_world [0x6E]) = 0x6E # []
      \<and> (0x6E :: byte) \<noteq> of_char (CHR ''y'') \<and> (0x6E :: byte) \<noteq> of_char (CHR ''Y'')"
    by (simp add: sample_world_def)
  from destructive_gating [of sample_env STORAGE_EXT_PATH_PREFIX "sample_world [0x6E]" "0x6E" "[]"] h
  show "\<exists>w'. storage_cli_format sample_env STORAGE_EXT_PATH_PREFIX (sample_world [0x6E]) = Some w'
        \<and> files w' = files (sample_world [0x6E]) \<and> room w' = room (sample_world [0x6E])
        \<and> cin w' = []
        \<and> new_events (sample_world [0x6E]) w' =
            [Printf (''Formatting SD card, All data will be lost! Are you sure (y/n)?'' @ CRLF) [],
             Getc 0x6E, Printf (''Cancelled.'' @ CRLF) []]"
    by blast
  from destructive_gating [of sample_env STORAGE_EXT_PATH_PREFIX "sample_world [0x6E]" "0x6E" "[]"] h
  show "\<exists>w'. storage_cli_factory_reset (sample_world [0x6E]) = Some w'
        \<and> files w' = files (sample_world [0x6E]) \<and> room w' = room (sample_world [0x6E])
        \<and> cin w' = []
        \<and> new_events (sample_world [0x6E]) w' =
            [Printf (''All data will be lost! Are you sure (y/n)?'' @ CRLF) [],
             Getc 0x6E, Printf (''Safe choice.'' @ CRLF) []]"
    by blast
  obtain w' where w': "storage_cli_format sample_env STORAGE_EXT_PATH_PREFIX (sample_world [0x79]) = Some w'"
    by (simp add: storage_cli_format_def furi_record_open_def furi_record_close_def cli_getc_def printf_simps sample_world_def
        STORAGE_INT_PATH_PREFIX_def STORAGE_EXT_PATH_PREFIX_def Let_def)
  then have ev: "SdFormat \<in> set (new_events (sample_world [0x79]) w')"
    by (auto simp: storage_cli_format_def furi_record_open_def furi_record_close_def cli_getc_def printf_simps emit_simps sample_world_def
        print_error_simps new_events_def
        STORAGE_INT_PATH_PREFIX_def STORAGE_EXT_PATH_PREFIX_def Let_def)
  from destructive_gating [of sample_env STORAGE_EXT_PATH_PREFIX "sample_world [0x79]"] w' ev
  have "\<exists>cs. cin (sample_world [0x79]) = of_char (CHR ''y'') # cs
               \<or> cin (sample_world [0x79]) = of_char (CHR ''Y'') # cs"
    by blast
  with w' ev
  show "\<exists>w'. storage_cli_format sample_env STORAGE_EXT_PATH_PREFIX (sample_world [0x79]) = Some w'
        \<and> SdFormat \<in> set (new_events (sample_world [0x79]) w')
        \<and> (\<exists>cs. cin (sample_world [0x79]) = of_char (CHR ''y'') # cs
               \<or> cin (sample_world [0x79]) = of_char (CHR ''Y'') # cs)"
    by blast
qed

text \<open>
  C5. Error flagging of \<open>write_chunk\<close>. With a parsed non-zero chunk size and an
  opened file, the handler writes the bytes the console read returned and prints an error
  line exactly when the number of bytes written differs from the requested chunk size.
  So when the console holds fewer bytes than requested and the volume takes all of them,
  the write is complete and an error line (for the code \<^verbatim>\<open>FSE_OK\<close> the handle
  holds) is printed all the same.
\<close>

theorem write_chunk_error_flagging:
  assumes "sscanf_lu env args = Some n" and "n \<noteq> 0" and "open_fault env path = FSE_OK"
    and "cin w \<noteq> []"
  shows "\<exists>w'. storage_cli_write_chunk env path args w = Some w'
      \<and> new_events w w' =
          [RecordOpen, FileAlloc, FileOpen path FSAM_WRITE FSOM_OPEN_APPEND True,
           Printf (''Ready'' @ CRLF) [],
           CliRead (unat n) (take (unat n) (cin w)),
           FileWrite (take (unat n) (cin w)) (min (length (take (unat n) (cin w))) (room w))]
          @ (if min (length (take (unat n) (cin w))) (room w) \<noteq> unat n
             then [error_line env
                     (if min (length (take (unat n) (cin w))) (room w) = length (take (unat n) (cin w))
                      then FSE_OK else short_write_error env)]
             else [])
          @ [FileClose, FileFree, RecordClose]
      \<and> ((\<exists>e. error_line env e \<in> set (new_events w w'))
            \<longleftrightarrow> min (length (take (unat n) (cin w))) (room w) \<noteq> unat n)
      \<and> (length (cin w) < unat n \<and> length (cin w) \<le> room w \<longrightarrow>
            min (length (take (unat n) (cin w))) (room w) = length (take (unat n) (cin w))
            \<and> error_line env FSE_OK \<in> set (new_events w w'))"
proof -
  let ?data = "take (unat n) (cin w)"
  let ?written = "min (length ?data) (room w)"
  let ?evs = "[RecordOpen, FileAlloc, FileOpen path FSAM_WRITE FSOM_OPEN_APPEND True,
           Printf (''Ready'' @ CRLF) [],
           CliRead (unat n) ?data,
           FileWrite ?data ?written]
          @ (if ?written \<noteq> unat n
             then [error_line env (if ?written = length ?data then FSE_OK else short_write_error env)]
             else [])
          @ [FileClose, FileFree, RecordClose]"
  obtain c cs where cs: "cin w = c # cs"
    using assms(4) by (cases "cin w") auto
  have "\<exists>w'. storage_cli_write_chunk env path args w = Some w' \<and> trace w' = trace w @ ?evs"
    using assms(1-3) cs
    by (simp add: storage_cli_write_chunk_def storage_file_alloc_def storage_file_open_def
        cli_read_def storage_file_write_def storage_file_get_error_def Let_def
        record_simps printf_simps emit_simps print_error_simps error_line_def
        furi_record_open_def del: take_Suc_Cons drop_Suc_Cons)
  then obtain w' where r: "storage_cli_write_chunk env path args w = Some w'"
    and t: "trace w' = trace w @ ?evs" by blast
  have n: "new_events w w' = ?evs" using t by (rule new_events_append)
  have iff: "(\<exists>e. error_line env e \<in> set (new_events w w')) \<longleftrightarrow> ?written \<noteq> unat n"
    unfolding n by (auto simp: error_line_def)
  have short: "length (cin w) < unat n \<and> length (cin w) \<le> room w \<longrightarrow>
            ?written = length ?data \<and> error_line env FSE_OK \<in> set (new_events w w')"
    unfolding n by (auto simp: min_def)
  from r n iff short show ?thesis by blast
qed


theorem write_chunk_error_flagging_witness:
  "\<exists>w'. storage_cli_write_chunk sample_env ''/ext/new'' ''4'' (sample_world [0x41, 0x42]) = Some w'
      \<and> new_events (sample_world [0x41, 0x42]) w' =
          [RecordOpen, FileAlloc, FileOpen ''/ext/new'' FSAM_WRITE FSOM_OPEN_APPEND True,
           Printf (''Ready'' @ CRLF) [],
           CliRead 4 [0x41, 0x42],
           FileWrite [0x41, 0x42] 2,
           error_line sample_env FSE_OK,
           FileClose, FileFree, RecordClose]
      \<and> error_line sample_env FSE_OK \<in> set (new_events (sample_world [0x41, 0x42]) w')"
proof -
  have h1: "sscanf_lu sample_env ''4'' = Some 4" by (simp add: sample_env_def)
  have h2: "(4 :: 32 word) \<noteq> 0" by simp
  have h3: "open_fault sample_env ''/ext/new'' = FSE_OK" by (simp add: sample_env_def)
  have h4: "cin (sample_world [0x41, 0x42]) \<noteq> []" by (simp add: sample_world_def)
  have c: "cin (sample_world [0x41, 0x42]) = [0x41, 0x42]"
          "room (sample_world [0x41, 0x42]) = 1024"
    by (simp_all add: sample_world_def)
  have u: "unat (4 :: 32 word) = 4" by simp
  have tk: "take 4 [0x41, 0x42 :: byte] = [0x41, 0x42]" by simp
  have l2: "length [0x41, 0x42 :: byte] = 2" by simp
  from write_chunk_error_flagging [OF h1 h2 h3 h4]
  show ?thesis unfolding c u tk l2 by simp blast
qed

text \<open>
  C6. Argument before open. When the trailing argument of \<open>read_chunks\<close> or
  \<open>write_chunk\<close> does not parse as an unsigned integer, the handler prints the usage
  text and returns; its calls are the record, the allocation of the handle, the usage
  lines and the release, and no call opens a file. The stored files are untouched.
\<close>

theorem chunk_size_validated_before_open:
  assumes "sscanf_lu env args = None"
  shows "(\<exists>w'. storage_cli_read_chunks env path args w = Some w'
            \<and> new_events w w' = [RecordOpen, FileAlloc] @ usage_events @ [FileClose, FileFree, RecordClose]
            \<and> files w' = files w
            \<and> (\<forall>p am om ok. FileOpen p am om ok \<notin> set (new_events w w')))
       \<and> (\<exists>w'. storage_cli_write_chunk env path args w = Some w'
            \<and> new_events w w' = [RecordOpen, FileAlloc] @ usage_events @ [FileFree, RecordClose]
            \<and> files w' = files w
            \<and> (\<forall>p am om ok. FileOpen p am om ok \<notin> set (new_events w w')))"
proof (intro conjI)
  let ?r = "furi_record_close (storage_file_free (storage_file_close
              (storage_cli_print_usage (emit FileAlloc (furi_record_open w)))))"
  have r: "storage_cli_read_chunks env path args w = Some ?r"
    using assms by (simp add: storage_cli_read_chunks_def storage_file_alloc_def Let_def)
  have t: "trace ?r = trace w @ [RecordOpen, FileAlloc] @ usage_events @ [FileClose, FileFree, RecordClose]"
    by (simp add: record_simps print_usage_simps emit_simps)
  have f: "files ?r = files w"
    by (simp add: furi_record_close_def furi_record_open_def storage_file_free_def
        storage_file_close_def emit_simps print_usage_simps)
  have n: "new_events w ?r = [RecordOpen, FileAlloc] @ usage_events @ [FileClose, FileFree, RecordClose]"
    using t by (rule new_events_append)
  have "\<forall>p am om ok. FileOpen p am om ok \<notin> set (new_events w ?r)"
    unfolding n by (auto dest: usage_events_printf)
  with r n f show "\<exists>w'. storage_cli_read_chunks env path args w = Some w'
            \<and> new_events w w' = [RecordOpen, FileAlloc] @ usage_events @ [FileClose, FileFree, RecordClose]
            \<and> files w' = files w
            \<and> (\<forall>p am om ok. FileOpen p am om ok \<notin> set (new_events w w'))"
    by blast
next
  let ?r = "furi_record_close (storage_file_free
              (storage_cli_print_usage (emit FileAlloc (furi_record_open w))))"
  have r: "storage_cli_write_chunk env path args w = Some ?r"
    using assms by (simp add: storage_cli_write_chunk_def storage_file_alloc_def Let_def)
  have t: "trace ?r = trace w @ [RecordOpen, FileAlloc] @ usage_events @ [FileFree, RecordClose]"
    by (simp add: record_simps print_usage_simps emit_simps)
  have f: "files ?r = files w"
    by (simp add: furi_record_close_def furi_record_open_def storage_file_free_def
        emit_simps print_usage_simps)
  have n: "new_events w ?r = [RecordOpen, FileAlloc] @ usage_events @ [FileFree, RecordClose]"
    using t by (rule new_events_append)
  have "\<forall>p am om ok. FileOpen p am om ok \<notin> set (new_events w ?r)"
    unfolding n by (auto dest: usage_events_printf)
  with r n f show "\<exists>w'. storage_cli_write_chunk env path args w = Some w'
            \<and> new_events w w' = [RecordOpen, FileAlloc] @ usage_events @ [FileFree, RecordClose]
            \<and> files w' = files w
            \<and> (\<forall>p am om ok. FileOpen p am om ok \<notin> set (new_events w w'))"
    by blast
qed

theorem chunk_size_validated_before_open_witness:
  "(\<exists>w'. storage_cli_read_chunks sample_env ''/ext/a'' ''abc'' (sample_world []) = Some w'
            \<and> new_events (sample_world []) w' =
                [RecordOpen, FileAlloc] @ usage_events @ [FileClose, FileFree, RecordClose]
            \<and> files w' = files (sample_world [])
            \<and> (\<forall>p am om ok. FileOpen p am om ok \<notin> set (new_events (sample_world []) w')))
       \<and> (\<exists>w'. storage_cli_write_chunk sample_env ''/ext/a'' ''abc'' (sample_world []) = Some w'
            \<and> new_events (sample_world []) w' =
                [RecordOpen, FileAlloc] @ usage_events @ [FileFree, RecordClose]
            \<and> files w' = files (sample_world [])
            \<and> (\<forall>p am om ok. FileOpen p am om ok \<notin> set (new_events (sample_world []) w')))"
proof -
  have h: "sscanf_lu sample_env ''abc'' = None"
    by (simp add: sample_env_def)
  show ?thesis
    by (rule chunk_size_validated_before_open [OF h])
qed

text \<open>
  C7. Tree walker. For the root marker the walker runs itself on the internal prefix and
  then, from the world that run left, on the external prefix; its calls are the calls of
  the internal run followed by the calls of the external run. For any other path whose
  walker opens and yields no entry it prints the empty indicator. When the walker cannot
  be opened it prints the storage error of the walker and reads no entry.
\<close>

theorem tree_aggregate_and_empty:
  "storage_cli_tree env ''/'' w =
     storage_cli_tree env STORAGE_EXT_PATH_PREFIX (storage_cli_tree env STORAGE_INT_PATH_PREFIX w)
   \<and> new_events w (storage_cli_tree env ''/'' w) =
       new_events w (storage_cli_tree env STORAGE_INT_PATH_PREFIX w)
       @ new_events w (storage_cli_tree env STORAGE_EXT_PATH_PREFIX w)
   \<and> (path \<noteq> ''/'' \<and> resp_dir_walk env path = Inr [] \<longrightarrow>
        new_events w (storage_cli_tree env path w) =
          [RecordOpen, DirWalkAlloc, DirWalkOpen path True, DirWalkRead False,
           Printf (TAB @ ''Empty'' @ CRLF) [], DirWalkFree, RecordClose])
   \<and> (path \<noteq> ''/'' \<and> resp_dir_walk env path = Inl e \<longrightarrow>
        new_events w (storage_cli_tree env path w) =
          [RecordOpen, DirWalkAlloc, DirWalkOpen path False, error_line env e,
           DirWalkFree, RecordClose])"
proof (intro conjI impI)
  show "storage_cli_tree env ''/'' w =
     storage_cli_tree env STORAGE_EXT_PATH_PREFIX (storage_cli_tree env STORAGE_INT_PATH_PREFIX w)"
    by (rule tree_root)
next
  have i: "STORAGE_INT_PATH_PREFIX \<noteq> ''/''" and x: "STORAGE_EXT_PATH_PREFIX \<noteq> ''/''"
    by (simp_all add: STORAGE_INT_PATH_PREFIX_def STORAGE_EXT_PATH_PREFIX_def)
  obtain a where a: "\<forall>w. trace (storage_cli_tree env STORAGE_INT_PATH_PREFIX w) = trace w @ a"
    using tree_trace [OF i] by blast
  obtain b where b: "\<forall>w. trace (storage_cli_tree env STORAGE_EXT_PATH_PREFIX w) = trace w @ b"
    using tree_trace [OF x] by blast
  show "new_events w (storage_cli_tree env ''/'' w) =
       new_events w (storage_cli_tree env STORAGE_INT_PATH_PREFIX w)
       @ new_events w (storage_cli_tree env STORAGE_EXT_PATH_PREFIX w)"
    by (simp add: tree_root new_events_def a b)
next
  assume "path \<noteq> ''/'' \<and> resp_dir_walk env path = Inr []"
  then show "new_events w (storage_cli_tree env path w) =
          [RecordOpen, DirWalkAlloc, DirWalkOpen path True, DirWalkRead False,
           Printf (TAB @ ''Empty'' @ CRLF) [], DirWalkFree, RecordClose]"
    by (intro new_events_append)
       (simp add: tree_unfold record_simps emit_simps printf_simps Let_def)
next
  assume "path \<noteq> ''/'' \<and> resp_dir_walk env path = Inl e"
  then show "new_events w (storage_cli_tree env path w) =
          [RecordOpen, DirWalkAlloc, DirWalkOpen path False, error_line env e,
           DirWalkFree, RecordClose]"
    by (intro new_events_append)
       (simp add: tree_unfold record_simps emit_simps print_error_simps error_line_def)
qed

theorem tree_aggregate_and_empty_witness:
  "new_events (sample_world []) (storage_cli_tree sample_env ''/ext/empty'' (sample_world [])) =
          [RecordOpen, DirWalkAlloc, DirWalkOpen ''/ext/empty'' True, DirWalkRead False,
           Printf (TAB @ ''Empty'' @ CRLF) [], DirWalkFree, RecordClose]
   \<and> new_events (sample_world []) (storage_cli_tree sample_env ''/ext/none'' (sample_world [])) =
          [RecordOpen, DirWalkAlloc, DirWalkOpen ''/ext/none'' False,
           error_line sample_env FSE_NOT_EXIST, DirWalkFree, RecordClose]"
proof -
  have h1: "''/ext/empty'' \<noteq> ''/'' \<and> resp_dir_walk sample_env ''/ext/empty'' = Inr []"
    by (simp add: sample_env_def)
  have h2: "''/ext/none'' \<noteq> ''/'' \<and> resp_dir_walk sample_env ''/ext/none'' = Inl FSE_NOT_EXIST"
    by (simp add: sample_env_def)
  from tree_aggregate_and_empty [of sample_env "sample_world []" "''/ext/empty''"] h1
  have a: "new_events (sample_world []) (storage_cli_tree sample_env ''/ext/empty'' (sample_world [])) =
          [RecordOpen, DirWalkAlloc, DirWalkOpen ''/ext/empty'' True, DirWalkRead False,
           Printf (TAB @ ''Empty'' @ CRLF) [], DirWalkFree, RecordClose]"
    by blast
  from tree_aggregate_and_empty [of sample_env "sample_world []" "''/ext/none''" FSE_NOT_EXIST] h2
  have b: "new_events (sample_world []) (storage_cli_tree sample_env ''/ext/none'' (sample_world [])) =
          [RecordOpen, DirWalkAlloc, DirWalkOpen ''/ext/none'' False,
           error_line sample_env FSE_NOT_EXIST, DirWalkFree, RecordClose]"
    by blast
  from a b show ?thesis by blast
qed

text \<open>
  C8. Storage-error propagation. As stated for every verb, the claim fails for
  \<open>timestamp\<close>: for a missing path the query answers \<^verbatim>\<open>FSE_NOT_EXIST\<close> and the
  handler prints the fixed text \<^verbatim>\<open>Invalid arguments\<close>, not the description of the code.
\<close>

theorem timestamp_error_counterexample:
  "resp_timestamp sample_env ''/ext/missing'' = (FSE_NOT_EXIST, 0)
   \<and> new_events (sample_world []) (storage_cli_timestamp sample_env ''/ext/missing'' (sample_world [])) =
       [RecordOpen, CommonTimestamp ''/ext/missing'', Printf (''Invalid arguments'' @ CRLF) [],
        RecordClose]
   \<and> error_line sample_env FSE_NOT_EXIST
       \<notin> set (new_events (sample_world [])
                 (storage_cli_timestamp sample_env ''/ext/missing'' (sample_world [])))"
proof -
  have r: "resp_timestamp sample_env ''/ext/missing'' = (FSE_NOT_EXIST, 0)"
    by (simp add: sample_env_def)
  have n: "new_events (sample_world []) (storage_cli_timestamp sample_env ''/ext/missing'' (sample_world [])) =
       [RecordOpen, CommonTimestamp ''/ext/missing'', Printf (''Invalid arguments'' @ CRLF) [],
        RecordClose]"
    by (rule timestamp_error [OF r]) simp
  have "error_line sample_env FSE_NOT_EXIST
       \<notin> set (new_events (sample_world [])
                 (storage_cli_timestamp sample_env ''/ext/missing'' (sample_world [])))"
    unfolding n by (simp add: error_line_def)
  with r n show ?thesis by blast
qed

text \<open>
  C8, as the code has it. For every verb other than \<open>timestamp\<close>, when the storage call
  of the handler (the space or card query, the format, the open of the directory, walker
  or file, the stat, copy, remove, rename, migrate, mkdir or digest call) answers with an
  error code, the handler prints the description of that very code, releases what it
  holds and returns. \<open>timestamp\<close> prints the fixed text \<^verbatim>\<open>Invalid arguments\<close> for every
  code other than \<^verbatim>\<open>FSE_OK\<close> and returns.
\<close>

theorem storage_error_reporting:
  "(resp_fs_info env STORAGE_INT_PATH_PREFIX = (e, t, f) \<and> e \<noteq> FSE_OK \<longrightarrow>
      new_events w (storage_cli_info env STORAGE_INT_PATH_PREFIX w) =
        [RecordOpen, CommonFsInfo STORAGE_INT_PATH_PREFIX, error_line env e, RecordClose])
   \<and> (resp_sd_info env = (e, sd) \<and> e \<noteq> FSE_OK \<longrightarrow>
      new_events w (storage_cli_info env STORAGE_EXT_PATH_PREFIX w) =
        [RecordOpen, SdInfo, error_line env e, RecordClose])
   \<and> (cin w = c # cs \<and> (c = of_char (CHR ''y'') \<or> c = of_char (CHR ''Y''))
        \<and> resp_sd_format env = e \<and> e \<noteq> FSE_OK \<longrightarrow>
      (\<exists>w'. storage_cli_format env STORAGE_EXT_PATH_PREFIX w = Some w' \<and>
         new_events w w' =
           [Printf (''Formatting SD card, All data will be lost! Are you sure (y/n)?'' @ CRLF) [],
            Getc c, RecordOpen, Printf (''Formatting, please wait...'' @ CRLF) [], SdFormat,
            error_line env e, RecordClose]))
   \<and> (path \<noteq> ''/'' \<and> resp_dir env path = Inl e \<longrightarrow>
      new_events w (storage_cli_list env path w) =
        [RecordOpen, FileAlloc, DirOpen path False, error_line env e, DirClose, FileFree,
         RecordClose])
   \<and> (path \<noteq> ''/'' \<and> resp_dir_walk env path = Inl e \<longrightarrow>
      new_events w (storage_cli_tree env path w) =
        [RecordOpen, DirWalkAlloc, DirWalkOpen path False, error_line env e, DirWalkFree,
         RecordClose])
   \<and> (open_fault env path = e \<and> e \<noteq> FSE_OK \<longrightarrow>
      new_events w (storage_cli_read env path w) =
        [RecordOpen, FileAlloc, FileOpen path FSAM_READ FSOM_OPEN_EXISTING False,
         error_line env e, FileClose, FileFree, RecordClose])
   \<and> (open_fault env path = e \<and> e \<noteq> FSE_OK \<longrightarrow>
      (\<exists>w'. storage_cli_write env path w = Some w' \<and>
         new_events w w' =
           [RecordOpen, FileAlloc, FileOpen path FSAM_WRITE FSOM_OPEN_APPEND False,
            error_line env e, FileClose, FileFree, RecordClose]))
   \<and> (sscanf_lu env args = Some n \<and> open_fault env path = e \<and> e \<noteq> FSE_OK \<longrightarrow>
      (\<exists>w'. storage_cli_read_chunks env path args w = Some w' \<and>
         new_events w w' =
           [RecordOpen, FileAlloc, FileOpen path FSAM_READ FSOM_OPEN_EXISTING False,
            error_line env e, FileClose, FileFree, RecordClose]))
   \<and> (sscanf_lu env args = Some n \<and> open_fault env path = e \<and> e \<noteq> FSE_OK \<longrightarrow>
      (\<exists>w'. storage_cli_write_chunk env path args w = Some w' \<and>
         new_events w w' =
           [RecordOpen, FileAlloc, FileOpen path FSAM_WRITE FSOM_OPEN_APPEND False,
            error_line env e, FileClose, FileFree, RecordClose]))
   \<and> ((path = STORAGE_EXT_PATH_PREFIX \<or> path = STORAGE_INT_PATH_PREFIX
         \<or> path = STORAGE_ANY_PATH_PREFIX)
        \<and> resp_fs_info env path = (e, t, f) \<and> e \<noteq> FSE_OK \<longrightarrow>
      new_events w (storage_cli_stat env path w) =
        [RecordOpen, CommonFsInfo path, error_line env e, RecordClose])
   \<and> (path \<noteq> ''/'' \<and> path \<noteq> STORAGE_EXT_PATH_PREFIX \<and> path \<noteq> STORAGE_INT_PATH_PREFIX
        \<and> path \<noteq> STORAGE_ANY_PATH_PREFIX
        \<and> resp_stat env path = (e, fileinfo) \<and> e \<noteq> FSE_OK \<longrightarrow>
      new_events w (storage_cli_stat env path w) =
        [RecordOpen, CommonStat path, error_line env e, RecordClose])
   \<and> (args_read_probably_quoted_string_and_trim env args = Some (new_path, rest)
        \<and> resp_copy env path new_path = e \<and> e \<noteq> FSE_OK \<longrightarrow>
      new_events w (storage_cli_copy env path args w) =
        [RecordOpen, CommonCopy path new_path, error_line env e, RecordClose])
   \<and> (resp_remove env path = e \<and> e \<noteq> FSE_OK \<longrightarrow>
      new_events w (storage_cli_remove env path w) =
        [RecordOpen, CommonRemove path, error_line env e, RecordClose])
   \<and> (args_read_probably_quoted_string_and_trim env args = Some (new_path, rest)
        \<and> resp_rename env path new_path = e \<and> e \<noteq> FSE_OK \<longrightarrow>
      new_events w (storage_cli_rename env path args w) =
        [RecordOpen, CommonRename path new_path, error_line env e, RecordClose])
   \<and> (args_read_probably_quoted_string_and_trim env args = Some (new_path, rest)
        \<and> resp_migrate env path new_path = e \<and> e \<noteq> FSE_OK \<longrightarrow>
      new_events w (storage_cli_migrate env path args w) =
        [RecordOpen, CommonMigrate path new_path, error_line env e, RecordClose])
   \<and> (resp_mkdir env path = e \<and> e \<noteq> FSE_OK \<longrightarrow>
      new_events w (storage_cli_mkdir env path w) =
        [RecordOpen, CommonMkdir path, error_line env e, RecordClose])
   \<and> (resp_md5 env path = Inl e \<longrightarrow>
      new_events w (storage_cli_md5 env path w) =
        [RecordOpen, FileAlloc, Md5Calc path False, error_line env e, FileClose, FileFree,
         RecordClose])
   \<and> (resp_timestamp env path = (e, ts) \<and> e \<noteq> FSE_OK \<longrightarrow>
      new_events w (storage_cli_timestamp env path w) =
        [RecordOpen, CommonTimestamp path, Printf (''Invalid arguments'' @ CRLF) [],
         RecordClose])"
  apply (intro conjI impI)
  subgoal by (elim conjE) (rule info_int_error)
  subgoal by (elim conjE) (rule info_ext_error)
  subgoal by (elim conjE) (rule format_error)
  subgoal by (elim conjE) (rule list_error)
  subgoal by (elim conjE) (rule tree_error)
  subgoal by (elim conjE) (rule read_error)
  subgoal by (elim conjE) (rule write_error)
  subgoal by (elim conjE) (rule read_chunks_error)
  subgoal by (elim conjE) (rule write_chunk_error)
  subgoal by (elim conjE) (rule stat_volume_error)
  subgoal by (elim conjE) (rule stat_path_error)
  subgoal by (elim conjE) (rule copy_error)
  subgoal by (elim conjE) (rule remove_error)
  subgoal by (elim conjE) (rule rename_error)
  subgoal by (elim conjE) (rule migrate_error)
  subgoal by (elim conjE) (rule mkdir_error)
  subgoal by (rule md5_error)
  subgoal by (elim conjE) (rule timestamp_error)
  done

theorem storage_error_reporting_witness:
  "new_events (sample_world []) (storage_cli_info sample_env STORAGE_INT_PATH_PREFIX (sample_world [])) =
     [RecordOpen, CommonFsInfo STORAGE_INT_PATH_PREFIX, error_line sample_env FSE_INTERNAL,
      RecordClose]
   \<and> new_events (sample_world []) (storage_cli_read sample_env ''/ext/denied'' (sample_world [])) =
     [RecordOpen, FileAlloc, FileOpen ''/ext/denied'' FSAM_READ FSOM_OPEN_EXISTING False,
      error_line sample_env FSE_DENIED, FileClose, FileFree, RecordClose]
   \<and> new_events (sample_world []) (storage_cli_timestamp sample_env ''/ext/a'' (sample_world [])) =
     [RecordOpen, CommonTimestamp ''/ext/a'', Printf (''Invalid arguments'' @ CRLF) [],
      RecordClose]"
proof (intro conjI)
  have h: "resp_fs_info sample_env STORAGE_INT_PATH_PREFIX = (FSE_INTERNAL, 0, 0)
      \<and> FSE_INTERNAL \<noteq> FSE_OK"
    by (simp add: sample_env_def STORAGE_INT_PATH_PREFIX_def)
  show "new_events (sample_world []) (storage_cli_info sample_env STORAGE_INT_PATH_PREFIX (sample_world [])) =
     [RecordOpen, CommonFsInfo STORAGE_INT_PATH_PREFIX, error_line sample_env FSE_INTERNAL,
      RecordClose]"
    by (rule storage_error_reporting [THEN conjunct1, THEN mp, OF h])
next
  have h: "open_fault sample_env ''/ext/denied'' = FSE_DENIED \<and> FSE_DENIED \<noteq> FSE_OK"
    by (simp add: sample_env_def)
  show "new_events (sample_world []) (storage_cli_read sample_env ''/ext/denied'' (sample_world [])) =
     [RecordOpen, FileAlloc, FileOpen ''/ext/denied'' FSAM_READ FSOM_OPEN_EXISTING False,
      error_line sample_env FSE_DENIED, FileClose, FileFree, RecordClose]"
    by (rule storage_error_reporting [THEN conjunct2, THEN conjunct2, THEN conjunct2, THEN conjunct2, THEN conjunct2, THEN conjunct1, THEN mp, OF h])
next
  have h: "resp_timestamp sample_env ''/ext/a'' = (FSE_NOT_EXIST, 0) \<and> FSE_NOT_EXIST \<noteq> FSE_OK"
    by (simp add: sample_env_def)
  show "new_events (sample_world []) (storage_cli_timestamp sample_env ''/ext/a'' (sample_world [])) =
     [RecordOpen, CommonTimestamp ''/ext/a'', Printf (''Invalid arguments'' @ CRLF) [],
      RecordClose]"
    by (rule storage_error_reporting [THEN conjunct2, THEN conjunct2, THEN conjunct2, THEN conjunct2, THEN conjunct2, THEN conjunct2, THEN conjunct2, THEN conjunct2, THEN conjunct2, THEN conjunct2, THEN conjunct2, THEN conjunct2, THEN conjunct2, THEN conjunct2, THEN conjunct2, THEN conjunct2, THEN conjunct2, THEN mp, OF h])
qed

text \<open>
  C9. Handle release. Whenever a handler returns, the calls it made respect the handle
  discipline and leave nothing held: a file or directory handle it opened is closed before
  it is freed, every handle and every walker it allocated is freed before the storage
  record is closed, and the record is closed. This holds on every path: success, a
  trailing argument that does not parse, and a storage error. It is stated for the
  handlers that take a handle (\<open>list\<close>, \<open>tree\<close>, \<open>read\<close>, \<open>md5\<close>, \<open>write\<close>,
  \<open>read_chunks\<close>, \<open>write_chunk\<close>) and, through the dispatcher, for every verb.
\<close>

theorem handle_release:
  "released (new_events w (storage_cli_list env path w))
   \<and> released (new_events w (storage_cli_tree env path w))
   \<and> released (new_events w (storage_cli_read env path w))
   \<and> released (new_events w (storage_cli_md5 env path w))
   \<and> (\<forall>w'. storage_cli_write env path w = Some w' \<longrightarrow> released (new_events w w'))
   \<and> (\<forall>w'. storage_cli_read_chunks env path args w = Some w' \<longrightarrow> released (new_events w w'))
   \<and> (\<forall>w'. storage_cli_write_chunk env path args w = Some w' \<longrightarrow> released (new_events w w'))
   \<and> (\<forall>w'. storage_cli env line w = Some w' \<longrightarrow> released (new_events w w'))"
  by (intro conjI allI impI released_list released_tree released_read released_md5
      released_write released_read_chunks released_write_chunk released_storage_cli)

theorem handle_release_witness:
  "released (new_events (sample_world []) (storage_cli_read sample_env ''/ext/a'' (sample_world [])))
   \<and> (\<exists>w'. storage_cli_write_chunk sample_env ''/ext/a'' ''abc'' (sample_world []) = Some w'
         \<and> released (new_events (sample_world []) w'))
   \<and> (\<exists>w'. storage_cli_write_chunk sample_env ''/ext/denied'' ''4'' (sample_world []) = Some w'
         \<and> released (new_events (sample_world []) w'))"
proof (intro conjI)
  show "released (new_events (sample_world []) (storage_cli_read sample_env ''/ext/a'' (sample_world [])))"
    by (rule handle_release [THEN conjunct2, THEN conjunct2, THEN conjunct1])
next
  obtain w' where r: "storage_cli_write_chunk sample_env ''/ext/a'' ''abc'' (sample_world []) = Some w'"
    by (simp add: storage_cli_write_chunk_def sample_env_def storage_file_alloc_def Let_def)
  have "released (new_events (sample_world []) w')"
    by (rule handle_release [THEN conjunct2, THEN conjunct2, THEN conjunct2, THEN conjunct2,
          THEN conjunct2, THEN conjunct2, THEN conjunct1, THEN spec, THEN mp, OF r])
  with r show "\<exists>w'. storage_cli_write_chunk sample_env ''/ext/a'' ''abc'' (sample_world []) = Some w'
         \<and> released (new_events (sample_world []) w')"
    by blast
next
  have "sscanf_lu sample_env ''4'' = Some 4" and "open_fault sample_env ''/ext/denied'' = FSE_DENIED"
    and "FSE_DENIED \<noteq> FSE_OK"
    by (simp_all add: sample_env_def)
  then obtain w' where r: "storage_cli_write_chunk sample_env ''/ext/denied'' ''4'' (sample_world []) = Some w'"
    using write_chunk_error by blast
  have "released (new_events (sample_world []) w')"
    by (rule handle_release [THEN conjunct2, THEN conjunct2, THEN conjunct2, THEN conjunct2,
          THEN conjunct2, THEN conjunct2, THEN conjunct1, THEN spec, THEN mp, OF r])
  with r show "\<exists>w'. storage_cli_write_chunk sample_env ''/ext/denied'' ''4'' (sample_world []) = Some w'
         \<and> released (new_events (sample_world []) w')"
    by blast
qed

text \<open>
  C10. Aggregate paths in \<open>stat\<close> and \<open>info\<close>. \<open>stat\<close> answers the root marker with the
  fixed label, and for each of the three volume prefixes (internal, external, any volume)
  it queries the space of that prefix and prints total and free space. \<open>info\<close> queries
  the volume only for exactly the internal or the external prefix; for every other path,
  the any-volume prefix and the root marker among them, it prints the usage text and
  queries nothing.
\<close>

theorem info_stat_asymmetry:
  "new_events w (storage_cli_stat env ''/'' w) = [RecordOpen, Printf (''Storage'' @ CRLF) [], RecordClose]
   \<and> ((p = STORAGE_INT_PATH_PREFIX \<or> p = STORAGE_EXT_PATH_PREFIX \<or> p = STORAGE_ANY_PATH_PREFIX)
        \<and> resp_fs_info env p = (FSE_OK, total_space, free_space) \<longrightarrow>
      new_events w (storage_cli_stat env p w) =
        [RecordOpen, CommonFsInfo p,
         Printf (''Storage, %luKiB total, %luKiB free'' @ CRLF)
           [ArgU32 (ucast (total_space div 1024)), ArgU32 (ucast (free_space div 1024))],
         RecordClose])
   \<and> (q \<noteq> STORAGE_INT_PATH_PREFIX \<and> q \<noteq> STORAGE_EXT_PATH_PREFIX \<longrightarrow>
      new_events w (storage_cli_info env q w) = [RecordOpen] @ usage_events @ [RecordClose])
   \<and> new_events w (storage_cli_info env STORAGE_ANY_PATH_PREFIX w) =
        [RecordOpen] @ usage_events @ [RecordClose]
   \<and> new_events w (storage_cli_info env ''/'' w) = [RecordOpen] @ usage_events @ [RecordClose]
   \<and> (\<exists>line. new_events w (storage_cli_info env STORAGE_INT_PATH_PREFIX w) =
        [RecordOpen, CommonFsInfo STORAGE_INT_PATH_PREFIX, line, RecordClose])
   \<and> (\<exists>line. new_events w (storage_cli_info env STORAGE_EXT_PATH_PREFIX w) =
        [RecordOpen, SdInfo, line, RecordClose])"
proof (intro conjI impI)
  show "new_events w (storage_cli_stat env ''/'' w) = [RecordOpen, Printf (''Storage'' @ CRLF) [], RecordClose]"
    by (rule new_events_append) (simp add: storage_cli_stat_def record_simps printf_simps)
next
  assume "(p = STORAGE_INT_PATH_PREFIX \<or> p = STORAGE_EXT_PATH_PREFIX \<or> p = STORAGE_ANY_PATH_PREFIX)
        \<and> resp_fs_info env p = (FSE_OK, total_space, free_space)"
  then show "new_events w (storage_cli_stat env p w) =
        [RecordOpen, CommonFsInfo p,
         Printf (''Storage, %luKiB total, %luKiB free'' @ CRLF)
           [ArgU32 (ucast (total_space div 1024)), ArgU32 (ucast (free_space div 1024))],
         RecordClose]"
    by (intro new_events_append)
       (auto simp: storage_cli_stat_def record_simps printf_simps emit_simps Let_def
          STORAGE_INT_PATH_PREFIX_def STORAGE_EXT_PATH_PREFIX_def STORAGE_ANY_PATH_PREFIX_def)
next
  assume "q \<noteq> STORAGE_INT_PATH_PREFIX \<and> q \<noteq> STORAGE_EXT_PATH_PREFIX"
  then show "new_events w (storage_cli_info env q w) = [RecordOpen] @ usage_events @ [RecordClose]"
    by (intro new_events_append)
       (simp add: storage_cli_info_def record_simps print_usage_simps Let_def)
next
  show "new_events w (storage_cli_info env STORAGE_ANY_PATH_PREFIX w) =
        [RecordOpen] @ usage_events @ [RecordClose]"
    by (intro new_events_append)
       (simp add: storage_cli_info_def record_simps print_usage_simps Let_def
          STORAGE_INT_PATH_PREFIX_def STORAGE_EXT_PATH_PREFIX_def STORAGE_ANY_PATH_PREFIX_def)
next
  show "new_events w (storage_cli_info env ''/'' w) = [RecordOpen] @ usage_events @ [RecordClose]"
    by (intro new_events_append)
       (simp add: storage_cli_info_def record_simps print_usage_simps Let_def
          STORAGE_INT_PATH_PREFIX_def STORAGE_EXT_PATH_PREFIX_def)
next
  show "\<exists>line. new_events w (storage_cli_info env STORAGE_INT_PATH_PREFIX w) =
        [RecordOpen, CommonFsInfo STORAGE_INT_PATH_PREFIX, line, RecordClose]"
    by (auto simp: new_events_def storage_cli_info_def record_simps printf_simps emit_simps
        print_error_simps Let_def split: prod.splits)
next
  show "\<exists>line. new_events w (storage_cli_info env STORAGE_EXT_PATH_PREFIX w) =
        [RecordOpen, SdInfo, line, RecordClose]"
    by (auto simp: new_events_def storage_cli_info_def record_simps printf_simps emit_simps
        print_error_simps Let_def STORAGE_INT_PATH_PREFIX_def STORAGE_EXT_PATH_PREFIX_def
        split: prod.splits)
qed

theorem info_stat_asymmetry_witness:
  "new_events (sample_world []) (storage_cli_stat sample_env STORAGE_ANY_PATH_PREFIX (sample_world [])) =
     [RecordOpen, CommonFsInfo STORAGE_ANY_PATH_PREFIX,
      Printf (''Storage, %luKiB total, %luKiB free'' @ CRLF) [ArgU32 4, ArgU32 2],
      RecordClose]
   \<and> new_events (sample_world []) (storage_cli_info sample_env ''/ext/a'' (sample_world [])) =
     [RecordOpen] @ usage_events @ [RecordClose]"
proof -
  have h1: "(STORAGE_ANY_PATH_PREFIX = STORAGE_INT_PATH_PREFIX
              \<or> STORAGE_ANY_PATH_PREFIX = STORAGE_EXT_PATH_PREFIX
              \<or> STORAGE_ANY_PATH_PREFIX = STORAGE_ANY_PATH_PREFIX)
            \<and> resp_fs_info sample_env STORAGE_ANY_PATH_PREFIX = (FSE_OK, 4096, 2048)"
    by (simp add: sample_env_def STORAGE_ANY_PATH_PREFIX_def)
  have h2: "''/ext/a'' \<noteq> STORAGE_INT_PATH_PREFIX \<and> ''/ext/a'' \<noteq> STORAGE_EXT_PATH_PREFIX"
    by (simp add: STORAGE_INT_PATH_PREFIX_def STORAGE_EXT_PATH_PREFIX_def)
  have d: "ucast ((4096 :: 64 word) div 1024) = (4 :: 32 word)"
          "ucast ((2048 :: 64 word) div 1024) = (2 :: 32 word)"
    by simp_all
  from info_stat_asymmetry [of "sample_world []" sample_env STORAGE_ANY_PATH_PREFIX 4096 2048 "''/ext/a''"]
    h1 h2 d
  show ?thesis by simp
qed

end
